theory Spec2Isabelle
  imports Main "HOL-Library.Multiset"
begin

section \<open>Dice and the shared generator (dice\_roller.py)\<close>

text \<open>
  The module-level generator \<open>rng = numpy.random.default_rng()\<close> is modelled as an
  infinite stream of raw draws. \<open>Generator.integers(low, high, endpoint=True)\<close> consumes
  one raw draw and maps it into the closed interval from \<open>low\<close> to \<open>high\<close>; with
  \<open>size=N\<close> it consumes \<open>N\<close> draws in order. Narration (\<open>verbose\<close> printing) has
  no effect on the state and is left out everywhere.
\<close>

type_synonym rng = "nat \<Rightarrow> nat"

definition integers :: "int \<Rightarrow> int \<Rightarrow> rng \<Rightarrow> int \<times> rng" where
  "integers low high g = (low + int (g 0 mod nat (high - low + 1)), \<lambda>n. g (Suc n))"

fun integers_size :: "int \<Rightarrow> int \<Rightarrow> nat \<Rightarrow> rng \<Rightarrow> int list \<times> rng" where
  "integers_size low high 0 g = ([], g)"
| "integers_size low high (Suc n) g =
     (case integers low high g of (x, g1) \<Rightarrow>
        (case integers_size low high n g1 of (xs, g2) \<Rightarrow> (x # xs, g2)))"

text \<open>The six \<open>Die\<close> instances of the module: \<open>d4 = Die(4, rng)\<close> ... \<open>d20 = Die(20, rng)\<close>.\<close>

datatype die = d4 | d6 | d8 | d10 | d12 | d20

fun sides :: "die \<Rightarrow> int" where
  "sides d4 = 4"
| "sides d6 = 6"
| "sides d8 = 8"
| "sides d10 = 10"
| "sides d12 = 12"
| "sides d20 = 20"

text \<open>
  \<open>Die.roll(N_dice)\<close>: one scalar draw when \<open>N_dice == 1\<close> (\<open>roll1\<close>), an array of
  \<open>N_dice\<close> draws otherwise (\<open>roll\<close>; for one die the array has the single scalar).
\<close>

definition roll1 :: "die \<Rightarrow> rng \<Rightarrow> int \<times> rng" where
  "roll1 d g = integers 1 (sides d) g"

definition roll :: "die \<Rightarrow> nat \<Rightarrow> rng \<Rightarrow> int list \<times> rng" where
  "roll d N_dice g = integers_size 1 (sides d) N_dice g"

text \<open>\<open>Die.sum(N_dice)\<close> is \<open>self.roll(N_dice).sum()\<close>.\<close>

definition die_sum :: "die \<Rightarrow> nat \<Rightarrow> rng \<Rightarrow> int \<times> rng" where
  "die_sum d N_dice g = (case roll d N_dice g of (xs, g1) \<Rightarrow> (sum_list xs, g1))"

text \<open>\<open>Die.__call__(N_dice)\<close>: \<open>roll(1)\<close> for one die, \<open>sum(N_dice)\<close> otherwise.\<close>

definition die_call :: "die \<Rightarrow> nat \<Rightarrow> rng \<Rightarrow> int \<times> rng" where
  "die_call d N_dice g = (if N_dice = 1 then roll1 d g else die_sum d N_dice g)"

text \<open>
  \<open>numpy.amax\<close> and \<open>numpy.amin\<close> over a one-dimensional array. numpy rejects the empty
  array; the only arrays passed here come from \<open>d20.roll(2)\<close> and hold two values.
\<close>

fun amax :: "int list \<Rightarrow> int" where
  "amax [] = 0"
| "amax (x # xs) = fold max xs x"

fun amin :: "int list \<Rightarrow> int" where
  "amin [] = 0"
| "amin (x # xs) = fold min xs x"

definition roll_d20 :: "bool \<Rightarrow> bool \<Rightarrow> rng \<Rightarrow> int \<times> rng" where
  "roll_d20 advantage disadvantage g =
     (if advantage \<and> \<not> disadvantage then
        (case roll d20 2 g of (xs, g1) \<Rightarrow> (amax xs, g1))
      else if disadvantage \<and> \<not> advantage then
        (case roll d20 2 g of (xs, g1) \<Rightarrow> (amin xs, g1))
      else die_call d20 1 g)"

section \<open>Combatants (creature.py)\<close>

text \<open>
  The keys of \<open>Creature.ABILITIES\<close>, \<open>Creature.DAMAGE_TYPES\<close> and \<open>Creature.SKILLS\<close>.
  The last six keys of \<open>SKILLS\<close> are the abilities themselves (\<open>"str": "str"\<close> ...),
  here \<open>ability_check\<close>.
\<close>

datatype ability = a_str | a_dex | a_con | a_int | a_wis | a_cha

datatype damage_type = acid | bludgeoning | cold | fire | force | lightning
  | magic_bludgeoning | magic_piercing | magic_slashing | necrotic | piercing | poison
  | psychic | radiant | slashing | thunder

datatype skill = acrobatics | animal_handling | arcana | athletics | deception | history
  | insight | intimidation | investigation | medicine | nature | perception | performance
  | persuasion | religion | sleight_of_hand | stealth | survival | ability_check ability

fun SKILLS :: "skill \<Rightarrow> ability" where
  "SKILLS acrobatics = a_dex"
| "SKILLS animal_handling = a_wis"
| "SKILLS arcana = a_int"
| "SKILLS athletics = a_str"
| "SKILLS deception = a_cha"
| "SKILLS history = a_int"
| "SKILLS insight = a_wis"
| "SKILLS intimidation = a_cha"
| "SKILLS investigation = a_int"
| "SKILLS medicine = a_wis"
| "SKILLS nature = a_int"
| "SKILLS perception = a_wis"
| "SKILLS performance = a_cha"
| "SKILLS persuasion = a_cha"
| "SKILLS religion = a_int"
| "SKILLS sleight_of_hand = a_dex"
| "SKILLS stealth = a_dex"
| "SKILLS survival = a_wis"
| "SKILLS (ability_check a) = a"

text \<open>
  The classes of combatant whose overrides the model follows: \<open>Generic\<close> is a creature
  that inherits \<open>fall_unconscious\<close> and \<open>take_damage\<close> from \<open>Creature\<close>;
  \<open>Behir\<close> (mm\_bestiary.py) extends both and owns \<open>swallowed_creatures\<close> and
  \<open>damage_taken_this_turn\<close>; \<open>GelatinousCube\<close> extends \<open>fall_unconscious\<close> and owns
  \<open>engulfed_creatures\<close>. The other swallower of the bestiary, \<open>Remorhaz\<close>, repeats
  the overrides of \<open>Behir\<close> and adds its Heated Body to \<open>take_damage\<close>; it is not
  modelled.
\<close>

datatype species = Generic | Behir | GelatinousCube

text \<open>
  A combatant: the attributes set by \<open>Creature.__init__\<close> and \<open>reset_conditions\<close> that
  the modelled operations read or write. Objects are referred to by identifier: a
  combatant, a \<open>Duration\<close> and a spell are each a natural number into the store of the
  \<open>world\<close> below. \<open>has_lair_action\<close> says that the class overrides \<open>lair_action\<close>.
  \<open>save_proficiencies\<close> holds the truth value of the entry.
\<close>

record creature =
  species :: species
  has_lair_action :: bool
  abilities :: "ability \<Rightarrow> int"
  proficiency :: int
  initiative_modifier :: int
  save_modifiers :: "ability \<Rightarrow> int"
  save_proficiencies :: "ability \<Rightarrow> bool"
  skill_modifiers :: "skill \<Rightarrow> int"
  skill_proficiencies :: "skill \<Rightarrow> bool"
  resistances :: "damage_type \<Rightarrow> bool"
  vulnerabilities :: "damage_type \<Rightarrow> bool"
  immunities :: "damage_type \<Rightarrow> bool"
  heavy_armor_master :: bool
  evasion :: bool
  war_caster :: bool
  charm_adv :: bool
  gnome_cunning :: bool
  magic_resistance :: bool
  poison_adv :: bool
  base_armor_class :: int
  hp :: int
  total_hp :: int
  action :: bool
  bonus :: bool
  reaction :: bool
  surprised :: bool
  prone :: bool
  death_ward :: bool
  baned :: int
  blessed :: int
  blinded :: int
  frightened :: int
  invisible :: int
  paralyzed :: int
  poisoned :: int
  restrained :: int
  slowed :: int
  stunned :: int
  target_adv :: int
  skill_adv :: "skill \<Rightarrow> int"
  skill_disadv :: "skill \<Rightarrow> int"
  concentration :: "nat option"
  engulfed :: "nat option"
  swallowed :: "nat option"
  turned :: "nat option"
  grappled :: "nat list"
  grappling :: "nat list"
  start_turn_duration :: "nat list"
  end_turn_duration :: "nat list"
  spirit_guardians :: "nat list"
  swallowed_creatures :: "nat list"
  damage_taken_this_turn :: int
  engulfed_creatures :: "nat list"

section \<open>Temporary effects (duration.py) and concentration spells (spells.py)\<close>

text \<open>A damage roller is a \<open>Die\<close> or a \<open>Dice(die, N_dice)\<close>; both are callable.\<close>

datatype dice = Die die | Dice die nat

fun dice_call :: "dice \<Rightarrow> rng \<Rightarrow> int \<times> rng" where
  "dice_call (Die d) g = die_call d 1 g"
| "dice_call (Dice d N_dice) g = die_sum d N_dice g"

text \<open>
  One constructor per class of duration.py, with the attributes its \<open>__init__\<close> stores,
  in this order:
  \<^item> \<open>BleedingDuration target wound_damage damage_type N_wounds duration\<close>
  \<^item> \<open>EngulfedDuration engulfer target save_dc\<close>
  \<^item> \<open>FrightenedDuration frightener target save_dc duration\<close>
  \<^item> \<open>FrightenedOneTurnDuration target\<close>
  \<^item> \<open>GrappleDuration grappler target restrained stunned escape_priority\<close>
  \<^item> \<open>ParalyzedDuration paralyzer target save_dc duration\<close>
  \<^item> \<open>PoisonedDuration poisoner target save_dc duration\<close>
  \<^item> \<open>RecklessDuration creature duration\<close>
  \<^item> \<open>RestrainedDuration target check_dc\<close>
  \<^item> \<open>SlowedDuration slower target save_dc duration\<close>
  \<^item> \<open>StunnedDuration stunner target save_dc duration\<close>
  \<^item> \<open>SwallowedDuration swallower target regurgitation_threshold regurgitation_save_dc\<close>
  \<^item> \<open>TurnUndeadDuration turner target duration\<close>
\<close>

datatype duration =
    BleedingDuration nat dice damage_type int int
  | EngulfedDuration nat nat int
  | FrightenedDuration nat nat int int
  | FrightenedOneTurnDuration nat
  | GrappleDuration nat nat bool bool bool
  | ParalyzedDuration nat nat int int
  | PoisonedDuration nat nat int int
  | RecklessDuration nat int
  | RestrainedDuration nat int
  | SlowedDuration nat nat int int
  | StunnedDuration nat nat int int
  | SwallowedDuration nat nat int int
  | TurnUndeadDuration nat nat int

text \<open>
  The five spells with \<open>concentration = True\<close>, with the caster and the targets their
  \<open>end\<close> method reads: \<open>Bane caster targets\<close>, \<open>Bless caster targets\<close>,
  \<open>GreaterInvisibility caster target\<close>, \<open>ShieldOfFaith caster\<close>,
  \<open>SpiritGuardians caster targets\<close>.
\<close>

datatype spell =
    Bane nat "nat list"
  | Bless nat "nat list"
  | GreaterInvisibility nat nat
  | ShieldOfFaith nat
  | SpiritGuardians nat "nat list"

text \<open>
  The state of the simulation: the stores of combatants, durations and spells, the
  identifier the next constructed \<open>Duration\<close> receives, and the shared generator.
\<close>

record world =
  creatures :: "nat \<Rightarrow> creature"
  durations :: "nat \<Rightarrow> duration"
  spells :: "nat \<Rightarrow> spell"
  next_duration :: nat
  gen :: rng

text \<open>
  Exceptions: \<open>AttributeError\<close> carries the attribute that is missing, \<open>ValueError\<close> is
  what \<open>list.remove\<close> raises for an absent element. A raising call is \<open>Inl\<close>.
\<close>

datatype error = AttributeError string | ValueError

definition then_do :: "error + 'a \<Rightarrow> ('a \<Rightarrow> error + 'b) \<Rightarrow> error + 'b" where
  "then_do m f = (case m of Inl e \<Rightarrow> Inl e | Inr x \<Rightarrow> f x)"

definition modify :: "nat \<Rightarrow> (creature \<Rightarrow> creature) \<Rightarrow> world \<Rightarrow> world" where
  "modify c f w = w\<lparr>creatures := (creatures w)(c := f (creatures w c))\<rparr>"

text \<open>\<open>xs.remove(x)\<close>: drops the first occurrence, raises when there is none.\<close>

definition list_remove :: "nat \<Rightarrow> nat list \<Rightarrow> error + nat list" where
  "list_remove x xs = (if x \<in> set xs then Inr (remove1 x xs) else Inl ValueError)"

text \<open>\<open>creature.field.remove(x)\<close> for a list attribute every combatant has.\<close>

definition remove_from ::
  "(creature \<Rightarrow> nat list) \<Rightarrow> ((nat list \<Rightarrow> nat list) \<Rightarrow> creature \<Rightarrow> creature) \<Rightarrow>
   nat \<Rightarrow> nat \<Rightarrow> world \<Rightarrow> error + world" where
  "remove_from field field_update c x w =
     (case list_remove x (field (creatures w c)) of
        Inl e \<Rightarrow> Inl e
      | Inr xs \<Rightarrow> Inr (modify c (field_update (\<lambda>_. xs)) w))"

text \<open>
  A list attribute looked up by name, for the attributes that only some classes define
  and for the names the source spells in one place only. \<open>reset_conditions\<close> of
  \<open>Creature\<close> defines the first five for everyone; \<open>swallowed_creatures\<close> exists on a
  Behir and \<open>engulfed_creatures\<close> on a Gelatinous Cube; no modelled class defines any
  other list.
\<close>

definition list_attribute :: "string \<Rightarrow> creature \<Rightarrow> error + nat list" where
  "list_attribute name c =
     (if name = ''end_turn_duration'' then Inr (end_turn_duration c)
      else if name = ''grappled'' then Inr (grappled c)
      else if name = ''grappling'' then Inr (grappling c)
      else if name = ''spirit_guardians'' then Inr (spirit_guardians c)
      else if name = ''start_turn_duration'' then Inr (start_turn_duration c)
      else if name = ''swallowed_creatures'' \<and> species c = Behir then
        Inr (swallowed_creatures c)
      else if name = ''engulfed_creatures'' \<and> species c = GelatinousCube then
        Inr (engulfed_creatures c)
      else Inl (AttributeError name))"

definition set_list_attribute :: "string \<Rightarrow> nat list \<Rightarrow> creature \<Rightarrow> creature" where
  "set_list_attribute name xs c =
     (if name = ''end_turn_duration'' then c\<lparr>end_turn_duration := xs\<rparr>
      else if name = ''grappled'' then c\<lparr>grappled := xs\<rparr>
      else if name = ''grappling'' then c\<lparr>grappling := xs\<rparr>
      else if name = ''spirit_guardians'' then c\<lparr>spirit_guardians := xs\<rparr>
      else if name = ''start_turn_duration'' then c\<lparr>start_turn_duration := xs\<rparr>
      else if name = ''swallowed_creatures'' then c\<lparr>swallowed_creatures := xs\<rparr>
      else if name = ''engulfed_creatures'' then c\<lparr>engulfed_creatures := xs\<rparr>
      else c)"

text \<open>\<open>creature.name.append(x)\<close> and \<open>creature.name.remove(x)\<close> by attribute name.\<close>

definition append_to :: "string \<Rightarrow> nat \<Rightarrow> nat \<Rightarrow> world \<Rightarrow> error + world" where
  "append_to name c x w =
     (case list_attribute name (creatures w c) of
        Inl e \<Rightarrow> Inl e
      | Inr xs \<Rightarrow> Inr (modify c (set_list_attribute name (xs @ [x])) w))"

definition remove_named :: "string \<Rightarrow> nat \<Rightarrow> nat \<Rightarrow> world \<Rightarrow> error + world" where
  "remove_named name c x w =
     (case list_attribute name (creatures w c) of
        Inl e \<Rightarrow> Inl e
      | Inr xs \<Rightarrow>
          (case list_remove x xs of
             Inl e \<Rightarrow> Inl e
           | Inr ys \<Rightarrow> Inr (modify c (set_list_attribute name ys) w)))"

subsection \<open>Ending an effect: the \<open>end\<close> method of each class\<close>

definition dur_end :: "nat \<Rightarrow> world \<Rightarrow> error + world" where
  "dur_end d w =
     (case durations w d of
        BleedingDuration target wound_damage dtype N_wounds dur \<Rightarrow>
          remove_from start_turn_duration start_turn_duration_update target d w
      | EngulfedDuration engulfer target save_dc \<Rightarrow>
          then_do (remove_from start_turn_duration start_turn_duration_update target d
                     (modify target (\<lambda>c. c\<lparr>restrained := restrained c - 1, engulfed := None\<rparr>) w))
            (\<lambda>w1. remove_named ''engulfed_creatures'' engulfer target w1)
      | FrightenedDuration frightener target save_dc dur \<Rightarrow>
          then_do (remove_from end_turn_duration end_turn_duration_update target d
                     (modify target (\<lambda>c. c\<lparr>frightened := frightened c - 1\<rparr>) w))
            (\<lambda>w1. remove_from start_turn_duration start_turn_duration_update frightener d w1)
      | FrightenedOneTurnDuration target \<Rightarrow>
          remove_from end_turn_duration end_turn_duration_update target d
            (modify target (\<lambda>c. c\<lparr>frightened := frightened c - 1\<rparr>) w)
      | GrappleDuration grappler target restr stun escape_priority \<Rightarrow>
          then_do (remove_from grappling grappling_update grappler d w)
            (\<lambda>w1. then_do (remove_from grappled grappled_update target d w1)
            (\<lambda>w2. then_do (if escape_priority
                              then remove_from start_turn_duration start_turn_duration_update target d w2
                              else Inr w2)
            (\<lambda>w3. Inr (modify target
                          (\<lambda>c. if stun then c\<lparr>stunned := stunned c - 1\<rparr> else c)
                          (modify target
                             (\<lambda>c. if restr then c\<lparr>restrained := restrained c - 1\<rparr> else c)
                             w3)))))
      | ParalyzedDuration paralyzer target save_dc dur \<Rightarrow>
          then_do (remove_from end_turn_duration end_turn_duration_update target d
                     (modify target (\<lambda>c. c\<lparr>paralyzed := paralyzed c - 1\<rparr>) w))
            (\<lambda>w1. remove_from start_turn_duration start_turn_duration_update paralyzer d w1)
      | PoisonedDuration poisoner target save_dc dur \<Rightarrow>
          then_do (remove_from end_turn_duration end_turn_duration_update target d
                     (modify target (\<lambda>c. c\<lparr>poisoned := poisoned c - 1\<rparr>) w))
            (\<lambda>w1. remove_from start_turn_duration start_turn_duration_update poisoner d w1)
      | RecklessDuration cr dur \<Rightarrow>
          remove_from start_turn_duration start_turn_duration_update cr d
            (modify cr (\<lambda>c. c\<lparr>target_adv := target_adv c - 1\<rparr>) w)
      | RestrainedDuration target check_dc \<Rightarrow>
          remove_from start_turn_duration start_turn_duration_update target d
            (modify target (\<lambda>c. c\<lparr>restrained := restrained c - 1\<rparr>) w)
      | SlowedDuration slower target save_dc dur \<Rightarrow>
          then_do (remove_from end_turn_duration end_turn_duration_update target d
                     (modify target (\<lambda>c. c\<lparr>slowed := slowed c - 1\<rparr>) w))
            (\<lambda>w1. remove_from start_turn_duration start_turn_duration_update slower d w1)
      | StunnedDuration stunner target save_dc dur \<Rightarrow>
          then_do (remove_from end_turn_duration end_turn_duration_update target d
                     (modify target (\<lambda>c. c\<lparr>stunned := stunned c - 1\<rparr>) w))
            (\<lambda>w1. remove_from start_turn_duration start_turn_duration_update stunner d w1)
      | SwallowedDuration swallower target threshold save_dc \<Rightarrow>
          then_do (remove_named ''swallowed_creatures'' swallower target w)
            (\<lambda>w1. then_do (remove_from start_turn_duration start_turn_duration_update target d
                              (modify target (\<lambda>c. c\<lparr>swallowed := None\<rparr>) w1))
            (\<lambda>w2. then_do (remove_from end_turn_duration end_turn_duration_update target d w2)
            (\<lambda>w3. Inr (modify target
                          (\<lambda>c. c\<lparr>blinded := blinded c - 1, restrained := restrained c - 1,
                                  prone := True\<rparr>) w3))))
      | TurnUndeadDuration turner target dur \<Rightarrow>
          remove_from start_turn_duration start_turn_duration_update turner d
            (modify target (\<lambda>c. c\<lparr>turned := None\<rparr>) w))"

text \<open>\<open>for d in ds: d.end()\<close> over a snapshot \<open>ds\<close> of a list.\<close>

fun end_each :: "nat list \<Rightarrow> world \<Rightarrow> error + world" where
  "end_each [] w = Inr w"
| "end_each (d # ds) w = then_do (dur_end d w) (end_each ds)"

text \<open>\<open>for t in targets: ...\<close> with an update of each target, as the spells' \<open>end\<close> do.\<close>

fun for_targets :: "(creature \<Rightarrow> creature) \<Rightarrow> nat list \<Rightarrow> world \<Rightarrow> world" where
  "for_targets f [] w = w"
| "for_targets f (t # ts) w = for_targets f ts (modify t f w)"

fun remove_guardians :: "nat \<Rightarrow> nat list \<Rightarrow> world \<Rightarrow> error + world" where
  "remove_guardians sp [] w = Inr w"
| "remove_guardians sp (t # ts) w =
     then_do (remove_from spirit_guardians spirit_guardians_update t sp w) (remove_guardians sp ts)"

text \<open>The \<open>end\<close> method of the concentration spell \<open>sp\<close>.\<close>

definition spell_end :: "nat \<Rightarrow> world \<Rightarrow> error + world" where
  "spell_end sp w =
     (case spells w sp of
        Bane caster targets \<Rightarrow>
          Inr (for_targets (\<lambda>c. c\<lparr>baned := baned c - 1\<rparr>) targets
                 (modify caster (\<lambda>c. c\<lparr>concentration := None\<rparr>) w))
      | Bless caster targets \<Rightarrow>
          Inr (for_targets (\<lambda>c. c\<lparr>blessed := blessed c - 1\<rparr>) targets
                 (modify caster (\<lambda>c. c\<lparr>concentration := None\<rparr>) w))
      | GreaterInvisibility caster target \<Rightarrow>
          Inr (modify target (\<lambda>c. c\<lparr>invisible := invisible c - 1\<rparr>)
                 (modify caster (\<lambda>c. c\<lparr>concentration := None\<rparr>) w))
      | ShieldOfFaith caster \<Rightarrow>
          Inr (modify caster (\<lambda>c. c\<lparr>base_armor_class := base_armor_class c - 2\<rparr>)
                 (modify caster (\<lambda>c. c\<lparr>concentration := None\<rparr>) w))
      | SpiritGuardians caster targets \<Rightarrow>
          remove_guardians sp targets (modify caster (\<lambda>c. c\<lparr>concentration := None\<rparr>) w))"

subsection \<open>Saving throws\<close>

definition is_incapacitated :: "creature \<Rightarrow> bool" where
  "is_incapacitated c = (paralyzed c > 0 \<or> stunned c > 0)"

text \<open>
  \<open>Creature.roll_save\<close>: the d20, the ability and save modifiers, proficiency, then a d4
  subtracted under Bane and a d4 added under Bless, each drawn only when it applies.
\<close>

definition roll_save :: "nat \<Rightarrow> ability \<Rightarrow> bool \<Rightarrow> bool \<Rightarrow> world \<Rightarrow> int \<times> world" where
  "roll_save c ab adv disadv w =
     (let me = creatures w c in
      case roll_d20 adv disadv (gen w) of (r, g1) \<Rightarrow>
        (let result = r + abilities me ab + save_modifiers me ab;
             result1 = (if save_proficiencies me ab then result + proficiency me else result)
         in case (if baned me \<noteq> 0 then (case die_call d4 1 g1 of (x, g2) \<Rightarrow> (result1 - x, g2))
                  else (result1, g1)) of (result2, g3) \<Rightarrow>
            (case (if blessed me \<noteq> 0 then (case die_call d4 1 g3 of (y, g4) \<Rightarrow> (result2 + y, g4))
                   else (result2, g3)) of (result3, g5) \<Rightarrow>
               (result3, w\<lparr>gen := g5\<rparr>))))"

definition saving_throw ::
  "nat \<Rightarrow> ability \<Rightarrow> int \<Rightarrow> bool \<Rightarrow> bool \<Rightarrow> string option \<Rightarrow> world \<Rightarrow> bool \<times> world" where
  "saving_throw c ab difficulty_class adv disadv save_type w =
     (let me = creatures w c in
      if is_incapacitated me \<and> (ab = a_str \<or> ab = a_dex) then (False, w)
      else
        (let disadv1 = (if restrained me > 0 \<and> ab = a_dex then True else disadv);
             adv1 = (if (charm_adv me \<and> save_type = Some ''charm'')
                        \<or> (gnome_cunning me \<and> save_type = Some ''magic''
                            \<and> ab \<in> set [a_int, a_wis, a_cha])
                        \<or> (magic_resistance me \<and> save_type = Some ''magic'')
                        \<or> (poison_adv me \<and> save_type = Some ''poison'')
                     then True else adv)
         in case roll_save c ab adv1 disadv1 w of (result, w1) \<Rightarrow>
              (result \<ge> difficulty_class, w1)))"

subsection \<open>Unconsciousness, damage and healing\<close>

text \<open>
  \<open>int(x / 2)\<close>: true division, then truncation towards zero (exact below \<open>2^53\<close>, which
  no damage total approaches). Integers are Python's unbounded ones.
\<close>

definition int_half :: "int \<Rightarrow> int" where
  "int_half x = (if 0 \<le> x then x div 2 else - ((- x) div 2))"

text \<open>\<open>Creature.fall_unconscious\<close>, the method of the base class.\<close>

definition fall_unconscious :: "nat \<Rightarrow> world \<Rightarrow> error + world" where
  "fall_unconscious c w =
     (if death_ward (creatures w c) \<and> total_hp (creatures w c) > 0 then
        Inr (modify c (\<lambda>x. x\<lparr>death_ward := False, hp := 1\<rparr>) w)
      else
        (let w1 = modify c (\<lambda>x. x\<lparr>prone := True\<rparr>) w in
         then_do (end_each (grappling (creatures w1 c)) w1)
           (\<lambda>w2. case concentration (creatures w2 c) of
                    None \<Rightarrow> Inr w2
                  | Some sp \<Rightarrow> spell_end sp w2)))"

text \<open>
  \<open>for creature in self.swallowed_creatures[:]: creature.swallowed.end()\<close>, and the same
  loop over \<open>engulfed_creatures\<close>; \<open>None\<close> has no \<open>end\<close>.
\<close>

fun release_swallowed :: "nat list \<Rightarrow> world \<Rightarrow> error + world" where
  "release_swallowed [] w = Inr w"
| "release_swallowed (t # ts) w =
     (case swallowed (creatures w t) of
        None \<Rightarrow> Inl (AttributeError ''end'')
      | Some d \<Rightarrow> then_do (dur_end d w) (release_swallowed ts))"

fun release_engulfed :: "nat list \<Rightarrow> world \<Rightarrow> error + world" where
  "release_engulfed [] w = Inr w"
| "release_engulfed (t # ts) w =
     (case engulfed (creatures w t) of
        None \<Rightarrow> Inl (AttributeError ''end'')
      | Some d \<Rightarrow> then_do (dur_end d w) (release_engulfed ts))"

text \<open>
  \<open>self.fall_unconscious()\<close> with the overrides of \<open>Behir\<close> and \<open>GelatinousCube\<close>,
  which call the base method and then release what they hold.
\<close>

definition fall_unconscious_of :: "nat \<Rightarrow> world \<Rightarrow> error + world" where
  "fall_unconscious_of c w =
     (case species (creatures w c) of
        Generic \<Rightarrow> fall_unconscious c w
      | Behir \<Rightarrow>
          then_do (fall_unconscious c w)
            (\<lambda>w1. release_swallowed (swallowed_creatures (creatures w1 c)) w1)
      | GelatinousCube \<Rightarrow>
          then_do (fall_unconscious c w)
            (\<lambda>w1. release_engulfed (engulfed_creatures (creatures w1 c)) w1))"

definition physical_types :: "damage_type list" where
  "physical_types =
     [bludgeoning, piercing, slashing, magic_bludgeoning, magic_piercing, magic_slashing]"

definition take_damage_type :: "nat \<Rightarrow> int \<Rightarrow> damage_type \<Rightarrow> world \<Rightarrow> int \<times> world" where
  "take_damage_type c damage dtype w =
     (let me = creatures w c;
          damage1 = (if heavy_armor_master me \<and> dtype \<in> set physical_types
                     then damage - 3 else damage);
          damage2 = (if resistances me dtype then int_half damage1 else damage1);
          damage3 = (if vulnerabilities me dtype then damage2 * 2 else damage2)
      in if damage3 \<le> 0 \<or> immunities me dtype then (0, w)
         else
           (let w1 = modify c (\<lambda>x. x\<lparr>hp := hp x - damage3\<rparr>) w;
                w2 = (if hp (creatures w1 c) < 0 then modify c (\<lambda>x. x\<lparr>hp := 0\<rparr>) w1
                      else w1)
            in (damage3, w2)))"

text \<open>
  \<open>Creature.take_damage\<close>, the method of the base class. \<open>dealer\<close> and \<open>ranged\<close> are
  not read by it. The concentration check is rolled only when a spell is held and the
  damage taken is positive (\<open>and\<close> evaluates left to right and stops early).
\<close>

definition take_damage ::
  "nat \<Rightarrow> int \<Rightarrow> damage_type \<Rightarrow> nat option \<Rightarrow> bool \<Rightarrow> int \<Rightarrow> damage_type option \<Rightarrow> world \<Rightarrow>
   error + ((int \<times> int) \<times> world)" where
  "take_damage c primary_damage primary_type dealer ranged secondary_damage secondary_type w =
     (case take_damage_type c primary_damage primary_type w of (primary_damage_taken, w1) \<Rightarrow>
      case (case secondary_type of
              Some st \<Rightarrow> take_damage_type c secondary_damage st w1
            | None \<Rightarrow> (0, w1)) of (secondary_damage_taken, w2) \<Rightarrow>
        (let damage_taken = primary_damage_taken + secondary_damage_taken in
         then_do (if hp (creatures w2 c) = 0 then fall_unconscious_of c w2 else Inr w2)
           (\<lambda>w3. then_do
                    (case concentration (creatures w3 c) of
                       None \<Rightarrow> Inr w3
                     | Some sp \<Rightarrow>
                         if damage_taken > 0 then
                           (case saving_throw c a_con (max 10 (int_half damage_taken))
                                   (war_caster (creatures w3 c)) False None w3 of
                              (ok, w4) \<Rightarrow> if \<not> ok then spell_end sp w4 else Inr w4)
                         else Inr w3)
           (\<lambda>w5. then_do
                    (case turned (creatures w5 c) of
                       None \<Rightarrow> Inr w5
                     | Some t \<Rightarrow> dur_end t w5)
           (\<lambda>w6. Inr ((primary_damage_taken, secondary_damage_taken), w6))))))"

text \<open>\<open>Behir.take_damage\<close>: the base method, then the tally of damage from a swallowed dealer.\<close>

definition behir_take_damage ::
  "nat \<Rightarrow> int \<Rightarrow> damage_type \<Rightarrow> nat option \<Rightarrow> bool \<Rightarrow> int \<Rightarrow> damage_type option \<Rightarrow> world \<Rightarrow>
   error + ((int \<times> int) \<times> world)" where
  "behir_take_damage c primary_damage primary_type dealer ranged secondary_damage secondary_type w =
     then_do (take_damage c primary_damage primary_type dealer ranged
                secondary_damage secondary_type w)
       (\<lambda>((primary_damage_taken, secondary_damage_taken), w1).
          Inr ((primary_damage_taken, secondary_damage_taken),
               (case dealer of
                  None \<Rightarrow> w1
                | Some dl \<Rightarrow>
                    if dl \<in> set (swallowed_creatures (creatures w1 c)) then
                      modify c (\<lambda>x. x\<lparr>damage_taken_this_turn :=
                                   damage_taken_this_turn x
                                   + (primary_damage_taken + secondary_damage_taken)\<rparr>) w1
                    else w1)))"

text \<open>\<open>self.take_damage(...)\<close> dispatched on the class of the combatant.\<close>

definition take_damage_of ::
  "nat \<Rightarrow> int \<Rightarrow> damage_type \<Rightarrow> nat option \<Rightarrow> bool \<Rightarrow> int \<Rightarrow> damage_type option \<Rightarrow> world \<Rightarrow>
   error + ((int \<times> int) \<times> world)" where
  "take_damage_of c primary_damage primary_type dealer ranged secondary_damage secondary_type w =
     (case species (creatures w c) of
        Behir \<Rightarrow> behir_take_damage c primary_damage primary_type dealer ranged
                   secondary_damage secondary_type w
      | _ \<Rightarrow> take_damage c primary_damage primary_type dealer ranged
                   secondary_damage secondary_type w)"

definition is_bleeding :: "duration \<Rightarrow> bool" where
  "is_bleeding d = (case d of BleedingDuration t wd dt n dur \<Rightarrow> True | _ \<Rightarrow> False)"

definition heal :: "nat \<Rightarrow> int \<Rightarrow> bool \<Rightarrow> world \<Rightarrow> error + world" where
  "heal c healing magic w =
     (let w1 = modify c (\<lambda>x. x\<lparr>hp := hp x + healing\<rparr>) w;
          w2 = (if hp (creatures w1 c) > total_hp (creatures w1 c)
                then modify c (\<lambda>x. x\<lparr>hp := total_hp x\<rparr>) w1 else w1)
      in if magic then
           end_each (filter (\<lambda>d. is_bleeding (durations w2 d))
                       (start_turn_duration (creatures w2 c))) w2
         else Inr w2)"

definition half_saving_throw ::
  "nat \<Rightarrow> ability \<Rightarrow> int \<Rightarrow> int \<Rightarrow> damage_type \<Rightarrow> int \<Rightarrow> damage_type option \<Rightarrow> bool \<Rightarrow> bool \<Rightarrow>
   string option \<Rightarrow> world \<Rightarrow> error + (bool \<times> world)" where
  "half_saving_throw c ab difficulty_class damage dtype secondary_damage secondary_type
     adv disadv save_type w =
     (case saving_throw c ab difficulty_class adv disadv save_type w of (result, w1) \<Rightarrow>
        if \<not> result \<and> \<not> (ab = a_dex \<and> evasion (creatures w1 c)) then
          then_do (take_damage_of c damage dtype None False secondary_damage secondary_type w1)
            (\<lambda>(taken, w2). Inr (result, w2))
        else if \<not> (result \<and> ab = a_dex \<and> evasion (creatures w1 c)) then
          then_do (take_damage_of c (int_half damage) dtype None False
                     (int_half secondary_damage) secondary_type w1)
            (\<lambda>(taken, w2). Inr (result, w2))
        else Inr (result, w1))"

subsection \<open>Skill checks\<close>

definition roll_skill :: "nat \<Rightarrow> skill \<Rightarrow> bool \<Rightarrow> bool \<Rightarrow> world \<Rightarrow> int \<times> world" where
  "roll_skill c sk adv disadv w =
     (let me = creatures w c;
          adv1 = (if skill_adv me sk > 0 then True else adv);
          disadv1 = (if skill_disadv me sk > 0 \<or> frightened me > 0 \<or> poisoned me > 0
                     then True else disadv)
      in case roll_d20 adv1 disadv1 (gen w) of (r, g1) \<Rightarrow>
           (let result = r + abilities me (SKILLS sk) + skill_modifiers me sk
            in (if skill_proficiencies me sk then result + proficiency me else result,
                w\<lparr>gen := g1\<rparr>)))"

definition skill_check :: "nat \<Rightarrow> skill \<Rightarrow> int \<Rightarrow> bool \<Rightarrow> bool \<Rightarrow> world \<Rightarrow> bool \<times> world" where
  "skill_check c sk difficulty_class adv disadv w =
     (case roll_skill c sk adv disadv w of (result, w1) \<Rightarrow> (result \<ge> difficulty_class, w1))"

definition escape_grapple :: "nat \<Rightarrow> bool \<Rightarrow> world \<Rightarrow> int \<times> world" where
  "escape_grapple c adv w =
     (let me = creatures w c;
          athletics_modifier = abilities me a_str + skill_modifiers me athletics;
          athletics_modifier1 = (if skill_proficiencies me athletics
                                 then athletics_modifier + proficiency me
                                 else athletics_modifier);
          athletics_modifier2 = (if skill_adv me athletics > 0 then athletics_modifier1 + 5
                                 else athletics_modifier1);
          acrobatics_modifier = abilities me a_dex + skill_modifiers me acrobatics;
          acrobatics_modifier1 = (if skill_proficiencies me acrobatics
                                  then acrobatics_modifier + proficiency me
                                  else acrobatics_modifier);
          acrobatics_modifier2 = (if skill_adv me acrobatics > 0 then acrobatics_modifier1 + 5
                                  else acrobatics_modifier1)
      in if athletics_modifier2 \<ge> acrobatics_modifier2
         then roll_skill c athletics adv False w
         else roll_skill c acrobatics adv False w)"

subsection \<open>The clock and the turn triggers of an effect\<close>

text \<open>The \<open>duration\<close> attribute of an effect, for the classes whose constructor sets one.\<close>

fun get_duration :: "duration \<Rightarrow> int option" where
  "get_duration (BleedingDuration t wd dt n dur) = Some dur"
| "get_duration (EngulfedDuration e t dc) = None"
| "get_duration (FrightenedDuration f t dc dur) = Some dur"
| "get_duration (FrightenedOneTurnDuration t) = None"
| "get_duration (GrappleDuration g t r s e) = None"
| "get_duration (ParalyzedDuration p t dc dur) = Some dur"
| "get_duration (PoisonedDuration p t dc dur) = Some dur"
| "get_duration (RecklessDuration c dur) = Some dur"
| "get_duration (RestrainedDuration t dc) = None"
| "get_duration (SlowedDuration sl t dc dur) = Some dur"
| "get_duration (StunnedDuration st t dc dur) = Some dur"
| "get_duration (SwallowedDuration sw t th dc) = None"
| "get_duration (TurnUndeadDuration tu t dur) = Some dur"

fun set_duration :: "int \<Rightarrow> duration \<Rightarrow> duration" where
  "set_duration v (BleedingDuration t wd dt n dur) = BleedingDuration t wd dt n v"
| "set_duration v (FrightenedDuration f t dc dur) = FrightenedDuration f t dc v"
| "set_duration v (ParalyzedDuration p t dc dur) = ParalyzedDuration p t dc v"
| "set_duration v (PoisonedDuration p t dc dur) = PoisonedDuration p t dc v"
| "set_duration v (RecklessDuration c dur) = RecklessDuration c v"
| "set_duration v (SlowedDuration sl t dc dur) = SlowedDuration sl t dc v"
| "set_duration v (StunnedDuration st t dc dur) = StunnedDuration st t dc v"
| "set_duration v (TurnUndeadDuration tu t dur) = TurnUndeadDuration tu t v"
| "set_duration v x = x"

definition is_grapple :: "duration \<Rightarrow> bool" where
  "is_grapple x = (case x of GrappleDuration g t r s e \<Rightarrow> True | _ \<Rightarrow> False)"

text \<open>
  \<open>tick\<close>: \<open>Duration.tick\<close> decrements \<open>self.duration\<close> and ends the effect at zero;
  \<open>GrappleDuration\<close> overrides it with \<open>pass\<close>. A class that sets no \<open>duration\<close> and
  inherits \<open>tick\<close> has nothing to decrement.
\<close>

definition tick :: "nat \<Rightarrow> world \<Rightarrow> error + world" where
  "tick d w =
     (if is_grapple (durations w d) then Inr w
      else
        (case get_duration (durations w d) of
           None \<Rightarrow> Inl (AttributeError ''duration'')
         | Some n \<Rightarrow>
             (let w1 = w\<lparr>durations := (durations w)(d := set_duration (n - 1) (durations w d))\<rparr>
              in if n - 1 = 0 then dur_end d w1 else Inr w1)))"

text \<open>\<open>damage = 0; for i in range(N_wounds): damage += wound_damage()\<close>.\<close>

fun wound_rolls :: "dice \<Rightarrow> nat \<Rightarrow> int \<Rightarrow> rng \<Rightarrow> int \<times> rng" where
  "wound_rolls wd 0 damage g = (damage, g)"
| "wound_rolls wd (Suc n) damage g =
     (case dice_call wd g of (x, g1) \<Rightarrow> wound_rolls wd n (damage + x) g1)"

text \<open>
  The loop of \<open>GrappleDuration.start_turn_effect\<close> over a snapshot of
  \<open>target.grappled\<close>: each grapple whose escape DC the check meets is ended.
\<close>

fun escape_each :: "int \<Rightarrow> nat list \<Rightarrow> world \<Rightarrow> error + world" where
  "escape_each escape_grapple_check [] w = Inr w"
| "escape_each escape_grapple_check (g # gs) w =
     (case durations w g of
        GrappleDuration grappler target restr stun escape_priority \<Rightarrow>
          (let escape_dc = 8 + proficiency (creatures w grappler)
                             + abilities (creatures w grappler) a_str
           in then_do (if escape_grapple_check \<ge> escape_dc then dur_end g w else Inr w)
                (escape_each escape_grapple_check gs))
      | _ \<Rightarrow> Inl (AttributeError ''grappler''))"

definition start_turn_effect :: "nat \<Rightarrow> world \<Rightarrow> error + world" where
  "start_turn_effect d w =
     (case durations w d of
        BleedingDuration target wound_damage dtype N_wounds dur \<Rightarrow>
          (case wound_rolls wound_damage (nat N_wounds) 0 (gen w) of (damage, g1) \<Rightarrow>
             then_do (take_damage_of target damage dtype None False 0 None (w\<lparr>gen := g1\<rparr>))
               (\<lambda>(taken, w1). tick d w1))
      | EngulfedDuration engulfer target save_dc \<Rightarrow> Inr w
      | FrightenedDuration frightener target save_dc dur \<Rightarrow> tick d w
      | FrightenedOneTurnDuration target \<Rightarrow> Inr w
      | GrappleDuration grappler target restr stun escape_priority \<Rightarrow>
          if action (creatures w target) then
            (case escape_grapple target False (modify target (\<lambda>c. c\<lparr>action := False\<rparr>) w) of
               (escape_grapple_check, w1) \<Rightarrow>
                 escape_each escape_grapple_check (grappled (creatures w1 target)) w1)
          else Inr w
      | ParalyzedDuration paralyzer target save_dc dur \<Rightarrow> tick d w
      | PoisonedDuration poisoner target save_dc dur \<Rightarrow> tick d w
      | RecklessDuration cr dur \<Rightarrow> tick d w
      | RestrainedDuration target check_dc \<Rightarrow>
          if action (creatures w target) then
            (case skill_check target (ability_check a_str) check_dc False False
                    (modify target (\<lambda>c. c\<lparr>action := False\<rparr>) w) of
               (ok, w1) \<Rightarrow> if ok then dur_end d w1 else Inr w1)
          else Inr w
      | SlowedDuration slower target save_dc dur \<Rightarrow> tick d w
      | StunnedDuration stunner target save_dc dur \<Rightarrow> tick d w
      | SwallowedDuration swallower target threshold save_dc \<Rightarrow>
          Inr (modify swallower (\<lambda>c. c\<lparr>damage_taken_this_turn := 0\<rparr>) w)
      | TurnUndeadDuration turner target dur \<Rightarrow> tick d w)"

text \<open>A saving throw at the end of the target's turn that ends the effect on success.\<close>

definition save_to_end ::
  "nat \<Rightarrow> nat \<Rightarrow> ability \<Rightarrow> int \<Rightarrow> bool \<Rightarrow> world \<Rightarrow> error + world" where
  "save_to_end d target ab save_dc disadv w =
     (case saving_throw target ab save_dc False disadv None w of
        (ok, w1) \<Rightarrow> if ok then dur_end d w1 else Inr w1)"

definition end_turn_effect :: "nat \<Rightarrow> world \<Rightarrow> error + world" where
  "end_turn_effect d w =
     (case durations w d of
        BleedingDuration target wound_damage dtype N_wounds dur \<Rightarrow> Inr w
      | EngulfedDuration engulfer target save_dc \<Rightarrow> Inr w
      | FrightenedDuration frightener target save_dc dur \<Rightarrow>
          save_to_end d target a_wis save_dc True w
      | FrightenedOneTurnDuration target \<Rightarrow> dur_end d w
      | GrappleDuration grappler target restr stun escape_priority \<Rightarrow> Inr w
      | ParalyzedDuration paralyzer target save_dc dur \<Rightarrow>
          save_to_end d target a_con save_dc False w
      | PoisonedDuration poisoner target save_dc dur \<Rightarrow>
          save_to_end d target a_con save_dc False w
      | RecklessDuration cr dur \<Rightarrow> Inr w
      | RestrainedDuration target check_dc \<Rightarrow> Inr w
      | SlowedDuration slower target save_dc dur \<Rightarrow>
          save_to_end d target a_wis save_dc False w
      | StunnedDuration stunner target save_dc dur \<Rightarrow>
          save_to_end d target a_int save_dc False w
      | SwallowedDuration swallower target threshold save_dc \<Rightarrow>
          if damage_taken_this_turn (creatures w swallower) \<ge> threshold then
            (case saving_throw swallower a_con save_dc False False None w of
               (ok, w1) \<Rightarrow>
                 if \<not> ok then
                   then_do (list_attribute ''swallowed_creatures'' (creatures w1 swallower))
                     (\<lambda>ts. release_swallowed ts w1)
                 else Inr w1)
          else Inr w
      | TurnUndeadDuration turner target dur \<Rightarrow> Inr w)"

text \<open>
  The first part of \<open>Creature.start_turn\<close>: the action economy is restored and every
  effect of a snapshot of \<open>start_turn_duration\<close> fires in list order. What follows in
  the source (Spirit Guardians, the concentration clock, the priority action and the
  class's own \<open>take_turn\<close>) belongs to the behaviours and is not part of the model;
  \<open>Creature.end_turn\<close> closes the turn.
\<close>

fun start_turn_effects :: "nat list \<Rightarrow> world \<Rightarrow> error + world" where
  "start_turn_effects [] w = Inr w"
| "start_turn_effects (d # ds) w = then_do (start_turn_effect d w) (start_turn_effects ds)"

definition start_turn_triggers :: "nat \<Rightarrow> world \<Rightarrow> error + world" where
  "start_turn_triggers c w =
     (let w1 = modify c (\<lambda>x. x\<lparr>surprised := False, bonus := True\<rparr>) w;
          w2 = (if turned (creatures w1 c) = None then
                  (let w3 = modify c (\<lambda>x. x\<lparr>action := True\<rparr>) w1
                   in if slowed (creatures w3 c) = 0
                      then modify c (\<lambda>x. x\<lparr>reaction := True\<rparr>) w3 else w3)
                else w1)
      in start_turn_effects (start_turn_duration (creatures w2 c)) w2)"

fun end_turn_effects :: "nat list \<Rightarrow> world \<Rightarrow> error + world" where
  "end_turn_effects [] w = Inr w"
| "end_turn_effects (d # ds) w = then_do (end_turn_effect d w) (end_turn_effects ds)"

definition end_turn :: "nat \<Rightarrow> world \<Rightarrow> error + world" where
  "end_turn c w = end_turn_effects (end_turn_duration (creatures w c)) w"

subsection \<open>Constructing an effect: the \<open>__init__\<close> method of each class\<close>

text \<open>
  A constructed object takes the identifier \<open>next_duration\<close>. The constructors follow
  the statements of the source in order, with the attribute names the source writes.
\<close>

definition new_duration :: "duration \<Rightarrow> world \<Rightarrow> world" where
  "new_duration x w =
     w\<lparr>durations := (durations w)(next_duration w := x),
       next_duration := Suc (next_duration w)\<rparr>"

text \<open>
  \<open>BleedingDuration.__init__\<close>: when the target already bleeds, the first bleeding
  effect of its start-of-turn list gains a wound and the larger duration, and the
  constructor returns before the new object is registered anywhere.
\<close>

definition create_bleeding ::
  "nat \<Rightarrow> dice \<Rightarrow> damage_type \<Rightarrow> int \<Rightarrow> world \<Rightarrow> error + world" where
  "create_bleeding target wound_damage dtype max_duration w =
     (case find (\<lambda>e. is_bleeding (durations w e)) (start_turn_duration (creatures w target)) of
        Some e \<Rightarrow>
          (case durations w e of
             BleedingDuration t wd dt N_wounds dur \<Rightarrow>
               Inr (w\<lparr>durations := (durations w)
                        (e := BleedingDuration t wd dt (N_wounds + 1) (max dur max_duration)),
                      next_duration := Suc (next_duration w)\<rparr>)
           | _ \<Rightarrow> Inr w)
      | None \<Rightarrow>
          (let d = next_duration w;
               w1 = new_duration (BleedingDuration target wound_damage dtype 1 max_duration) w
           in Inr (modify target
                     (\<lambda>c. c\<lparr>start_turn_duration := start_turn_duration c @ [d]\<rparr>) w1)))"

definition create_engulfed :: "nat \<Rightarrow> nat \<Rightarrow> int \<Rightarrow> world \<Rightarrow> error + world" where
  "create_engulfed engulfer target save_dc w =
     (let d = next_duration w;
          w1 = new_duration (EngulfedDuration engulfer target save_dc) w;
          w2 = modify target (\<lambda>c. c\<lparr>restrained := restrained c + 1\<rparr>) w1;
          w3 = modify target (\<lambda>c. c\<lparr>engulfed := Some d\<rparr>) w2;
          w4 = modify target (\<lambda>c. c\<lparr>start_turn_duration := start_turn_duration c @ [d]\<rparr>) w3
      in append_to ''engulfed_creature'' engulfer target w4)"

definition create_frightened :: "nat \<Rightarrow> nat \<Rightarrow> int \<Rightarrow> int \<Rightarrow> world \<Rightarrow> error + world" where
  "create_frightened frightener target save_dc max_duration w =
     (let d = next_duration w;
          w1 = new_duration (FrightenedDuration frightener target save_dc max_duration) w;
          w2 = modify target (\<lambda>c. c\<lparr>frightened := frightened c + 1\<rparr>) w1;
          w3 = modify target (\<lambda>c. c\<lparr>end_turn_duration := end_turn_duration c @ [d]\<rparr>) w2
      in Inr (modify frightener
                (\<lambda>c. c\<lparr>start_turn_duration := start_turn_duration c @ [d]\<rparr>) w3))"

definition create_frightened_one_turn :: "nat \<Rightarrow> world \<Rightarrow> error + world" where
  "create_frightened_one_turn target w =
     (let d = next_duration w;
          w1 = new_duration (FrightenedOneTurnDuration target) w;
          w2 = modify target (\<lambda>c. c\<lparr>frightened := frightened c + 1\<rparr>) w1
      in Inr (modify target (\<lambda>c. c\<lparr>end_turn_duration := end_turn_duration c @ [d]\<rparr>) w2))"

definition create_grapple :: "nat \<Rightarrow> nat \<Rightarrow> bool \<Rightarrow> bool \<Rightarrow> bool \<Rightarrow> world \<Rightarrow> error + world" where
  "create_grapple grappler target restr stun escape_priority w =
     (let d = next_duration w;
          w1 = new_duration (GrappleDuration grappler target restr stun escape_priority) w;
          w2 = modify grappler (\<lambda>c. c\<lparr>grappling := grappling c @ [d]\<rparr>) w1;
          w3 = modify target (\<lambda>c. c\<lparr>grappled := grappled c @ [d]\<rparr>) w2;
          w4 = (if escape_priority
                then modify target
                       (\<lambda>c. c\<lparr>start_turn_duration := start_turn_duration c @ [d]\<rparr>) w3
                else w3);
          w5 = (if restr then modify target (\<lambda>c. c\<lparr>restrained := restrained c + 1\<rparr>) w4
                else w4)
      in Inr (if stun then modify target (\<lambda>c. c\<lparr>stunned := stunned c + 1\<rparr>) w5 else w5))"

definition create_paralyzed :: "nat \<Rightarrow> nat \<Rightarrow> int \<Rightarrow> int \<Rightarrow> world \<Rightarrow> error + world" where
  "create_paralyzed paralyzer target save_dc max_duration w =
     (let d = next_duration w;
          w1 = new_duration (ParalyzedDuration paralyzer target save_dc max_duration) w;
          w2 = modify target (\<lambda>c. c\<lparr>paralyzed := paralyzed c + 1\<rparr>) w1;
          w3 = modify target (\<lambda>c. c\<lparr>end_turn_duration := end_turn_duration c @ [d]\<rparr>) w2;
          w4 = modify paralyzer
                 (\<lambda>c. c\<lparr>start_turn_duration := start_turn_duration c @ [d]\<rparr>) w3
      in case concentration (creatures w4 target) of
           None \<Rightarrow> Inr w4
         | Some sp \<Rightarrow> spell_end sp w4)"

definition create_poisoned :: "nat \<Rightarrow> nat \<Rightarrow> int \<Rightarrow> int \<Rightarrow> world \<Rightarrow> error + world" where
  "create_poisoned poisoner target save_dc max_duration w =
     (let d = next_duration w;
          w1 = new_duration (PoisonedDuration poisoner target save_dc max_duration) w;
          w2 = modify target (\<lambda>c. c\<lparr>poisoned := poisoned c + 1\<rparr>) w1
      in then_do (append_to ''end_turn_duartion'' target d w2)
           (\<lambda>w3. Inr (modify poisoner
                        (\<lambda>c. c\<lparr>start_turn_duration := start_turn_duration c @ [d]\<rparr>) w3)))"

definition create_reckless :: "nat \<Rightarrow> int \<Rightarrow> world \<Rightarrow> error + world" where
  "create_reckless cr max_duration w =
     (let d = next_duration w;
          w1 = new_duration (RecklessDuration cr max_duration) w;
          w2 = modify cr (\<lambda>c. c\<lparr>target_adv := target_adv c + 1\<rparr>) w1
      in Inr (modify cr (\<lambda>c. c\<lparr>start_turn_duration := start_turn_duration c @ [d]\<rparr>) w2))"

definition create_restrained :: "nat \<Rightarrow> int \<Rightarrow> world \<Rightarrow> error + world" where
  "create_restrained target check_dc w =
     (let d = next_duration w;
          w1 = new_duration (RestrainedDuration target check_dc) w;
          w2 = modify target (\<lambda>c. c\<lparr>restrained := restrained c + 1\<rparr>) w1
      in Inr (modify target
                (\<lambda>c. c\<lparr>start_turn_duration := start_turn_duration c @ [d]\<rparr>) w2))"

definition create_slowed :: "nat \<Rightarrow> nat \<Rightarrow> int \<Rightarrow> world \<Rightarrow> error + world" where
  "create_slowed slower target save_dc w =
     (let d = next_duration w;
          w1 = new_duration (SlowedDuration slower target save_dc 10) w;
          w2 = modify target (\<lambda>c. c\<lparr>slowed := slowed c + 1\<rparr>) w1;
          w3 = modify target (\<lambda>c. c\<lparr>end_turn_duration := end_turn_duration c @ [d]\<rparr>) w2
      in Inr (modify slower
                (\<lambda>c. c\<lparr>start_turn_duration := start_turn_duration c @ [d]\<rparr>) w3))"

definition create_stunned :: "nat \<Rightarrow> nat \<Rightarrow> int \<Rightarrow> int \<Rightarrow> world \<Rightarrow> error + world" where
  "create_stunned stunner target save_dc max_duration w =
     (let d = next_duration w;
          w1 = new_duration (StunnedDuration stunner target save_dc max_duration) w;
          w2 = modify target (\<lambda>c. c\<lparr>stunned := stunned c + 1\<rparr>) w1;
          w3 = modify target (\<lambda>c. c\<lparr>end_turn_duration := end_turn_duration c @ [d]\<rparr>) w2;
          w4 = modify stunner
                 (\<lambda>c. c\<lparr>start_turn_duration := start_turn_duration c @ [d]\<rparr>) w3
      in case concentration (creatures w4 target) of
           None \<Rightarrow> Inr w4
         | Some sp \<Rightarrow> spell_end sp w4)"

definition create_swallowed :: "nat \<Rightarrow> nat \<Rightarrow> int \<Rightarrow> int \<Rightarrow> world \<Rightarrow> error + world" where
  "create_swallowed swallower target regurgitation_threshold regurgitation_save_dc w =
     (let d = next_duration w;
          w1 = new_duration (SwallowedDuration swallower target regurgitation_threshold
                               regurgitation_save_dc) w
      in then_do (append_to ''swallowed_creatures'' swallower target w1)
           (\<lambda>w2. Inr (modify target
                        (\<lambda>c. c\<lparr>swallowed := Some d,
                                start_turn_duration := start_turn_duration c @ [d],
                                end_turn_duration := end_turn_duration c @ [d],
                                blinded := blinded c + 1,
                                restrained := restrained c + 1\<rparr>) w2)))"

definition create_turn_undead :: "nat \<Rightarrow> nat \<Rightarrow> world \<Rightarrow> error + world" where
  "create_turn_undead turner target w =
     (let d = next_duration w;
          w1 = new_duration (TurnUndeadDuration turner target 10) w;
          w2 = modify target (\<lambda>c. c\<lparr>turned := Some d\<rparr>) w1
      in Inr (modify turner
                (\<lambda>c. c\<lparr>start_turn_duration := start_turn_duration c @ [d]\<rparr>) w2))"

section \<open>Initiative (adventuring\_day.py)\<close>

text \<open>
  An entry of the initiative order is a combatant or the \<open>LairAction\<close> object wrapping
  one. \<open>Creature.roll_initiative\<close> rolls a d20 (with advantage when asked) and adds the
  Dexterity and initiative modifiers; \<open>LairAction.roll_initiative\<close> returns 20.
\<close>

datatype participant = Combatant nat | LairAction nat

definition roll_initiative :: "nat \<Rightarrow> bool \<Rightarrow> world \<Rightarrow> int \<times> world" where
  "roll_initiative c adv w =
     (case roll_d20 adv False (gen w) of (r, g1) \<Rightarrow>
        (r + abilities (creatures w c) a_dex + initiative_modifier (creatures w c),
         w\<lparr>gen := g1\<rparr>))"

fun initiative_key :: "participant \<Rightarrow> world \<Rightarrow> int \<times> world" where
  "initiative_key (Combatant c) w = roll_initiative c False w"
| "initiative_key (LairAction c) w = (20, w)"

text \<open>
  \<open>sorted(xs, key=..., reverse=True)\<close>: the key of every element is computed once, in
  list order; the list is reversed, sorted stably by ascending key, and reversed again.
\<close>

fun keyed :: "participant list \<Rightarrow> world \<Rightarrow> (int \<times> participant) list \<times> world" where
  "keyed [] w = ([], w)"
| "keyed (x # xs) w =
     (case initiative_key x w of (k, w1) \<Rightarrow>
        (case keyed xs w1 of (kxs, w2) \<Rightarrow> ((k, x) # kxs, w2)))"

definition sorted_reverse :: "(int \<times> 'a) list \<Rightarrow> (int \<times> 'a) list" where
  "sorted_reverse kxs = rev (sort_key fst (rev kxs))"

definition lair_actions :: "nat list \<Rightarrow> world \<Rightarrow> participant list" where
  "lair_actions cs w = map LairAction (filter (\<lambda>c. has_lair_action (creatures w c)) cs)"

text \<open>The participants and the initiative order of \<open>Encounter.__init__\<close>, with their keys.\<close>

definition participants :: "nat list \<Rightarrow> nat list \<Rightarrow> world \<Rightarrow> participant list" where
  "participants side_A side_B w =
     map Combatant side_A @ map Combatant side_B @ lair_actions (side_A @ side_B) w"

definition initiative_order ::
  "nat list \<Rightarrow> nat list \<Rightarrow> world \<Rightarrow> (int \<times> participant) list \<times> world" where
  "initiative_order side_A side_B w =
     (case keyed (participants side_A side_B w) w of (kxs, w1) \<Rightarrow> (sorted_reverse kxs, w1))"

section \<open>Statements of the specification and sample states\<close>

text \<open>
  The mitigation of one damage component as the specification words it: subtract 3 for
  Heavy Armor Master on a physical type, halve with floor under resistance, double under
  vulnerability, and nothing at all for an immune target or a result that is not positive.
\<close>

definition spec_mitigated :: "creature \<Rightarrow> int \<Rightarrow> damage_type \<Rightarrow> int" where
  "spec_mitigated me damage dtype =
     (let d1 = (if heavy_armor_master me \<and> dtype \<in> set physical_types
                then damage - 3 else damage);
          d2 = (if resistances me dtype then d1 div 2 else d1);
          d3 = (if vulnerabilities me dtype then d2 * 2 else d2)
      in if immunities me dtype \<or> d3 \<le> 0 then 0 else d3)"

text \<open>
  A combatant with the values \<open>Creature.__init__\<close> and \<open>reset_conditions\<close> assign
  before any class sets its features, with 10 of 10 hit points; and a state in which every
  combatant is such a one, nothing is in effect and every raw draw of the generator is 0
  (so every die shows 1).
\<close>

definition default_creature :: creature where
  "default_creature =
     \<lparr>species = Generic, has_lair_action = False, abilities = (\<lambda>_. 0), proficiency = 0,
      initiative_modifier = 0, save_modifiers = (\<lambda>_. 0), save_proficiencies = (\<lambda>_. False),
      skill_modifiers = (\<lambda>_. 0), skill_proficiencies = (\<lambda>_. False),
      resistances = (\<lambda>_. False), vulnerabilities = (\<lambda>_. False), immunities = (\<lambda>_. False),
      heavy_armor_master = False, evasion = False, war_caster = False, charm_adv = False,
      gnome_cunning = False, magic_resistance = False, poison_adv = False,
      base_armor_class = 10, hp = 10, total_hp = 10, action = False, bonus = False,
      reaction = False, surprised = True, prone = False, death_ward = False, baned = 0,
      blessed = 0, blinded = 0, frightened = 0, invisible = 0, paralyzed = 0, poisoned = 0,
      restrained = 0, slowed = 0, stunned = 0, target_adv = 0, skill_adv = (\<lambda>_. 0),
      skill_disadv = (\<lambda>_. 0), concentration = None, engulfed = None, swallowed = None,
      turned = None, grappled = [], grappling = [], start_turn_duration = [],
      end_turn_duration = [], spirit_guardians = [], swallowed_creatures = [],
      damage_taken_this_turn = 0, engulfed_creatures = []\<rparr>"

definition default_world :: world where
  "default_world =
     \<lparr>creatures = (\<lambda>_. default_creature), durations = (\<lambda>_. FrightenedOneTurnDuration 0),
      spells = (\<lambda>_. ShieldOfFaith 0), next_duration = 0, gen = (\<lambda>_. 0)\<rparr>"

text \<open>Combatant 0 is both resistant and vulnerable to fire.\<close>

definition resistant_vulnerable_world :: world where
  "resistant_vulnerable_world =
     modify 0 (\<lambda>c. c\<lparr>resistances := (resistances c)(fire := True),
                      vulnerabilities := (vulnerabilities c)(fire := True)\<rparr>) default_world"


text \<open>\<open>x\<close> stands somewhere before \<open>y\<close> in the list.\<close>

definition precedes :: "'a \<Rightarrow> 'a \<Rightarrow> 'a list \<Rightarrow> bool" where
  "precedes x y xs = (\<exists>us vs ws. xs = us @ x # vs @ y # ws)"

text \<open>
  Sample states: combatant 0 has Evasion; every raw draw is 19, so every d20 shows 20;
  combatant 1 owns a lair action and every d20 shows 20.
\<close>

definition evasion_world :: world where
  "evasion_world = modify 0 (\<lambda>c. c\<lparr>evasion := True\<rparr>) default_world"

definition high_roll :: "world \<Rightarrow> world" where
  "high_roll w = w\<lparr>gen := (\<lambda>_. 19)\<rparr>"

definition tie_world :: world where
  "tie_world = (modify 1 (\<lambda>c. c\<lparr>has_lair_action := True\<rparr>) default_world)\<lparr>gen := (\<lambda>_. 19)\<rparr>"


text \<open>
  Proof device: a combatant with every attribute that ending an effect or a spell may
  write set to a fixed value. Two states that agree on it for every combatant differ at
  most in those attributes; hit points, traits and the swallower's tally are outside.
\<close>

definition untouched :: "creature \<Rightarrow> creature" where
  "untouched x = x\<lparr>restrained := 0, engulfed := None, start_turn_duration := [],
     end_turn_duration := [], engulfed_creatures := [], frightened := 0, grappling := [],
     grappled := [], stunned := 0, paralyzed := 0, poisoned := 0, target_adv := 0,
     slowed := 0, swallowed_creatures := [], swallowed := None, blinded := 0, prone := False,
     turned := None, concentration := None, baned := 0, blessed := 0, invisible := 0,
     base_armor_class := 0, spirit_guardians := []\<rparr>"

definition same_untouched :: "world \<Rightarrow> world \<Rightarrow> bool" where
  "same_untouched w w' = (\<forall>k. untouched (creatures w' k) = untouched (creatures w k))"

text \<open>The hit-point invariant: between 0 and the maximum, for every combatant.\<close>

definition hp_ok :: "creature \<Rightarrow> bool" where
  "hp_ok x = (0 \<le> hp x \<and> hp x \<le> total_hp x)"

definition hp_in_range :: "world \<Rightarrow> bool" where
  "hp_in_range w = (\<forall>c. hp_ok (creatures w c))"

text \<open>
  A call of \<open>take_damage\<close> or \<open>heal\<close> on a combatant, and the states observed after
  each call of a sequence that completes (a raising call ends the run).
\<close>

datatype call =
    TakeDamage nat int damage_type "nat option" bool int "damage_type option"
  | Heal nat int bool

fun apply_call :: "call \<Rightarrow> world \<Rightarrow> error + world" where
  "apply_call (TakeDamage c pd pt dealer ranged sd st) w =
     then_do (take_damage_of c pd pt dealer ranged sd st w) (\<lambda>(taken, w1). Inr w1)"
| "apply_call (Heal c healing magic) w = heal c healing magic w"

fun observations :: "call list \<Rightarrow> world \<Rightarrow> world list" where
  "observations [] w = []"
| "observations (x # xs) w =
     (case apply_call x w of Inl e \<Rightarrow> [] | Inr w1 \<Rightarrow> w1 # observations xs w1)"

fun nonnegative :: "call \<Rightarrow> bool" where
  "nonnegative (TakeDamage c pd pt dealer ranged sd st) = (0 \<le> pd \<and> 0 \<le> sd)"
| "nonnegative (Heal c healing magic) = (0 \<le> healing)"

definition sample_calls :: "call list" where
  "sample_calls = [TakeDamage 0 15 fire None False 0 None, Heal 0 3 False, Heal 0 100 True,
                   TakeDamage 0 4 cold None False 2 (Some acid)]"

text \<open>
  Proof device, finer than \<open>untouched\<close>: only the attributes that the \<open>end\<close> of an
  effect may write are fixed, so the generator, the stores and the spell attributes of
  every combatant are outside.
\<close>

definition outside_effects :: "creature \<Rightarrow> creature" where
  "outside_effects x = x\<lparr>restrained := 0, engulfed := None, start_turn_duration := [],
     end_turn_duration := [], engulfed_creatures := [], frightened := 0, grappling := [],
     grappled := [], stunned := 0, paralyzed := 0, poisoned := 0, target_adv := 0,
     slowed := 0, swallowed_creatures := [], swallowed := None, blinded := 0, prone := False,
     turned := None\<rparr>"

definition same_outside :: "world \<Rightarrow> world \<Rightarrow> bool" where
  "same_outside w w' =
     (gen w' = gen w \<and> durations w' = durations w \<and> spells w' = spells w
      \<and> next_duration w' = next_duration w
      \<and> (\<forall>k. outside_effects (creatures w' k) = outside_effects (creatures w k)))"

text \<open>The \<open>caster\<close> attribute of a spell.\<close>

fun spell_caster :: "spell \<Rightarrow> nat" where
  "spell_caster (Bane caster targets) = caster"
| "spell_caster (Bless caster targets) = caster"
| "spell_caster (GreaterInvisibility caster target) = caster"
| "spell_caster (ShieldOfFaith caster) = caster"
| "spell_caster (SpiritGuardians caster targets) = caster"

text \<open>
  Sample states: combatant 0 concentrates on spell 0 (a Shield of Faith of its own), with
  5 hit points left and every d20 showing 20, or with full hit points and every d20
  showing 1.
\<close>

definition concentrating_world :: world where
  "concentrating_world =
     modify 0 (\<lambda>c. c\<lparr>concentration := Some 0, hp := 5\<rparr>) (high_roll default_world)"

text \<open>
  The two damage components of \<open>take_damage\<close>: the amounts taken and the state once
  both have been subtracted.
\<close>

definition after_damage ::
  "nat \<Rightarrow> int \<Rightarrow> damage_type \<Rightarrow> int \<Rightarrow> damage_type option \<Rightarrow> world \<Rightarrow> (int \<times> int) \<times> world" where
  "after_damage c pd pt sd st w =
     (let p = fst (take_damage_type c pd pt w);
          w1 = snd (take_damage_type c pd pt w);
          s = (case st of Some t \<Rightarrow> fst (take_damage_type c sd t w1) | None \<Rightarrow> 0);
          w2 = (case st of Some t \<Rightarrow> snd (take_damage_type c sd t w1) | None \<Rightarrow> w1)
      in ((p, s), w2))"

text \<open>
  The concentration check as the specification words it: one Constitution save rolled
  with advantage exactly for War Caster, against the larger of 10 and half the damage
  taken (floor); the spell ends when the roll is below that; then a turned condition ends.
\<close>

definition concentration_check ::
  "nat \<Rightarrow> nat \<Rightarrow> int \<times> int \<Rightarrow> world \<Rightarrow> error + ((int \<times> int) \<times> world)" where
  "concentration_check c sp taken w3 =
     (case roll_save c a_con (war_caster (creatures w3 c)) False w3 of (r, w4) \<Rightarrow>
        then_do (if r < max 10 ((fst taken + snd taken) div 2) then spell_end sp w4 else Inr w4)
          (\<lambda>w5. then_do (case turned (creatures w5 c) of None \<Rightarrow> Inr w5
                           | Some t \<Rightarrow> dur_end t w5)
             (\<lambda>w6. Inr (taken, w6))))"

definition caster_world :: world where
  "caster_world = modify 0 (\<lambda>c. c\<lparr>concentration := Some 0\<rparr>) default_world"

text \<open>
  What the \<open>end\<close> of a grapple and of a swallow write, as a change of combatant \<open>k\<close>:
  the statements of \<open>GrappleDuration.end\<close> and \<open>SwallowedDuration.end\<close> collected per
  combatant.
\<close>

definition grapple_removed ::
  "nat \<Rightarrow> nat \<Rightarrow> nat \<Rightarrow> bool \<Rightarrow> bool \<Rightarrow> bool \<Rightarrow> nat \<Rightarrow> creature \<Rightarrow> creature" where
  "grapple_removed d grappler target restr stun escape_priority k x =
     x\<lparr>grappling := (if k = grappler then remove1 d (grappling x) else grappling x),
       grappled := (if k = target then remove1 d (grappled x) else grappled x),
       start_turn_duration := (if k = target \<and> escape_priority
                               then remove1 d (start_turn_duration x)
                               else start_turn_duration x),
       restrained := (if k = target \<and> restr then restrained x - 1 else restrained x),
       stunned := (if k = target \<and> stun then stunned x - 1 else stunned x)\<rparr>"

definition swallow_removed :: "nat \<Rightarrow> nat \<Rightarrow> nat \<Rightarrow> nat \<Rightarrow> creature \<Rightarrow> creature" where
  "swallow_removed d swallower target k x =
     (if k = target then
        x\<lparr>swallowed_creatures := (if k = swallower then remove1 target (swallowed_creatures x)
                                   else swallowed_creatures x),
          swallowed := None,
          start_turn_duration := remove1 d (start_turn_duration x),
          end_turn_duration := remove1 d (end_turn_duration x),
          blinded := blinded x - 1, restrained := restrained x - 1, prone := True\<rparr>
      else if k = swallower then
        x\<lparr>swallowed_creatures := remove1 target (swallowed_creatures x)\<rparr>
      else x)"

text \<open>
  A grapple held by \<open>c\<close>; the target of a grapple; and a grapple of \<open>c\<close> that is
  registered where its constructor put it (in the target's \<open>grappled\<close> list and, with
  escape priority, in the target's start-of-turn list).
\<close>

definition is_grapple_of :: "nat \<Rightarrow> duration \<Rightarrow> bool" where
  "is_grapple_of c x = (case x of GrappleDuration gr t r s e \<Rightarrow> gr = c | _ \<Rightarrow> False)"

fun grapple_target :: "duration \<Rightarrow> nat" where
  "grapple_target (GrappleDuration gr t r s e) = t"
| "grapple_target x = 0"

definition grapple_ok :: "nat \<Rightarrow> world \<Rightarrow> nat \<Rightarrow> bool" where
  "grapple_ok c w g =
     (case durations w g of
        GrappleDuration gr t r s e \<Rightarrow>
          gr = c \<and> g \<in> set (grappled (creatures w t))
          \<and> (e \<longrightarrow> g \<in> set (start_turn_duration (creatures w t)))
      | _ \<Rightarrow> False)"

text \<open>
  A creature \<open>t\<close> swallowed by \<open>c\<close>, as \<open>SwallowedDuration.__init__\<close> leaves it: its
  \<open>swallowed\<close> slot holds the effect, which is in its start-of-turn and end-of-turn lists.
\<close>

definition swallow_ok :: "nat \<Rightarrow> world \<Rightarrow> nat \<Rightarrow> bool" where
  "swallow_ok c w t =
     (case swallowed (creatures w t) of
        None \<Rightarrow> False
      | Some d \<Rightarrow>
          (case durations w d of
             SwallowedDuration sw t' th dc \<Rightarrow>
               sw = c \<and> t' = t \<and> d \<in> set (start_turn_duration (creatures w t))
               \<and> d \<in> set (end_turn_duration (creatures w t))
           | _ \<Rightarrow> False))"

text \<open>
  A concentration spell of caster \<open>c\<close>, as its constructor leaves it: Spirit Guardians
  is in the \<open>spirit_guardians\<close> list of each of its targets, which are distinct.
\<close>

definition spell_ok :: "nat \<Rightarrow> world \<Rightarrow> nat \<Rightarrow> bool" where
  "spell_ok c w sp =
     (spell_caster (spells w sp) = c
      \<and> (case spells w sp of
            SpiritGuardians caster ts \<Rightarrow>
              distinct ts \<and> (\<forall>t\<in>set ts. sp \<in> set (spirit_guardians (creatures w t)))
          | _ \<Rightarrow> True))"

text \<open>
  The fields that no spell's \<open>end\<close> writes: a combatant with the six fields they do write
  blanked.
\<close>

definition outside_spells :: "creature \<Rightarrow> creature" where
  "outside_spells x = x\<lparr>concentration := None, baned := 0, blessed := 0, invisible := 0,
     base_armor_class := 0, spirit_guardians := []\<rparr>"

definition same_outside_spells :: "world \<Rightarrow> world \<Rightarrow> bool" where
  "same_outside_spells w w' =
     (gen w' = gen w \<and> durations w' = durations w \<and> spells w' = spells w
      \<and> (\<forall>k. outside_spells (creatures w' k) = outside_spells (creatures w k)))"

text \<open>
  What combatant \<open>c\<close> holds is registered as the constructors register it: its grapples
  are distinct and each is in its target's \<open>grappled\<close> list (itself free of duplicates),
  its concentration spell is its own, a Behir's swallowed creatures are distinct and each
  carries its swallow, and a Gelatinous Cube has engulfed nothing (no engulfing effect can
  be constructed).
\<close>

definition well_linked :: "nat \<Rightarrow> world \<Rightarrow> bool" where
  "well_linked c w =
     (distinct (grappling (creatures w c))
      \<and> (\<forall>g\<in>set (grappling (creatures w c)).
            grapple_ok c w g
            \<and> distinct (grappled (creatures w (grapple_target (durations w g)))))
      \<and> (case concentration (creatures w c) of
            None \<Rightarrow> True
          | Some sp \<Rightarrow> spell_ok c w sp)
      \<and> (case species (creatures w c) of
            Generic \<Rightarrow> True
          | Behir \<Rightarrow>
              distinct (swallowed_creatures (creatures w c))
              \<and> (\<forall>t\<in>set (swallowed_creatures (creatures w c)). swallow_ok c w t)
          | GelatinousCube \<Rightarrow> engulfed_creatures (creatures w c) = []))"

text \<open>
  Sample state: the Behir 0 concentrates on spell 0, grapples combatant 1 (restraining it)
  with effect 0, has swallowed combatant 2 with effect 1, and is itself grappled by
  combatant 3 with effect 2.
\<close>

definition behir_world :: world where
  "behir_world =
     default_world
       \<lparr>creatures := (\<lambda>k.
          if k = 0 then default_creature\<lparr>species := Behir, concentration := Some 0,
                          grappling := [0], swallowed_creatures := [2], grappled := [2]\<rparr>
          else if k = 1 then default_creature\<lparr>grappled := [0], restrained := 1\<rparr>
          else if k = 2 then default_creature\<lparr>swallowed := Some 1, start_turn_duration := [1],
                               end_turn_duration := [1], blinded := 1, restrained := 1\<rparr>
          else if k = 3 then default_creature\<lparr>grappling := [2]\<rparr>
          else default_creature),
        durations := (\<lambda>d.
          if d = 0 then GrappleDuration 0 1 True False False
          else if d = 1 then SwallowedDuration 0 2 30 14
          else if d = 2 then GrappleDuration 3 0 False False False
          else FrightenedOneTurnDuration 0),
        next_duration := 3\<rparr>"

text \<open>
  Proof devices for the swallower's tally \<open>damage_taken_this_turn\<close>: two states agree
  on every tally and on every effect that has no clock; and the weaker relation in which
  a tally may also have been reset to 0.
\<close>

definition same_tally :: "world \<Rightarrow> world \<Rightarrow> bool" where
  "same_tally w w' =
     ((\<forall>k. damage_taken_this_turn (creatures w' k) = damage_taken_this_turn (creatures w k))
      \<and> (\<forall>d. get_duration (durations w d) = None \<longrightarrow> durations w' d = durations w d))"

definition reset_tally :: "world \<Rightarrow> world \<Rightarrow> bool" where
  "reset_tally w w' =
     ((\<forall>k. damage_taken_this_turn (creatures w' k) = damage_taken_this_turn (creatures w k)
           \<or> damage_taken_this_turn (creatures w' k) = 0)
      \<and> (\<forall>d. get_duration (durations w d) = None \<longrightarrow> durations w' d = durations w d))"

text \<open>Sample state: the sample Behir with \<open>n\<close> on its tally.\<close>

definition tally_world :: "int \<Rightarrow> world" where
  "tally_world n = modify 0 (\<lambda>x. x\<lparr>damage_taken_this_turn := n\<rparr>) behir_world"

text \<open>
  The passage of time as the effects see it: a \<open>tick\<close> of an effect, or the end of a
  combatant's turn; a sequence of them stops at the first that raises.
\<close>

datatype clock_event = Tick nat | EndTurn nat

fun pass :: "clock_event list \<Rightarrow> world \<Rightarrow> error + world" where
  "pass [] w = Inr w"
| "pass (Tick d # es) w = then_do (tick d w) (pass es)"
| "pass (EndTurn c # es) w = then_do (end_turn c w) (pass es)"

text \<open>
  The \<open>swallowed\<close> slot of a combatant never holds a grapple. Proof device: two states
  with the same \<open>grappling\<close> and \<open>grappled\<close> lists, in which a \<open>swallowed\<close> slot can only
  have been emptied and the grapples are the same objects.
\<close>

definition slots_ok :: "world \<Rightarrow> bool" where
  "slots_ok w = (\<forall>k. case swallowed (creatures w k) of
                        None \<Rightarrow> True
                      | Some d \<Rightarrow> \<not> is_grapple (durations w d))"

definition same_links :: "world \<Rightarrow> world \<Rightarrow> bool" where
  "same_links w w' =
     ((\<forall>k. grappling (creatures w' k) = grappling (creatures w k)
           \<and> grappled (creatures w' k) = grappled (creatures w k)
           \<and> (swallowed (creatures w' k) = swallowed (creatures w k)
                \<or> swallowed (creatures w' k) = None))
      \<and> (\<forall>d. if is_grapple (durations w d) then durations w' d = durations w d
              else \<not> is_grapple (durations w' d)))"

text \<open>
  Sample states: combatant 0 grapples combatant 1 with effect 0 (restraining, with escape
  priority), as the constructor leaves them; and the same once combatant 1 has its action
  economy restored at the start of its turn.
\<close>

definition grapple_world :: world where
  "grapple_world =
     default_world
       \<lparr>creatures := (\<lambda>k.
          if k = 0 then default_creature\<lparr>grappling := [0]\<rparr>
          else if k = 1 then default_creature\<lparr>grappled := [0], start_turn_duration := [0],
                               restrained := 1\<rparr>
          else default_creature),
        durations := (\<lambda>d. if d = 0 then GrappleDuration 0 1 True False True
                           else FrightenedOneTurnDuration 0),
        next_duration := 1\<rparr>"

definition ready_world :: world where
  "ready_world =
     modify 1 (\<lambda>x. x\<lparr>surprised := False, bonus := True, action := True, reaction := True\<rparr>)
       grapple_world"

section \<open>Properties of the dice\<close>

lemma roll_two:
  "roll d 2 g =
     (case roll1 d g of (a, g1) \<Rightarrow> (case roll1 d g1 of (b, g2) \<Rightarrow> ([a, b], g2)))"
  by (simp add: roll_def roll1_def numeral_2_eq_2 split: prod.splits)

lemma roll1_range: "1 \<le> fst (roll1 d g) \<and> fst (roll1 d g) \<le> sides d"
proof -
  have "int (g 0 mod nat (sides d)) < sides d"
    by (cases d) simp_all
  then show ?thesis
    by (simp add: roll1_def integers_def)
qed

text \<open>
  Claim C9. With advantage and not disadvantage \<open>roll_d20\<close> returns the maximum of two
  successive d20 draws, with disadvantage and not advantage the minimum of two successive
  draws; with both requested, or neither, it makes one plain d20 roll and consumes one
  draw, so both requests together behave exactly as neither.
\<close>

theorem roll_d20_advantage_disadvantage:
  "roll_d20 True False g =
     (case roll1 d20 g of (a, g1) \<Rightarrow> (case roll1 d20 g1 of (b, g2) \<Rightarrow> (max a b, g2)))
   \<and> roll_d20 False True g =
     (case roll1 d20 g of (a, g1) \<Rightarrow> (case roll1 d20 g1 of (b, g2) \<Rightarrow> (min a b, g2)))
   \<and> roll_d20 True True g = roll1 d20 g
   \<and> roll_d20 False False g = roll1 d20 g
   \<and> roll_d20 True True g = roll_d20 False False g"
  by (simp add: roll_d20_def roll_two die_call_def max.commute min.commute split: prod.splits)

section \<open>The store and the error monad\<close>

lemma creatures_modify [simp]:
  "creatures (modify c f w) x = (if x = c then f (creatures w c) else creatures w x)"
  by (simp add: modify_def)

lemma modify_other [simp]:
  "gen (modify c f w) = gen w" "durations (modify c f w) = durations w"
  "spells (modify c f w) = spells w" "next_duration (modify c f w) = next_duration w"
  by (simp_all add: modify_def)

lemma modify_modify: "modify c f (modify c g w) = modify c (\<lambda>x. f (g x)) w"
  by (simp add: modify_def)

lemma modify_cong: "f (creatures w c) = g (creatures w c) \<Longrightarrow> modify c f w = modify c g w"
  by (simp add: modify_def)

lemma then_do_Inr: "then_do m f = Inr y \<longleftrightarrow> (\<exists>x. m = Inr x \<and> f x = Inr y)"
  by (cases m) (simp_all add: then_do_def)

lemma then_do_simps [simp]: "then_do (Inr x) f = f x" "then_do (Inl e) f = Inl e"
  by (simp_all add: then_do_def)

section \<open>Damage mitigation\<close>

lemma mitigation_arith:
  fixes d1 :: int
  shows "(let d2 = (if r then int_half d1 else d1); d3 = (if v then d2 * 2 else d2)
          in if d3 \<le> 0 \<or> i then 0 else d3)
       = (let d2 = (if r then d1 div 2 else d1); d3 = (if v then d2 * 2 else d2)
          in if i \<or> d3 \<le> 0 then 0 else d3)"
  by (cases "0 \<le> d1") (auto simp add: int_half_def Let_def)

lemma take_damage_type_fst:
  "fst (take_damage_type c damage dtype w) = spec_mitigated (creatures w c) damage dtype"
  using mitigation_arith[of "resistances (creatures w c) dtype"
      "(if heavy_armor_master (creatures w c) \<and> dtype \<in> set physical_types
        then damage - 3 else damage)"
      "vulnerabilities (creatures w c) dtype" "immunities (creatures w c) dtype"]
  unfolding take_damage_type_def spec_mitigated_def Let_def
  by (simp only: fst_conv if_distrib[of fst] split: if_splits)

lemma clamp_hp:
  "(let w1 = modify c (\<lambda>x. x\<lparr>hp := hp x - d\<rparr>) w
    in if hp (creatures w1 c) < 0 then modify c (\<lambda>x. x\<lparr>hp := 0\<rparr>) w1 else w1)
   = modify c (\<lambda>x. x\<lparr>hp := max 0 (hp x - d)\<rparr>) w"
proof (cases "hp (creatures w c) - d < 0")
  case True
  then show ?thesis
    by (simp add: Let_def modify_modify) (rule modify_cong, simp)
next
  case False
  then show ?thesis
    by (simp add: Let_def) (rule modify_cong, simp)
qed

lemma take_damage_type_snd:
  "snd (take_damage_type c damage dtype w) =
     (if fst (take_damage_type c damage dtype w) = 0 then w
      else modify c (\<lambda>x. x\<lparr>hp := max 0 (hp x - fst (take_damage_type c damage dtype w))\<rparr>) w)"
proof -
  define d3 where "d3 = (let me = creatures w c;
          damage1 = (if heavy_armor_master me \<and> dtype \<in> set physical_types
                     then damage - 3 else damage);
          damage2 = (if resistances me dtype then int_half damage1 else damage1)
      in (if vulnerabilities me dtype then damage2 * 2 else damage2))"
  have td: "take_damage_type c damage dtype w =
      (if d3 \<le> 0 \<or> immunities (creatures w c) dtype then (0, w)
       else (d3, (let w1 = modify c (\<lambda>x. x\<lparr>hp := hp x - d3\<rparr>) w
               in if hp (creatures w1 c) < 0 then modify c (\<lambda>x. x\<lparr>hp := 0\<rparr>) w1 else w1)))"
    unfolding take_damage_type_def d3_def Let_def by (rule refl)
  show ?thesis
    unfolding td clamp_hp by simp
qed

lemma take_damage_type_spec:
  "take_damage_type c damage dtype w =
     (let taken = spec_mitigated (creatures w c) damage dtype
      in (taken, if taken = 0 then w
                 else modify c (\<lambda>x. x\<lparr>hp := max 0 (hp x - taken)\<rparr>) w))"
  unfolding Let_def
  by (rule prod_eqI) (simp_all add: take_damage_type_fst take_damage_type_snd)

lemma spec_mitigated_hp [simp]: "spec_mitigated (x\<lparr>hp := v\<rparr>) = spec_mitigated x"
  by (simp add: fun_eq_iff spec_mitigated_def)

lemma spec_mitigated_after:
  "spec_mitigated (creatures (snd (take_damage_type c damage dtype w)) c) =
   spec_mitigated (creatures w c)"
  by (simp add: take_damage_type_snd)

lemma take_damage_phases:
  "take_damage c primary_damage primary_type dealer ranged secondary_damage secondary_type w =
     (let p = fst (take_damage_type c primary_damage primary_type w);
          w1 = snd (take_damage_type c primary_damage primary_type w);
          s = (case secondary_type of Some st \<Rightarrow> fst (take_damage_type c secondary_damage st w1)
               | None \<Rightarrow> 0);
          w2 = (case secondary_type of Some st \<Rightarrow> snd (take_damage_type c secondary_damage st w1)
               | None \<Rightarrow> w1)
      in then_do (if hp (creatures w2 c) = 0 then fall_unconscious_of c w2 else Inr w2)
           (\<lambda>w3. then_do
                    (case concentration (creatures w3 c) of
                       None \<Rightarrow> Inr w3
                     | Some sp \<Rightarrow>
                         if p + s > 0 then
                           (case saving_throw c a_con (max 10 (int_half (p + s)))
                                   (war_caster (creatures w3 c)) False None w3 of
                              (ok, w4) \<Rightarrow> if \<not> ok then spell_end sp w4 else Inr w4)
                         else Inr w3)
           (\<lambda>w5. then_do
                    (case turned (creatures w5 c) of
                       None \<Rightarrow> Inr w5
                     | Some t \<Rightarrow> dur_end t w5)
           (\<lambda>w6. Inr ((p, s), w6)))))"
  unfolding take_damage_def Let_def case_prod_beta
  by (cases secondary_type; simp only: option.case fst_conv snd_conv)

lemma take_damage_returns:
  assumes "take_damage c pd pt dealer ranged sd st w = Inr ((p, s), w')"
  shows "p = spec_mitigated (creatures w c) pd pt \<and>
         s = (case st of None \<Rightarrow> 0 | Some t \<Rightarrow> spec_mitigated (creatures w c) sd t)"
proof -
  from assms have "p = fst (take_damage_type c pd pt w)"
    and "s = (case st of Some t \<Rightarrow> fst (take_damage_type c sd t (snd (take_damage_type c pd pt w)))
               | None \<Rightarrow> 0)"
    unfolding take_damage_phases Let_def then_do_Inr by auto
  then show ?thesis
    by (simp add: take_damage_type_fst spec_mitigated_after split: option.splits)
qed

lemma resistant_vulnerable_five:
  assumes "resistances me dtype" "vulnerabilities me dtype" "\<not> immunities me dtype"
    "\<not> heavy_armor_master me"
  shows "spec_mitigated me 5 dtype = 4"
  using assms by (simp add: spec_mitigated_def)



section \<open>Constructors that cannot complete\<close>

text \<open>
  Claim C1. Creating and then ending an effect should restore every counter and list it
  touched, without raising, for every class. \<open>PoisonedDuration.__init__\<close> appends to
  \<open>target.end_turn_duartion\<close> and \<open>EngulfedDuration.__init__\<close> to
  \<open>engulfer.engulfed_creature\<close>; no combatant has an attribute of either name, so both
  constructors raise \<open>AttributeError\<close> on every input and no round trip exists.
\<close>

theorem poisoned_engulfed_constructors_raise:
  "create_poisoned poisoner target save_dc max_duration w =
     Inl (AttributeError ''end_turn_duartion'')
   \<and> create_engulfed engulfer target save_dc w = Inl (AttributeError ''engulfed_creature'')"
  by (simp add: create_poisoned_def create_engulfed_def append_to_def list_attribute_def Let_def)

section \<open>Saving throws for half damage\<close>

lemma spec_mitigated_nonpos: "x \<le> 0 \<Longrightarrow> spec_mitigated me x dt = 0"
proof -
  assume x: "x \<le> 0"
  have a: "\<And>y::int. y \<le> 0 \<Longrightarrow> y div 2 \<le> 0" by simp
  have b: "\<And>y::int. y \<le> 0 \<Longrightarrow> y * 2 \<le> 0" by simp
  have c: "x - 3 \<le> 0" using x by simp
  show ?thesis
    unfolding spec_mitigated_def Let_def using x c a b by (simp split: if_splits)
qed

lemma spec_mitigated_int_half: "spec_mitigated me (int_half d) dt = spec_mitigated me (d div 2) dt"
proof (cases "0 \<le> d")
  case True
  then show ?thesis by (simp add: int_half_def)
next
  case False
  then have "int_half d \<le> 0" "d div 2 \<le> 0" by (simp_all add: int_half_def)
  then show ?thesis by (simp add: spec_mitigated_nonpos)
qed

lemma take_damage_type_int_half:
  "take_damage_type c (int_half d) dt w = take_damage_type c (d div 2) dt w"
  by (simp only: take_damage_type_spec spec_mitigated_int_half)

lemma take_damage_int_half:
  "take_damage c (int_half d) dt dealer ranged (int_half sd) st w =
   take_damage c (d div 2) dt dealer ranged (sd div 2) st w"
  by (simp only: take_damage_def take_damage_type_int_half)

lemma take_damage_of_int_half:
  "take_damage_of c (int_half d) dt dealer ranged (int_half sd) st w =
   take_damage_of c (d div 2) dt dealer ranged (sd div 2) st w"
  by (simp only: take_damage_of_def behir_take_damage_def take_damage_int_half)

lemma creatures_roll_save [simp]: "creatures (snd (roll_save c ab adv disadv w)) = creatures w"
  by (simp add: roll_save_def Let_def split: prod.splits)

lemma creatures_saving_throw [simp]:
  "creatures (snd (saving_throw c ab dc adv disadv st w)) = creatures w"
proof -
  have "\<And>a d. creatures (snd (case roll_save c ab a d w of (result, w1) \<Rightarrow> (dc \<le> result, w1))) = creatures w"
    by (simp add: case_prod_beta)
  then show ?thesis
    unfolding saving_throw_def Let_def by (simp split: if_splits)
qed



section \<open>Initiative order\<close>

lemma precedes_Cons: "precedes x y xs \<Longrightarrow> precedes x y (z # xs)"
  unfolding precedes_def by (metis append_Cons)

lemma precedes_head: "y \<in> set xs \<Longrightarrow> precedes x y (x # xs)"
  unfolding precedes_def by (metis append_Nil split_list)

lemma precedes_append: "x \<in> set xs \<Longrightarrow> y \<in> set ys \<Longrightarrow> precedes x y (xs @ ys)"
proof -
  assume "x \<in> set xs" "y \<in> set ys"
  then obtain a b c d where "xs = a @ x # b" "ys = c @ y # d"
    by (meson split_list)
  then have "xs @ ys = a @ x # (b @ c) @ y # d" by simp
  then show ?thesis unfolding precedes_def by blast
qed

lemma precedes_filter_imp:
  "precedes x y (filter P xs) \<Longrightarrow> precedes x y xs"
proof (induction xs)
  case Nil
  then show ?case by (simp add: precedes_def)
next
  case (Cons z zs)
  show ?case
  proof (cases "P z")
    case False
    with Cons show ?thesis by (simp add: precedes_Cons)
  next
    case True
    from Cons.prems True obtain us vs ws where e: "z # filter P zs = us @ x # vs @ y # ws"
      by (auto simp: precedes_def)
    show ?thesis
    proof (cases us)
      case Nil
      with e have "z = x" "y \<in> set (filter P zs)" by auto
      then show ?thesis by (simp add: precedes_head)
    next
      case (Cons u us')
      with e have "filter P zs = us' @ x # vs @ y # ws" by simp
      then have "precedes x y (filter P zs)" unfolding precedes_def by blast
      then show ?thesis using Cons.IH by (simp add: precedes_Cons)
    qed
  qed
qed

lemma filter_precedes:
  assumes "P x" "P y" "precedes x y xs"
  shows "precedes x y (filter P xs)"
proof -
  from assms(3) obtain us vs ws where "xs = us @ x # vs @ y # ws"
    unfolding precedes_def by blast
  with assms(1,2) have "filter P xs = filter P us @ x # filter P vs @ y # filter P ws"
    by simp
  then show ?thesis unfolding precedes_def by blast
qed

lemma sorted_reverse_stable:
  "filter (\<lambda>e. fst e = k) (sorted_reverse kxs) = filter (\<lambda>e. fst e = k) kxs"
  by (simp add: sorted_reverse_def rev_filter[symmetric] sort_key_stable)

lemma sorted_reverse_mset: "mset (sorted_reverse kxs) = mset kxs"
  by (simp add: sorted_reverse_def)

lemma sorted_reverse_descending:
  "sorted_wrt (\<lambda>a b. fst a \<ge> fst b) (sorted_reverse kxs)"
proof -
  have "sorted (map fst (sort_key fst (rev kxs)))" by (rule sorted_sort_key)
  then show ?thesis
    by (simp add: sorted_reverse_def sorted_wrt_rev sorted_map)
qed

lemma sorted_reverse_ties:
  assumes "fst e1 = fst e2" "precedes e1 e2 kxs"
  shows "precedes e1 e2 (sorted_reverse kxs)"
proof -
  have "precedes e1 e2 (filter (\<lambda>e. fst e = fst e1) kxs)"
    using assms by (intro filter_precedes) simp_all
  then have "precedes e1 e2 (filter (\<lambda>e. fst e = fst e1) (sorted_reverse kxs))"
    by (simp add: sorted_reverse_stable)
  then show ?thesis by (rule precedes_filter_imp)
qed

lemma creatures_roll_initiative [simp]:
  "creatures (snd (roll_initiative c adv w)) = creatures w"
  by (simp add: roll_initiative_def split: prod.splits)

lemma creatures_initiative_key [simp]: "creatures (snd (initiative_key p w)) = creatures w"
  by (cases p) simp_all

lemma keyed_snd: "map snd (fst (keyed ps w)) = ps"
  by (induction ps arbitrary: w) (simp_all add: case_prod_beta)

lemma creatures_keyed [simp]: "creatures (snd (keyed ps w)) = creatures w"
proof (induction ps arbitrary: w)
  case Nil
  then show ?case by simp
next
  case (Cons p ps)
  have "creatures (snd (keyed ps (snd (initiative_key p w)))) = creatures w"
    by (simp add: Cons.IH)
  then show ?case by (simp add: case_prod_beta)
qed

lemma keyed_append:
  "keyed (xs @ ys) w =
     (case keyed xs w of (kxs, w1) \<Rightarrow> case keyed ys w1 of (kys, w2) \<Rightarrow> (kxs @ kys, w2))"
  by (induction xs arbitrary: w) (simp_all split: prod.splits)

lemma roll_d20_range: "1 \<le> fst (roll_d20 a d g) \<and> fst (roll_d20 a d g) \<le> 20"
proof -
  have r: "\<And>g. 1 \<le> fst (roll1 d20 g) \<and> fst (roll1 d20 g) \<le> 20"
    using roll1_range[of d20] by simp
  show ?thesis
    using r[of g] r[of "snd (roll1 d20 g)"]
    by (auto simp add: roll_d20_def roll_two die_call_def case_prod_beta)
qed

lemma keyed_keys:
  "(k, p) \<in> set (fst (keyed ps w)) \<Longrightarrow>
     (case p of
        LairAction l \<Rightarrow> k = 20
      | Combatant c \<Rightarrow> \<exists>r. 1 \<le> r \<and> r \<le> 20 \<and>
          k = r + abilities (creatures w c) a_dex + initiative_modifier (creatures w c))"
proof (induction ps arbitrary: w)
  case Nil
  then show ?case by simp
next
  case (Cons q qs)
  from Cons.prems have "(k, p) = (fst (initiative_key q w), q)
      \<or> (k, p) \<in> set (fst (keyed qs (snd (initiative_key q w))))"
    by (simp add: case_prod_beta)
  then show ?case
  proof
    assume "(k, p) = (fst (initiative_key q w), q)"
    then have kp: "k = fst (initiative_key p w)" by simp
    show ?thesis
    proof (cases p)
      case (Combatant c)
      then show ?thesis
        using kp roll_d20_range[of False False "gen w"]
        by (auto simp add: roll_initiative_def case_prod_beta)
    next
      case (LairAction l)
      then show ?thesis using kp by simp
    qed
  next
    assume "(k, p) \<in> set (fst (keyed qs (snd (initiative_key q w))))"
    from Cons.IH[OF this] show ?thesis by (simp only: creatures_initiative_key)
  qed
qed


lemma gen_keyed_combatants:
  "gen (snd (keyed (map Combatant cs) w)) = (\<lambda>n. gen w (n + length cs))"
proof (induction cs arbitrary: w)
  case Nil
  then show ?case by simp
next
  case (Cons c cs)
  have "gen (snd (roll_initiative c False w)) = (\<lambda>n. gen w (Suc n))"
    by (simp add: roll_initiative_def roll_d20_def die_call_def roll1_def integers_def)
  then show ?case
    by (simp add: case_prod_beta Cons.IH)
qed

lemma keyed_lair_world: "snd (keyed (map LairAction cs) w) = w"
  by (induction cs) (simp_all add: case_prod_beta)

lemma keyed_lair_keys: "e \<in> set (fst (keyed (map LairAction cs) w)) \<Longrightarrow> fst e = 20"
  by (induction cs) (auto simp add: case_prod_beta)

lemma keyed_combatant_keys:
  assumes "e \<in> set (fst (keyed (map Combatant cs) w))"
  shows "\<exists>c r. snd e = Combatant c \<and> 1 \<le> r \<and> r \<le> 20 \<and>
           fst e = r + abilities (creatures w c) a_dex + initiative_modifier (creatures w c)"
proof -
  have "snd e \<in> set (map snd (fst (keyed (map Combatant cs) w)))"
    using assms by simp
  then obtain c where c: "snd e = Combatant c"
    by (auto simp add: keyed_snd)
  from assms have "(fst e, snd e) \<in> set (fst (keyed (map Combatant cs) w))" by simp
  from keyed_keys[OF this] c show ?thesis by auto
qed

text \<open>
  Claim C7. \<open>Encounter.__init__\<close> keys the participants in list order (side A, side B,
  then the lair actions): one d20 plus the Dexterity and initiative modifiers for each
  combatant, consuming one draw each, and the fixed 20 for each lair action. The
  initiative order is a rearrangement of the keyed participants in descending key order
  in which entries of equal key keep their list order: side A stands before side B, and
  every combatant before every lair action.
\<close>

theorem initiative_order_tie_breaks:
  "(case keyed (map Combatant side_A) w of (kA, wA) \<Rightarrow>
    case keyed (map Combatant side_B) wA of (kB, wB) \<Rightarrow>
    case keyed (lair_actions (side_A @ side_B) w) wB of (kL, wL) \<Rightarrow>
    case initiative_order side_A side_B w of (order, w1) \<Rightarrow>
      map snd kA = map Combatant side_A \<and> map snd kB = map Combatant side_B
      \<and> map snd kL = lair_actions (side_A @ side_B) w
      \<and> (\<forall>e\<in>set (kA @ kB). \<exists>c r. snd e = Combatant c \<and> 1 \<le> r \<and> r \<le> 20 \<and>
             fst e = r + abilities (creatures w c) a_dex + initiative_modifier (creatures w c))
      \<and> (\<forall>e\<in>set kL. fst e = 20)
      \<and> gen w1 = (\<lambda>n. gen w (n + (length side_A + length side_B)))
      \<and> mset order = mset (kA @ kB @ kL)
      \<and> sorted_wrt (\<lambda>a b. fst a \<ge> fst b) order
      \<and> (\<forall>e1 e2. fst e1 = fst e2 \<and> precedes e1 e2 (kA @ kB @ kL) \<longrightarrow> precedes e1 e2 order)
      \<and> (\<forall>e1\<in>set kA. \<forall>e2\<in>set kB. fst e1 = fst e2 \<longrightarrow> precedes e1 e2 order)
      \<and> (\<forall>e1\<in>set (kA @ kB). \<forall>e2\<in>set kL. fst e1 = fst e2 \<longrightarrow> precedes e1 e2 order))"
proof -
  obtain kA wA where A: "keyed (map Combatant side_A) w = (kA, wA)"
    by (cases "keyed (map Combatant side_A) w")
  obtain kB wB where B: "keyed (map Combatant side_B) wA = (kB, wB)"
    by (cases "keyed (map Combatant side_B) wA")
  obtain kL wL where L: "keyed (lair_actions (side_A @ side_B) w) wB = (kL, wL)"
    by (cases "keyed (lair_actions (side_A @ side_B) w) wB")
  have cA: "creatures wA = creatures w"
    using creatures_keyed[of "map Combatant side_A" w] A by simp
  have gA: "gen wA = (\<lambda>n. gen w (n + length side_A))"
    using gen_keyed_combatants[of side_A w] A by simp
  have gB: "gen wB = (\<lambda>n. gen wA (n + length side_B))"
    using gen_keyed_combatants[of side_B wA] B by simp
  have wL: "wL = wB"
    using keyed_lair_world[of "filter (\<lambda>c. has_lair_action (creatures w c)) (side_A @ side_B)" wB] L
    by (simp add: lair_actions_def)
  have all: "keyed (participants side_A side_B w) w = (kA @ kB @ kL, wL)"
    by (simp add: participants_def keyed_append A B L)
  have order: "initiative_order side_A side_B w = (sorted_reverse (kA @ kB @ kL), wL)"
    by (simp add: initiative_order_def all)
  have sA: "map snd kA = map Combatant side_A"
    using keyed_snd[of "map Combatant side_A" w] A by simp
  have sB: "map snd kB = map Combatant side_B"
    using keyed_snd[of "map Combatant side_B" wA] B by simp
  have sL: "map snd kL = lair_actions (side_A @ side_B) w"
    using keyed_snd[of "lair_actions (side_A @ side_B) w" wB] L by simp
  have keysAB: "\<forall>e\<in>set (kA @ kB). \<exists>c r. snd e = Combatant c \<and> 1 \<le> r \<and> r \<le> 20 \<and>
             fst e = r + abilities (creatures w c) a_dex + initiative_modifier (creatures w c)"
    using keyed_combatant_keys[of _ side_A w] keyed_combatant_keys[of _ side_B wA] A B cA
    by auto
  have keysL: "\<forall>e\<in>set kL. fst e = 20"
    using keyed_lair_keys[of _ "filter (\<lambda>c. has_lair_action (creatures w c)) (side_A @ side_B)" wB] L
    by (simp add: lair_actions_def)
  have g: "gen wL = (\<lambda>n. gen w (n + (length side_A + length side_B)))"
    by (simp add: wL gB gA fun_eq_iff ac_simps)
  have ties: "\<forall>e1 e2. fst e1 = fst e2 \<and> precedes e1 e2 (kA @ kB @ kL) \<longrightarrow>
      precedes e1 e2 (sorted_reverse (kA @ kB @ kL))"
    using sorted_reverse_ties by blast
  have tAB: "\<forall>e1\<in>set kA. \<forall>e2\<in>set kB. fst e1 = fst e2 \<longrightarrow>
      precedes e1 e2 (sorted_reverse (kA @ kB @ kL))"
  proof (intro ballI impI)
    fix e1 e2 assume "e1 \<in> set kA" "e2 \<in> set kB" "fst e1 = fst e2"
    then have "precedes e1 e2 (kA @ (kB @ kL))"
      by (intro precedes_append) simp_all
    with \<open>fst e1 = fst e2\<close> show "precedes e1 e2 (sorted_reverse (kA @ kB @ kL))"
      by (intro sorted_reverse_ties)
  qed
  have tL: "\<forall>e1\<in>set (kA @ kB). \<forall>e2\<in>set kL. fst e1 = fst e2 \<longrightarrow>
      precedes e1 e2 (sorted_reverse (kA @ kB @ kL))"
  proof (intro ballI impI)
    fix e1 e2 assume "e1 \<in> set (kA @ kB)" "e2 \<in> set kL" "fst e1 = fst e2"
    then have "precedes e1 e2 ((kA @ kB) @ kL)"
      by (intro precedes_append)
    with \<open>fst e1 = fst e2\<close> show "precedes e1 e2 (sorted_reverse (kA @ kB @ kL))"
      by (intro sorted_reverse_ties) simp_all
  qed
  show ?thesis
    unfolding A B L order prod.case
    using sA sB sL keysAB keysL g ties tAB tL sorted_reverse_mset[of "kA @ kB @ kL"]
      sorted_reverse_descending[of "kA @ kB @ kL"]
    by blast
qed

lemma tie_keyed:
  "keyed (map Combatant [0]) tie_world = ([(20, Combatant 0)], tie_world)"
  "keyed (map Combatant [1]) tie_world = ([(20, Combatant 1)], tie_world)"
  "keyed (lair_actions ([0] @ [1]) tie_world) tie_world = ([(20, LairAction 1)], tie_world)"
  "initiative_order [0] [1] tie_world
     = ([(20, Combatant 0), (20, Combatant 1), (20, LairAction 1)], tie_world)"
  by (simp_all add: initiative_order_def participants_def lair_actions_def sorted_reverse_def
      roll_initiative_def roll_d20_def die_call_def roll1_def integers_def
      tie_world_def default_world_def default_creature_def modify_def)

theorem initiative_order_tie_breaks_witness:
  "initiative_order [0] [1] tie_world
     = ([(20, Combatant 0), (20, Combatant 1), (20, LairAction 1)], tie_world)
   \<and> precedes (20, Combatant 0) (20, Combatant 1) (fst (initiative_order [0] [1] tie_world))
   \<and> precedes (20, Combatant 1) (20, LairAction 1) (fst (initiative_order [0] [1] tie_world))"
  using initiative_order_tie_breaks[where side_A = "[0]" and side_B = "[1]" and w = tie_world]
  unfolding tie_keyed prod.case
  by simp

section \<open>What ending an effect leaves alone\<close>

lemma same_untouched_refl [simp]: "same_untouched w w"
  by (simp add: same_untouched_def)

lemma same_untouched_trans: "same_untouched w w1 \<Longrightarrow> same_untouched w1 w2 \<Longrightarrow> same_untouched w w2"
  by (simp add: same_untouched_def)

lemma same_untouched_modify:
  "untouched (f (creatures w c)) = untouched (creatures w c) \<Longrightarrow> same_untouched w (modify c f w)"
  by (simp add: same_untouched_def)

lemma same_untouched_modify_trans:
  "same_untouched (modify c f w) w' \<Longrightarrow> untouched (f (creatures w c)) = untouched (creatures w c)
    \<Longrightarrow> same_untouched w w'"
  using same_untouched_modify same_untouched_trans by blast

lemma remove_from_untouched:
  assumes "remove_from field upd c x w = Inr w'"
    and "\<And>g y. untouched (upd g y) = untouched y"
  shows "same_untouched w w'"
  using assms
  by (auto simp add: remove_from_def list_remove_def same_untouched_def split: if_splits)

lemma untouched_set_list_attribute [simp]:
  "untouched (set_list_attribute name xs y) = untouched y"
  by (simp add: set_list_attribute_def untouched_def)

lemma remove_named_untouched:
  assumes "remove_named name c x w = Inr w'"
  shows "same_untouched w w'"
  using assms
  by (auto simp add: remove_named_def list_remove_def same_untouched_def split: if_splits sum.splits)

lemma untouched_updates [simp]:
  "untouched (grappling_update g y) = untouched y"
  "untouched (grappled_update g y) = untouched y"
  "untouched (start_turn_duration_update g y) = untouched y"
  "untouched (end_turn_duration_update g y) = untouched y"
  "untouched (spirit_guardians_update g y) = untouched y"
  "untouched (restrained_update gi y) = untouched y"
  "untouched (stunned_update gi y) = untouched y"
  "untouched (frightened_update gi y) = untouched y"
  "untouched (paralyzed_update gi y) = untouched y"
  "untouched (poisoned_update gi y) = untouched y"
  "untouched (target_adv_update gi y) = untouched y"
  "untouched (slowed_update gi y) = untouched y"
  "untouched (blinded_update gi y) = untouched y"
  "untouched (baned_update gi y) = untouched y"
  "untouched (blessed_update gi y) = untouched y"
  "untouched (invisible_update gi y) = untouched y"
  "untouched (base_armor_class_update gi y) = untouched y"
  "untouched (engulfed_update go y) = untouched y"
  "untouched (swallowed_update go y) = untouched y"
  "untouched (turned_update go y) = untouched y"
  "untouched (concentration_update go y) = untouched y"
  "untouched (prone_update gb y) = untouched y"
  by (simp_all add: untouched_def)

lemma same_untouched_modify_after:
  "same_untouched w w1 \<Longrightarrow> (\<And>y. untouched (f y) = untouched y) \<Longrightarrow>
   same_untouched w (modify c f w1)"
  by (simp add: same_untouched_def)

lemma remove_from_untouchedE:
  "remove_from field upd c x w1 = Inr w' \<Longrightarrow> same_untouched w w1 \<Longrightarrow>
   (\<And>g y. untouched (upd g y) = untouched y) \<Longrightarrow> same_untouched w w'"
  using remove_from_untouched same_untouched_trans by blast

lemma remove_named_untouchedE:
  "remove_named name c x w1 = Inr w' \<Longrightarrow> same_untouched w w1 \<Longrightarrow> same_untouched w w'"
  using remove_named_untouched same_untouched_trans by blast

lemma dur_end_untouched:
  assumes "dur_end d w = Inr w'"
  shows "same_untouched w w'"
  using assms
  by (cases "durations w d")
     (auto simp add: dur_end_def then_do_Inr split: if_splits
        intro!: same_untouched_modify_after
        elim!: remove_from_untouchedE remove_named_untouchedE)

lemma end_each_untouched: "end_each ds w = Inr w' \<Longrightarrow> same_untouched w w'"
proof (induction ds arbitrary: w)
  case Nil
  then show ?case by simp
next
  case (Cons d ds)
  then obtain w1 where "dur_end d w = Inr w1" "end_each ds w1 = Inr w'"
    by (auto simp add: then_do_Inr)
  then show ?case
    using Cons.IH dur_end_untouched same_untouched_trans by blast
qed

lemma release_swallowed_untouched: "release_swallowed ts w = Inr w' \<Longrightarrow> same_untouched w w'"
proof (induction ts arbitrary: w)
  case Nil
  then show ?case by simp
next
  case (Cons t ts)
  then obtain d w1 where "dur_end d w = Inr w1" "release_swallowed ts w1 = Inr w'"
    by (auto simp add: then_do_Inr split: option.splits)
  then show ?case
    using Cons.IH dur_end_untouched same_untouched_trans by blast
qed

lemma release_engulfed_untouched: "release_engulfed ts w = Inr w' \<Longrightarrow> same_untouched w w'"
proof (induction ts arbitrary: w)
  case Nil
  then show ?case by simp
next
  case (Cons t ts)
  then obtain d w1 where "dur_end d w = Inr w1" "release_engulfed ts w1 = Inr w'"
    by (auto simp add: then_do_Inr split: option.splits)
  then show ?case
    using Cons.IH dur_end_untouched same_untouched_trans by blast
qed

lemma for_targets_untouched:
  "(\<And>y. untouched (f y) = untouched y) \<Longrightarrow> same_untouched w w1 \<Longrightarrow>
   same_untouched w (for_targets f ts w1)"
  by (induction ts arbitrary: w1) (simp_all add: same_untouched_modify_after)

lemma remove_guardians_untouched:
  "remove_guardians sp ts w = Inr w' \<Longrightarrow> same_untouched w w'"
proof (induction ts arbitrary: w)
  case Nil
  then show ?case by simp
next
  case (Cons t ts)
  then obtain w1 where "remove_from spirit_guardians spirit_guardians_update t sp w = Inr w1"
    "remove_guardians sp ts w1 = Inr w'"
    by (auto simp add: then_do_Inr)
  then show ?case
    using Cons.IH remove_from_untouched[of spirit_guardians spirit_guardians_update t sp w w1]
      same_untouched_trans by auto
qed

lemma spell_end_untouched:
  assumes "spell_end sp w = Inr w'"
  shows "same_untouched w w'"
proof (cases "spells w sp")
  case (SpiritGuardians caster targets)
  with assms have "remove_guardians sp targets
      (modify caster (\<lambda>c. c\<lparr>concentration := None\<rparr>) w) = Inr w'"
    by (simp add: spell_end_def)
  from remove_guardians_untouched[OF this] show ?thesis
    by (rule same_untouched_modify_trans) simp
qed (insert assms, auto simp add: spell_end_def
      intro!: for_targets_untouched same_untouched_modify_after)

section \<open>Hit points stay in range\<close>

lemma hp_ok_untouched: "hp_ok (untouched x) = hp_ok x"
  by (simp add: hp_ok_def untouched_def)

lemma same_untouched_hp_in_range:
  "same_untouched w w' \<Longrightarrow> hp_in_range w \<Longrightarrow> hp_in_range w'"
  unfolding hp_in_range_def same_untouched_def by (metis hp_ok_untouched)

lemma fall_unconscious_hp_in_range:
  assumes "fall_unconscious c w = Inr w'" "hp_in_range w"
  shows "hp_in_range w'"
proof (cases "death_ward (creatures w c) \<and> total_hp (creatures w c) > 0")
  case True
  with assms(1) have "w' = modify c (\<lambda>x. x\<lparr>death_ward := False, hp := 1\<rparr>) w"
    by (simp add: fall_unconscious_def)
  with assms(2) True show ?thesis
    by (simp add: hp_in_range_def hp_ok_def)
next
  case False
  with assms(1) obtain w2 where
    1: "end_each (grappling (creatures (modify c (\<lambda>x. x\<lparr>prone := True\<rparr>) w) c))
          (modify c (\<lambda>x. x\<lparr>prone := True\<rparr>) w) = Inr w2" and
    2: "(case concentration (creatures w2 c) of None \<Rightarrow> Inr w2 | Some sp \<Rightarrow> spell_end sp w2) = Inr w'"
    by (auto simp add: fall_unconscious_def Let_def then_do_Inr)
  have a: "same_untouched w w2"
    using end_each_untouched[OF 1] by (rule same_untouched_modify_trans) simp
  have b: "same_untouched w2 w'"
    using 2 spell_end_untouched by (auto split: option.splits)
  show ?thesis
    using a b assms(2) same_untouched_hp_in_range by blast
qed

lemma fall_unconscious_of_hp_in_range:
  assumes "fall_unconscious_of c w = Inr w'" "hp_in_range w"
  shows "hp_in_range w'"
  using assms
  by (cases "species (creatures w c)")
     (auto simp add: fall_unconscious_of_def then_do_Inr
        dest!: release_swallowed_untouched release_engulfed_untouched
        dest: fall_unconscious_hp_in_range same_untouched_hp_in_range)

lemma spec_mitigated_nonneg: "0 \<le> spec_mitigated me damage dt"
  by (simp add: spec_mitigated_def Let_def)

lemma take_damage_type_hp_in_range:
  assumes "hp_in_range w"
  shows "hp_in_range (snd (take_damage_type c damage dt w))"
proof -
  have f: "0 \<le> fst (take_damage_type c damage dt w)"
    by (simp add: take_damage_type_fst spec_mitigated_nonneg)
  have all: "\<And>k. 0 \<le> hp (creatures w k) \<and> hp (creatures w k) \<le> total_hp (creatures w k)"
    using assms by (simp add: hp_in_range_def hp_ok_def)
  show ?thesis
    unfolding hp_in_range_def hp_ok_def take_damage_type_snd
  proof
    fix k
    show "0 \<le> hp (creatures (if fst (take_damage_type c damage dt w) = 0 then w
             else modify c (\<lambda>x. x\<lparr>hp := max 0 (hp x - fst (take_damage_type c damage dt w))\<rparr>) w) k)
        \<and> hp (creatures (if fst (take_damage_type c damage dt w) = 0 then w
             else modify c (\<lambda>x. x\<lparr>hp := max 0 (hp x - fst (take_damage_type c damage dt w))\<rparr>) w) k)
          \<le> total_hp (creatures (if fst (take_damage_type c damage dt w) = 0 then w
             else modify c (\<lambda>x. x\<lparr>hp := max 0 (hp x - fst (take_damage_type c damage dt w))\<rparr>) w) k)"
      using f all[of c] all[of k] by (simp add: max_def)
  qed
qed

lemma saving_throw_hp_in_range:
  "hp_in_range w \<Longrightarrow> hp_in_range (snd (saving_throw c ab dc adv disadv st w))"
  by (simp add: hp_in_range_def)

lemma take_damage_hp_in_range:
  assumes "take_damage c pd pt dealer ranged sd st w = Inr (taken, w')" "hp_in_range w"
  shows "hp_in_range w'"
proof -
  define P where "P = fst (take_damage_type c pd pt w)"
  define S where "S = (case st of
      Some t \<Rightarrow> fst (take_damage_type c sd t (snd (take_damage_type c pd pt w)))
    | None \<Rightarrow> 0)"
  define w2 where "w2 = (case st of
      Some t \<Rightarrow> snd (take_damage_type c sd t (snd (take_damage_type c pd pt w)))
    | None \<Rightarrow> snd (take_damage_type c pd pt w))"
  have r2: "hp_in_range w2"
    unfolding w2_def using assms(2)
    by (simp add: take_damage_type_hp_in_range split: option.splits)
  have "then_do (if hp (creatures w2 c) = 0 then fall_unconscious_of c w2 else Inr w2)
           (\<lambda>w3. then_do
                    (case concentration (creatures w3 c) of
                       None \<Rightarrow> Inr w3
                     | Some sp \<Rightarrow>
                         if P + S > 0 then
                           (case saving_throw c a_con (max 10 (int_half (P + S)))
                                   (war_caster (creatures w3 c)) False None w3 of
                              (ok, w4) \<Rightarrow> if \<not> ok then spell_end sp w4 else Inr w4)
                         else Inr w3)
           (\<lambda>w5. then_do
                    (case turned (creatures w5 c) of
                       None \<Rightarrow> Inr w5
                     | Some t \<Rightarrow> dur_end t w5)
           (\<lambda>w6. Inr ((P, S), w6)))) = Inr (taken, w')"
    using assms(1) unfolding take_damage_phases Let_def P_def S_def w2_def .
  then obtain w3 w5 where
    3: "(if hp (creatures w2 c) = 0 then fall_unconscious_of c w2 else Inr w2) = Inr w3" and
    5: "(case concentration (creatures w3 c) of
           None \<Rightarrow> Inr w3
         | Some sp \<Rightarrow>
             if P + S > 0 then
               (case saving_throw c a_con (max 10 (int_half (P + S)))
                       (war_caster (creatures w3 c)) False None w3 of
                  (ok, w4) \<Rightarrow> if \<not> ok then spell_end sp w4 else Inr w4)
             else Inr w3) = Inr w5" and
    6: "(case turned (creatures w5 c) of None \<Rightarrow> Inr w5 | Some t \<Rightarrow> dur_end t w5) = Inr w'"
    unfolding then_do_Inr by auto
  have r3: "hp_in_range w3"
    using 3 r2 fall_unconscious_of_hp_in_range by (auto split: if_splits)
  have r5: "hp_in_range w5"
  proof (cases "concentration (creatures w3 c)")
    case None
    with 5 r3 show ?thesis by simp
  next
    case (Some sp)
    show ?thesis
    proof (cases "P + S > 0")
      case False
      with 5 Some r3 show ?thesis by simp
    next
      case True
      obtain ok w4 where s: "saving_throw c a_con (max 10 (int_half (P + S)))
                       (war_caster (creatures w3 c)) False None w3 = (ok, w4)"
        by (cases "saving_throw c a_con (max 10 (int_half (P + S)))
                       (war_caster (creatures w3 c)) False None w3")
      have r4: "hp_in_range w4"
        using saving_throw_hp_in_range[OF r3, of c a_con "max 10 (int_half (P + S))"
            "war_caster (creatures w3 c)" False None] s by simp
      from 5 Some True s have e: "(if \<not> ok then spell_end sp w4 else Inr w4) = Inr w5" by simp
      show ?thesis
      proof (cases ok)
        case True
        with e r4 show ?thesis by simp
      next
        case False
        with e have "spell_end sp w4 = Inr w5" by simp
        then show ?thesis
          using r4 spell_end_untouched same_untouched_hp_in_range by blast
      qed
    qed
  qed
  show ?thesis
  proof (cases "turned (creatures w5 c)")
    case None
    with 6 r5 show ?thesis by simp
  next
    case (Some t)
    with 6 have "dur_end t w5 = Inr w'" by simp
    then show ?thesis
      using r5 dur_end_untouched same_untouched_hp_in_range by blast
  qed
qed

lemma take_damage_of_hp_in_range:
  assumes "take_damage_of c pd pt dealer ranged sd st w = Inr (taken, w')" "hp_in_range w"
  shows "hp_in_range w'"
proof (cases "species (creatures w c) = Behir")
  case False
  with assms show ?thesis
    using take_damage_hp_in_range
    by (cases "species (creatures w c)") (auto simp add: take_damage_of_def)
next
  case True
  with assms(1) have "behir_take_damage c pd pt dealer ranged sd st w = Inr (taken, w')"
    by (simp add: take_damage_of_def)
  then obtain r w1 where
    1: "take_damage c pd pt dealer ranged sd st w = Inr (r, w1)" and
    2: "(case (r, w1) of ((primary_damage_taken, secondary_damage_taken), w1) \<Rightarrow>
          Inr ((primary_damage_taken, secondary_damage_taken),
               (case dealer of
                  None \<Rightarrow> w1
                | Some dl \<Rightarrow>
                    if dl \<in> set (swallowed_creatures (creatures w1 c)) then
                      modify c (\<lambda>x. x\<lparr>damage_taken_this_turn :=
                                   damage_taken_this_turn x
                                   + (primary_damage_taken + secondary_damage_taken)\<rparr>) w1
                    else w1))) = Inr (taken, w')"
    unfolding behir_take_damage_def then_do_Inr by auto
  have r1: "hp_in_range w1" using take_damage_hp_in_range[OF 1 assms(2)] .
  have same: "\<And>v x. hp_ok (x\<lparr>damage_taken_this_turn := v\<rparr>) = hp_ok x"
    by (simp add: hp_ok_def)
  from 2 have "w' = (case dealer of
                  None \<Rightarrow> w1
                | Some dl \<Rightarrow>
                    if dl \<in> set (swallowed_creatures (creatures w1 c)) then
                      modify c (\<lambda>x. x\<lparr>damage_taken_this_turn :=
                                   damage_taken_this_turn x + (fst r + snd r)\<rparr>) w1
                    else w1)"
    by (cases r; cases dealer) auto
  then show ?thesis
    using r1 unfolding hp_in_range_def by (cases dealer) (simp_all add: same split: if_splits)
qed

lemma heal_hp_in_range:
  assumes "heal c healing magic w = Inr w'" "hp_in_range w" "0 \<le> healing"
  shows "hp_in_range w'"
proof -
  define w2 where "w2 = (let w1 = modify c (\<lambda>x. x\<lparr>hp := hp x + healing\<rparr>) w
      in if hp (creatures w1 c) > total_hp (creatures w1 c)
         then modify c (\<lambda>x. x\<lparr>hp := total_hp x\<rparr>) w1 else w1)"
  have all: "\<And>k. 0 \<le> hp (creatures w k) \<and> hp (creatures w k) \<le> total_hp (creatures w k)"
    using assms(2) by (simp add: hp_in_range_def hp_ok_def)
  have r2: "hp_in_range w2"
    unfolding hp_in_range_def hp_ok_def
  proof
    fix k
    show "0 \<le> hp (creatures w2 k) \<and> hp (creatures w2 k) \<le> total_hp (creatures w2 k)"
      using all[of c] all[of k] assms(3) unfolding w2_def by (simp add: Let_def)
  qed
  from assms(1) have "(if magic then
           end_each (filter (\<lambda>d. is_bleeding (durations w2 d))
                       (start_turn_duration (creatures w2 c))) w2
         else Inr w2) = Inr w'"
    unfolding heal_def w2_def Let_def .
  then show ?thesis
  proof (cases magic)
    case True
    assume "(if magic then
           end_each (filter (\<lambda>d. is_bleeding (durations w2 d))
                       (start_turn_duration (creatures w2 c))) w2
         else Inr w2) = Inr w'"
    with True have "end_each (filter (\<lambda>d. is_bleeding (durations w2 d))
                       (start_turn_duration (creatures w2 c))) w2 = Inr w'" by simp
    then show ?thesis
      using r2 end_each_untouched same_untouched_hp_in_range by blast
  next
    case False
    assume "(if magic then
           end_each (filter (\<lambda>d. is_bleeding (durations w2 d))
                       (start_turn_duration (creatures w2 c))) w2
         else Inr w2) = Inr w'"
    with False r2 show ?thesis by simp
  qed
qed

lemma apply_call_hp_in_range:
  assumes "apply_call x w = Inr w'" "hp_in_range w" "nonnegative x"
  shows "hp_in_range w'"
proof (cases x)
  case (TakeDamage c pd pt dealer ranged sd st)
  with assms(1) obtain taken where "take_damage_of c pd pt dealer ranged sd st w = Inr (taken, w')"
    by (auto simp add: then_do_Inr)
  then show ?thesis using assms(2) by (rule take_damage_of_hp_in_range)
next
  case (Heal c healing magic)
  with assms show ?thesis using heal_hp_in_range by simp
qed

lemma observations_hp_in_range:
  "hp_in_range w \<Longrightarrow> \<forall>x\<in>set calls. nonnegative x \<Longrightarrow>
   \<forall>w'\<in>set (observations calls w). hp_in_range w'"
proof (induction calls arbitrary: w)
  case Nil
  then show ?case by simp
next
  case (Cons x xs)
  show ?case
  proof (cases "apply_call x w")
    case (Inl e)
    then show ?thesis by simp
  next
    case (Inr w1)
    have "hp_in_range w1"
      using apply_call_hp_in_range[OF Inr Cons.prems(1)] Cons.prems(2) by simp
    then show ?thesis
      using Cons.IH[of w1] Cons.prems(2) Inr by simp
  qed
qed

lemma hp_untouched: "hp (untouched x) = hp x" "total_hp (untouched x) = total_hp x"
  by (simp_all add: untouched_def)

lemma same_untouched_hp:
  "same_untouched w w' \<Longrightarrow> hp (creatures w' k) = hp (creatures w k)"
  unfolding same_untouched_def by (metis hp_untouched(1))

lemma heal_clamps:
  assumes "heal c healing magic w = Inr w1"
  shows "hp (creatures w1 c) = min (total_hp (creatures w c)) (hp (creatures w c) + healing)"
proof -
  define w2 where "w2 = (let w1 = modify c (\<lambda>x. x\<lparr>hp := hp x + healing\<rparr>) w
      in if hp (creatures w1 c) > total_hp (creatures w1 c)
         then modify c (\<lambda>x. x\<lparr>hp := total_hp x\<rparr>) w1 else w1)"
  have h2: "hp (creatures w2 c) = min (total_hp (creatures w c)) (hp (creatures w c) + healing)"
    unfolding w2_def by (simp add: Let_def min_def)
  from assms have e: "(if magic then
           end_each (filter (\<lambda>d. is_bleeding (durations w2 d))
                       (start_turn_duration (creatures w2 c))) w2
         else Inr w2) = Inr w1"
    unfolding heal_def w2_def Let_def .
  have "same_untouched w2 w1"
  proof (cases magic)
    case True
    with e show ?thesis using end_each_untouched by simp
  next
    case False
    with e show ?thesis by simp
  qed
  then show ?thesis using h2 same_untouched_hp by simp
qed


lemma sample_run:
  "map (\<lambda>w'. (hp (creatures w' 0), total_hp (creatures w' 0)))
     (observations sample_calls default_world) = [(0, 10), (3, 10), (10, 10), (4, 10)]"
  by (simp add: sample_calls_def take_damage_of_def take_damage_def take_damage_type_def
      fall_unconscious_of_def fall_unconscious_def heal_def int_half_def
      default_world_def default_creature_def physical_types_def Let_def modify_def)


section \<open>Concentration under damage\<close>

lemma same_outside_refl [simp]: "same_outside w w"
  by (simp add: same_outside_def)

lemma same_outside_trans: "same_outside w w1 \<Longrightarrow> same_outside w1 w2 \<Longrightarrow> same_outside w w2"
  by (simp add: same_outside_def)

lemma same_outside_modify_after:
  "same_outside w w1 \<Longrightarrow> (\<And>y. outside_effects (f y) = outside_effects y) \<Longrightarrow>
   same_outside w (modify c f w1)"
  by (simp add: same_outside_def)

lemma outside_effects_set_list_attribute [simp]:
  "outside_effects (set_list_attribute name xs y) =
     (if name = ''spirit_guardians'' then (outside_effects y)\<lparr>spirit_guardians := xs\<rparr>
      else outside_effects y)"
  by (simp add: set_list_attribute_def outside_effects_def)

lemma outside_effects_updates [simp]:
  "outside_effects (grappling_update g y) = outside_effects y"
  "outside_effects (grappled_update g y) = outside_effects y"
  "outside_effects (start_turn_duration_update g y) = outside_effects y"
  "outside_effects (end_turn_duration_update g y) = outside_effects y"
  "outside_effects (restrained_update gi y) = outside_effects y"
  "outside_effects (stunned_update gi y) = outside_effects y"
  "outside_effects (frightened_update gi y) = outside_effects y"
  "outside_effects (paralyzed_update gi y) = outside_effects y"
  "outside_effects (poisoned_update gi y) = outside_effects y"
  "outside_effects (target_adv_update gi y) = outside_effects y"
  "outside_effects (slowed_update gi y) = outside_effects y"
  "outside_effects (blinded_update gi y) = outside_effects y"
  "outside_effects (engulfed_update go y) = outside_effects y"
  "outside_effects (swallowed_update go y) = outside_effects y"
  "outside_effects (turned_update go y) = outside_effects y"
  "outside_effects (prone_update gb y) = outside_effects y"
  by (simp_all add: outside_effects_def)

lemma remove_from_outsideE:
  "remove_from field upd c x w1 = Inr w' \<Longrightarrow> same_outside w w1 \<Longrightarrow>
   (\<And>g y. outside_effects (upd g y) = outside_effects y) \<Longrightarrow> same_outside w w'"
  by (auto simp add: remove_from_def list_remove_def same_outside_def split: if_splits)

lemma remove_named_outsideE:
  "remove_named name c x w1 = Inr w' \<Longrightarrow> name \<noteq> ''spirit_guardians'' \<Longrightarrow>
   same_outside w w1 \<Longrightarrow> same_outside w w'"
  by (auto simp add: remove_named_def list_remove_def same_outside_def
      split: if_splits sum.splits)

lemma dur_end_outside:
  assumes "dur_end d w = Inr w'"
  shows "same_outside w w'"
  using assms
  by (cases "durations w d")
     (auto simp add: dur_end_def then_do_Inr split: if_splits
        intro!: same_outside_modify_after
        elim!: remove_from_outsideE remove_named_outsideE)

lemma end_each_outside: "end_each ds w = Inr w' \<Longrightarrow> same_outside w w'"
proof (induction ds arbitrary: w)
  case Nil
  then show ?case by simp
next
  case (Cons d ds)
  then obtain w1 where "dur_end d w = Inr w1" "end_each ds w1 = Inr w'"
    by (auto simp add: then_do_Inr)
  then show ?case
    using Cons.IH dur_end_outside same_outside_trans by blast
qed

lemma release_swallowed_outside: "release_swallowed ts w = Inr w' \<Longrightarrow> same_outside w w'"
proof (induction ts arbitrary: w)
  case Nil
  then show ?case by simp
next
  case (Cons t ts)
  then obtain d w1 where "dur_end d w = Inr w1" "release_swallowed ts w1 = Inr w'"
    by (auto simp add: then_do_Inr split: option.splits)
  then show ?case
    using Cons.IH dur_end_outside same_outside_trans by blast
qed

lemma release_engulfed_outside: "release_engulfed ts w = Inr w' \<Longrightarrow> same_outside w w'"
proof (induction ts arbitrary: w)
  case Nil
  then show ?case by simp
next
  case (Cons t ts)
  then obtain d w1 where "dur_end d w = Inr w1" "release_engulfed ts w1 = Inr w'"
    by (auto simp add: then_do_Inr split: option.splits)
  then show ?case
    using Cons.IH dur_end_outside same_outside_trans by blast
qed

lemma concentration_outside: "concentration (outside_effects x) = concentration x"
  by (simp add: outside_effects_def)

lemma same_outside_concentration:
  "same_outside w w' \<Longrightarrow> concentration (creatures w' k) = concentration (creatures w k)"
  unfolding same_outside_def by (metis concentration_outside)

lemma same_outside_gen: "same_outside w w' \<Longrightarrow> gen w' = gen w"
  by (simp add: same_outside_def)

lemma for_targets_keeps:
  assumes "\<And>y. concentration (f y) = concentration y"
  shows "concentration (creatures (for_targets f ts w) k) = concentration (creatures w k)
         \<and> gen (for_targets f ts w) = gen w \<and> durations (for_targets f ts w) = durations w
         \<and> spells (for_targets f ts w) = spells w"
  using assms by (induction ts arbitrary: w) simp_all

lemma remove_guardians_keeps:
  "remove_guardians sp ts w = Inr w' \<Longrightarrow>
     concentration (creatures w' k) = concentration (creatures w k) \<and> gen w' = gen w
     \<and> durations w' = durations w \<and> spells w' = spells w"
proof (induction ts arbitrary: w)
  case Nil
  then show ?case by simp
next
  case (Cons t ts)
  then obtain w1 where 1: "remove_from spirit_guardians spirit_guardians_update t sp w = Inr w1"
    and 2: "remove_guardians sp ts w1 = Inr w'"
    by (auto simp add: then_do_Inr)
  from 1 have "concentration (creatures w1 k) = concentration (creatures w k) \<and> gen w1 = gen w
     \<and> durations w1 = durations w \<and> spells w1 = spells w"
    by (auto simp add: remove_from_def list_remove_def split: if_splits)
  then show ?case using Cons.IH[OF 2] by simp
qed

lemma spell_end_concentration:
  assumes "spell_end sp w = Inr w'"
  shows "concentration (creatures w' k) =
           (if k = spell_caster (spells w sp) then None else concentration (creatures w k))
         \<and> gen w' = gen w \<and> durations w' = durations w \<and> spells w' = spells w"
proof (cases "spells w sp")
  case (SpiritGuardians caster targets)
  with assms have "remove_guardians sp targets
      (modify caster (\<lambda>c. c\<lparr>concentration := None\<rparr>) w) = Inr w'"
    by (simp add: spell_end_def)
  from remove_guardians_keeps[OF this, of k] SpiritGuardians show ?thesis by simp
next
  case (Bane caster targets)
  with assms have "w' = for_targets (\<lambda>c. c\<lparr>baned := baned c - 1\<rparr>) targets
                 (modify caster (\<lambda>c. c\<lparr>concentration := None\<rparr>) w)"
    by (simp add: spell_end_def)
  then show ?thesis using Bane by (simp add: for_targets_keeps)
next
  case (Bless caster targets)
  with assms have "w' = for_targets (\<lambda>c. c\<lparr>blessed := blessed c - 1\<rparr>) targets
                 (modify caster (\<lambda>c. c\<lparr>concentration := None\<rparr>) w)"
    by (simp add: spell_end_def)
  then show ?thesis using Bless by (simp add: for_targets_keeps)
next
  case (GreaterInvisibility caster target)
  with assms show ?thesis by (auto simp add: spell_end_def)
next
  case (ShieldOfFaith caster)
  with assms show ?thesis by (auto simp add: spell_end_def)
qed

lemma fall_unconscious_loses_concentration:
  assumes "fall_unconscious c w = Inr w'"
    and "\<not> (death_ward (creatures w c) \<and> total_hp (creatures w c) > 0)"
    and "concentration (creatures w c) = Some sp" "spell_caster (spells w sp) = c"
  shows "concentration (creatures w' c) = None \<and> gen w' = gen w \<and> spells w' = spells w
         \<and> durations w' = durations w"
proof -
  define w1 where "w1 = modify c (\<lambda>x. x\<lparr>prone := True\<rparr>) w"
  from assms(1,2) obtain w2 where
    1: "end_each (grappling (creatures w1 c)) w1 = Inr w2" and
    2: "(case concentration (creatures w2 c) of None \<Rightarrow> Inr w2 | Some sp \<Rightarrow> spell_end sp w2) = Inr w'"
    by (auto simp add: fall_unconscious_def Let_def then_do_Inr w1_def)
  have o: "same_outside w1 w2" using 1 by (rule end_each_outside)
  have c2: "concentration (creatures w2 c) = Some sp"
    using same_outside_concentration[OF o, of c] assms(3) by (simp add: w1_def)
  have s2: "spells w2 = spells w" "gen w2 = gen w" "durations w2 = durations w"
    using o by (simp_all add: same_outside_def w1_def)
  from 2 c2 have e: "spell_end sp w2 = Inr w'" by simp
  show ?thesis
    using spell_end_concentration[OF e, of c] s2 assms(4) by simp
qed

lemma saving_throw_con:
  "saving_throw c a_con dc adv False None w =
     (case roll_save c a_con adv False w of (r, w1) \<Rightarrow> (dc \<le> r, w1))"
  by (simp add: saving_throw_def Let_def)

lemma take_damage_type_static:
  "concentration (creatures (snd (take_damage_type c d t w)) k) = concentration (creatures w k)"
  "war_caster (creatures (snd (take_damage_type c d t w)) k) = war_caster (creatures w k)"
  "death_ward (creatures (snd (take_damage_type c d t w)) k) = death_ward (creatures w k)"
  "total_hp (creatures (snd (take_damage_type c d t w)) k) = total_hp (creatures w k)"
  "species (creatures (snd (take_damage_type c d t w)) k) = species (creatures w k)"
  "gen (snd (take_damage_type c d t w)) = gen w"
  "spells (snd (take_damage_type c d t w)) = spells w"
  "durations (snd (take_damage_type c d t w)) = durations w"
  by (simp_all add: take_damage_type_snd)

lemma after_damage_static:
  "concentration (creatures (snd (after_damage c pd pt sd st w)) k) = concentration (creatures w k)"
  "war_caster (creatures (snd (after_damage c pd pt sd st w)) k) = war_caster (creatures w k)"
  "death_ward (creatures (snd (after_damage c pd pt sd st w)) k) = death_ward (creatures w k)"
  "total_hp (creatures (snd (after_damage c pd pt sd st w)) k) = total_hp (creatures w k)"
  "species (creatures (snd (after_damage c pd pt sd st w)) k) = species (creatures w k)"
  by (cases st; simp add: after_damage_def Let_def take_damage_type_static)+

lemma after_damage_stores:
  "gen (snd (after_damage c pd pt sd st w)) = gen w"
  "spells (snd (after_damage c pd pt sd st w)) = spells w"
  "durations (snd (after_damage c pd pt sd st w)) = durations w"
  by (cases st; simp add: after_damage_def Let_def take_damage_type_static)+

lemma take_damage_after_damage:
  "take_damage c pd pt dealer ranged sd st w =
     (case after_damage c pd pt sd st w of (taken, w2) \<Rightarrow>
        then_do (if hp (creatures w2 c) = 0 then fall_unconscious_of c w2 else Inr w2)
           (\<lambda>w3. then_do
                    (case concentration (creatures w3 c) of
                       None \<Rightarrow> Inr w3
                     | Some sp \<Rightarrow>
                         if fst taken + snd taken > 0 then
                           (case saving_throw c a_con (max 10 (int_half (fst taken + snd taken)))
                                   (war_caster (creatures w3 c)) False None w3 of
                              (ok, w4) \<Rightarrow> if \<not> ok then spell_end sp w4 else Inr w4)
                         else Inr w3)
           (\<lambda>w5. then_do
                    (case turned (creatures w5 c) of
                       None \<Rightarrow> Inr w5
                     | Some t \<Rightarrow> dur_end t w5)
           (\<lambda>w6. Inr (taken, w6)))))"
  unfolding take_damage_phases after_damage_def Let_def prod.case fst_conv snd_conv
  by (rule refl)

lemma check_stage:
  assumes "concentration (creatures w3 c) = Some sp" "0 < fst taken + snd taken"
  shows "then_do
           (case concentration (creatures w3 c) of
              None \<Rightarrow> Inr w3
            | Some sp \<Rightarrow>
                if fst taken + snd taken > 0 then
                  (case saving_throw c a_con (max 10 (int_half (fst taken + snd taken)))
                          (war_caster (creatures w3 c)) False None w3 of
                     (ok, w4) \<Rightarrow> if \<not> ok then spell_end sp w4 else Inr w4)
                else Inr w3)
           (\<lambda>w5. then_do
                    (case turned (creatures w5 c) of
                       None \<Rightarrow> Inr w5
                     | Some t \<Rightarrow> dur_end t w5)
           (\<lambda>w6. Inr (taken, w6)))
         = concentration_check c sp taken w3"
proof -
  have h: "int_half (fst taken + snd taken) = (fst taken + snd taken) div 2"
    using assms(2) by (simp add: int_half_def)
  obtain r w4 where rs: "roll_save c a_con (war_caster (creatures w3 c)) False w3 = (r, w4)"
    by (cases "roll_save c a_con (war_caster (creatures w3 c)) False w3")
  show ?thesis
    unfolding concentration_check_def assms(1) option.case h saving_throw_con rs prod.case
      not_le
    using assms(2) by (simp only: if_True)
qed

lemma take_damage_conscious_check:
  assumes "concentration (creatures w c) = Some sp"
    and "after_damage c pd pt sd st w = (taken, w2)"
    and "0 < fst taken + snd taken" "hp (creatures w2 c) \<noteq> 0"
  shows "take_damage c pd pt dealer ranged sd st w = concentration_check c sp taken w2"
proof -
  have c2: "concentration (creatures w2 c) = Some sp"
    using after_damage_static(1)[of c pd pt sd st w c] assms(1,2) by simp
  show ?thesis
    unfolding take_damage_after_damage assms(2) prod.case
    using assms(4) by (simp add: check_stage[OF c2 assms(3)])
qed

lemma take_damage_death_ward_check:
  assumes "concentration (creatures w c) = Some sp"
    and "after_damage c pd pt sd st w = (taken, w2)"
    and "0 < fst taken + snd taken" "hp (creatures w2 c) = 0"
    and "species (creatures w c) = Generic"
    and "death_ward (creatures w c)" "0 < total_hp (creatures w c)"
  shows "take_damage c pd pt dealer ranged sd st w =
           concentration_check c sp taken (modify c (\<lambda>x. x\<lparr>death_ward := False, hp := 1\<rparr>) w2)"
proof -
  have st2: "concentration (creatures w2 c) = Some sp" "species (creatures w2 c) = Generic"
    "death_ward (creatures w2 c)" "0 < total_hp (creatures w2 c)"
    using after_damage_static[of c pd pt sd st w c] assms by simp_all
  have f: "fall_unconscious_of c w2 = Inr (modify c (\<lambda>x. x\<lparr>death_ward := False, hp := 1\<rparr>) w2)"
    using st2 by (simp add: fall_unconscious_of_def fall_unconscious_def)
  have c3: "concentration (creatures (modify c (\<lambda>x. x\<lparr>death_ward := False, hp := 1\<rparr>) w2) c) = Some sp"
    using st2 by simp
  show ?thesis
    unfolding take_damage_after_damage assms(2) prod.case
    by (simp only: assms(4) refl if_True f then_do_simps check_stage[OF c3 assms(3)])
qed

lemma fall_unconscious_of_loses_concentration:
  assumes "fall_unconscious_of c w = Inr w'"
    and "\<not> (death_ward (creatures w c) \<and> total_hp (creatures w c) > 0)"
    and "concentration (creatures w c) = Some sp" "spell_caster (spells w sp) = c"
  shows "concentration (creatures w' c) = None \<and> gen w' = gen w \<and> durations w' = durations w"
proof -
  from assms(1) obtain w1 where 1: "fall_unconscious c w = Inr w1"
    and 2: "w' = w1 \<or> same_outside w1 w'"
    by (cases "species (creatures w c)")
       (auto simp add: fall_unconscious_of_def then_do_Inr
          dest: release_swallowed_outside release_engulfed_outside)
  from fall_unconscious_loses_concentration[OF 1 assms(2,3,4)]
  have a: "concentration (creatures w1 c) = None" "gen w1 = gen w" "durations w1 = durations w"
    by simp_all
  from 2 show ?thesis
  proof
    assume "w' = w1" with a show ?thesis by simp
  next
    assume o: "same_outside w1 w'"
    then show ?thesis
      using a same_outside_concentration[OF o, of c] by (simp add: same_outside_def)
  qed
qed

lemma take_damage_unconscious_no_check:
  assumes "concentration (creatures w c) = Some sp" "spell_caster (spells w sp) = c"
    and "after_damage c pd pt sd st w = (taken, w2)"
    and "hp (creatures w2 c) = 0"
    and "\<not> (death_ward (creatures w c) \<and> 0 < total_hp (creatures w c))"
    and "take_damage c pd pt dealer ranged sd st w = Inr (r, w')"
  shows "concentration (creatures w' c) = None \<and> gen w' = gen w"
proof -
  have st2: "concentration (creatures w2 c) = Some sp" "spell_caster (spells w2 sp) = c"
    "\<not> (death_ward (creatures w2 c) \<and> 0 < total_hp (creatures w2 c))" "gen w2 = gen w"
    using after_damage_static[of c pd pt sd st w c] after_damage_stores[of c pd pt sd st w] assms
    by simp_all
  from assms(6) obtain w3 w5 where
    3: "fall_unconscious_of c w2 = Inr w3" and
    5: "(case concentration (creatures w3 c) of
           None \<Rightarrow> Inr w3
         | Some sp \<Rightarrow>
             if fst taken + snd taken > 0 then
               (case saving_throw c a_con (max 10 (int_half (fst taken + snd taken)))
                       (war_caster (creatures w3 c)) False None w3 of
                  (ok, w4) \<Rightarrow> if \<not> ok then spell_end sp w4 else Inr w4)
             else Inr w3) = Inr w5" and
    6: "(case turned (creatures w5 c) of None \<Rightarrow> Inr w5 | Some t \<Rightarrow> dur_end t w5) = Inr w'"
    unfolding take_damage_after_damage assms(3) prod.case then_do_Inr
    using assms(4) by auto
  have a3: "concentration (creatures w3 c) = None" "gen w3 = gen w2"
    using fall_unconscious_of_loses_concentration[OF 3 st2(3) st2(1) st2(2)] by simp_all
  with 5 have w5: "w5 = w3" by simp
  show ?thesis
  proof (cases "turned (creatures w5 c)")
    case None
    with 6 w5 a3 st2(4) show ?thesis by simp
  next
    case (Some t)
    with 6 have "dur_end t w5 = Inr w'" by simp
    from dur_end_outside[OF this] show ?thesis
      using same_outside_concentration[of w5 w' c] w5 a3 st2(4) by (simp add: same_outside_def)
  qed
qed



lemma caster_after_damage:
  "after_damage 0 4 fire 0 None caster_world = ((4, 0), modify 0 (\<lambda>c. c\<lparr>hp := 6\<rparr>) caster_world)"
  "after_damage 0 5 fire 0 None concentrating_world
     = ((5, 0), modify 0 (\<lambda>c. c\<lparr>hp := 0\<rparr>) concentrating_world)"
  by (simp_all add: after_damage_def take_damage_type_def int_half_def
      caster_world_def concentrating_world_def high_roll_def default_world_def
      default_creature_def physical_types_def Let_def modify_def)

lemma caster_check:
  "concentration_check 0 0 (4, 0) (modify 0 (\<lambda>c. c\<lparr>hp := 6\<rparr>) caster_world) =
     Inr ((4, 0), modify 0 (\<lambda>c. c\<lparr>hp := 6, concentration := None,
                                   base_armor_class := 8\<rparr>) caster_world)"
  by (simp add: concentration_check_def spell_end_def roll_save_def
      roll_d20_def die_call_def roll1_def integers_def
      caster_world_def default_world_def default_creature_def Let_def modify_def)


section \<open>Ending grapples\<close>

lemma world_eqI:
  "creatures w = creatures w' \<Longrightarrow> durations w = durations w' \<Longrightarrow> spells w = spells w' \<Longrightarrow>
   next_duration w = next_duration w' \<Longrightarrow> gen w = gen w' \<Longrightarrow> (w :: world) = w'"
  by simp

lemma dur_end_grapple:
  assumes "durations w d = GrappleDuration gr t r s e"
    and "d \<in> set (grappling (creatures w gr))" "d \<in> set (grappled (creatures w t))"
    and "e \<longrightarrow> d \<in> set (start_turn_duration (creatures w t))"
  shows "dur_end d w = Inr (w\<lparr>creatures := (\<lambda>k. grapple_removed d gr t r s e k (creatures w k))\<rparr>)"
  using assms
  by (auto simp add: dur_end_def remove_from_def list_remove_def modify_def grapple_removed_def
      fun_eq_iff intro!: world_eqI)

lemma dur_end_grapple_result:
  assumes "durations w d = GrappleDuration gr t r s e" "dur_end d w = Inr w'"
  shows "w' = w\<lparr>creatures := (\<lambda>k. grapple_removed d gr t r s e k (creatures w k))\<rparr>"
proof -
  from assms have "d \<in> set (grappling (creatures w gr))" "d \<in> set (grappled (creatures w t))"
    "e \<longrightarrow> d \<in> set (start_turn_duration (creatures w t))"
    by (auto simp add: dur_end_def remove_from_def list_remove_def then_do_Inr
        split: if_splits)
  from dur_end_grapple[OF assms(1) this] assms(2) show ?thesis by simp
qed

lemma dur_end_swallowed:
  assumes "durations w d = SwallowedDuration sw t th dc"
    and "species (creatures w sw) = Behir" "t \<in> set (swallowed_creatures (creatures w sw))"
    and "d \<in> set (start_turn_duration (creatures w t))"
    and "d \<in> set (end_turn_duration (creatures w t))"
  shows "dur_end d w = Inr (w\<lparr>creatures := (\<lambda>k. swallow_removed d sw t k (creatures w k))\<rparr>)"
  using assms
  by (auto simp add: dur_end_def remove_from_def remove_named_def list_attribute_def
      set_list_attribute_def list_remove_def modify_def swallow_removed_def
      fun_eq_iff intro!: world_eqI)

lemma grapple_removed_fields [simp]:
  "species (grapple_removed d gr t r s e k x) = species x"
  "end_turn_duration (grapple_removed d gr t r s e k x) = end_turn_duration x"
  "swallowed (grapple_removed d gr t r s e k x) = swallowed x"
  "swallowed_creatures (grapple_removed d gr t r s e k x) = swallowed_creatures x"
  "blinded (grapple_removed d gr t r s e k x) = blinded x"
  "prone (grapple_removed d gr t r s e k x) = prone x"
  "concentration (grapple_removed d gr t r s e k x) = concentration x"
  "spirit_guardians (grapple_removed d gr t r s e k x) = spirit_guardians x"
  "grappling (grapple_removed d gr t r s e k x) =
     (if k = gr then remove1 d (grappling x) else grappling x)"
  "grappled (grapple_removed d gr t r s e k x) =
     (if k = t then remove1 d (grappled x) else grappled x)"
  "start_turn_duration (grapple_removed d gr t r s e k x) =
     (if k = t \<and> e then remove1 d (start_turn_duration x) else start_turn_duration x)"
  "restrained (grapple_removed d gr t r s e k x) =
     (if k = t \<and> r then restrained x - 1 else restrained x)"
  "stunned (grapple_removed d gr t r s e k x) =
     (if k = t \<and> s then stunned x - 1 else stunned x)"
  by (simp_all add: grapple_removed_def)

lemma is_grapple_ofE:
  assumes "is_grapple_of c x"
  obtains t r s e where "x = GrappleDuration c t r s e"
  using assms by (cases x) (auto simp add: is_grapple_of_def)

lemma end_each_grapples_induct:
  assumes "end_each ds w = Inr w'" "\<forall>g\<in>set ds. is_grapple_of c (durations w g)"
    and base: "\<And>w. R w w"
    and step: "\<And>d t r s e w w2.
        durations w d = GrappleDuration c t r s e \<Longrightarrow>
        R (w\<lparr>creatures := (\<lambda>k. grapple_removed d c t r s e k (creatures w k))\<rparr>) w2 \<Longrightarrow>
        R w w2"
  shows "R w w'"
  using assms(1,2)
proof (induction ds arbitrary: w)
  case Nil
  then show ?case using base by simp
next
  case (Cons d ds)
  from Cons.prems(1) obtain w1 where 1: "dur_end d w = Inr w1" and 2: "end_each ds w1 = Inr w'"
    by (auto simp add: then_do_Inr)
  from Cons.prems(2) obtain t r s e where g: "durations w d = GrappleDuration c t r s e"
    by (auto elim: is_grapple_ofE)
  have w1: "w1 = w\<lparr>creatures := (\<lambda>k. grapple_removed d c t r s e k (creatures w k))\<rparr>"
    using dur_end_grapple_result[OF g 1] .
  have "\<forall>g\<in>set ds. is_grapple_of c (durations w1 g)"
    using Cons.prems(2) by (simp add: w1)
  from Cons.IH[OF 2 this] have "R w1 w'" .
  then show ?case
    using step[OF g, of w'] w1 by simp
qed

lemma end_each_grapples_frame:
  assumes "end_each ds w = Inr w'" "\<forall>g\<in>set ds. is_grapple_of c (durations w g)"
  shows "durations w' = durations w \<and> spells w' = spells w \<and> gen w' = gen w
     \<and> (\<forall>k. species (creatures w' k) = species (creatures w k)
           \<and> end_turn_duration (creatures w' k) = end_turn_duration (creatures w k)
           \<and> swallowed (creatures w' k) = swallowed (creatures w k)
           \<and> swallowed_creatures (creatures w' k) = swallowed_creatures (creatures w k)
           \<and> blinded (creatures w' k) = blinded (creatures w k)
           \<and> prone (creatures w' k) = prone (creatures w k)
           \<and> concentration (creatures w' k) = concentration (creatures w k)
           \<and> spirit_guardians (creatures w' k) = spirit_guardians (creatures w k))"
  by (rule end_each_grapples_induct[OF assms]) simp_all

lemma end_each_grapples_shrink:
  assumes "end_each ds w = Inr w'" "\<forall>g\<in>set ds. is_grapple_of c (durations w g)"
  shows "\<forall>k. set (grappled (creatures w' k)) \<subseteq> set (grappled (creatures w k))
           \<and> (distinct (grappled (creatures w k)) \<longrightarrow> distinct (grappled (creatures w' k)))"
proof (rule end_each_grapples_induct[OF assms])
  fix d t r s e and w w2 :: world
  assume h: "\<forall>k. set (grappled (creatures w2 k))
        \<subseteq> set (grappled (creatures
            (w\<lparr>creatures := (\<lambda>k. grapple_removed d c t r s e k (creatures w k))\<rparr>) k))
      \<and> (distinct (grappled (creatures
            (w\<lparr>creatures := (\<lambda>k. grapple_removed d c t r s e k (creatures w k))\<rparr>) k))
          \<longrightarrow> distinct (grappled (creatures w2 k)))"
  show "\<forall>k. set (grappled (creatures w2 k)) \<subseteq> set (grappled (creatures w k))
           \<and> (distinct (grappled (creatures w k)) \<longrightarrow> distinct (grappled (creatures w2 k)))"
  proof
    fix k
    from h[rule_format, of k] show "set (grappled (creatures w2 k)) \<subseteq> set (grappled (creatures w k))
           \<and> (distinct (grappled (creatures w k)) \<longrightarrow> distinct (grappled (creatures w2 k)))"
      using set_remove1_subset[of d "grappled (creatures w k)"]
      by (auto split: if_splits)
  qed
qed simp

lemma in_remove1_other: "x \<noteq> d \<Longrightarrow> x \<in> set xs \<Longrightarrow> x \<in> set (remove1 d xs)"
  by simp

lemma end_each_grapples_keeps:
  assumes "end_each ds w = Inr w'" "\<forall>g\<in>set ds. is_grapple_of c (durations w g)"
  shows "durations w' = durations w
     \<and> (\<not> is_grapple_of c (durations w x) \<longrightarrow>
          (x \<in> set (grappled (creatures w k)) \<longrightarrow> x \<in> set (grappled (creatures w' k)))
          \<and> (x \<in> set (grappling (creatures w k)) \<longrightarrow> x \<in> set (grappling (creatures w' k)))
          \<and> (x \<in> set (start_turn_duration (creatures w k))
                  \<longrightarrow> x \<in> set (start_turn_duration (creatures w' k))))"
proof (rule end_each_grapples_induct[OF assms])
  fix d t r s e and w w2 :: world
  assume g: "durations w d = GrappleDuration c t r s e"
  assume h: "durations w2 = durations
         (w\<lparr>creatures := (\<lambda>k. grapple_removed d c t r s e k (creatures w k))\<rparr>)
     \<and> (\<not> is_grapple_of c (durations
            (w\<lparr>creatures := (\<lambda>k. grapple_removed d c t r s e k (creatures w k))\<rparr>) x) \<longrightarrow>
          (x \<in> set (grappled (creatures
              (w\<lparr>creatures := (\<lambda>k. grapple_removed d c t r s e k (creatures w k))\<rparr>) k))
                 \<longrightarrow> x \<in> set (grappled (creatures w2 k)))
          \<and> (x \<in> set (grappling (creatures
              (w\<lparr>creatures := (\<lambda>k. grapple_removed d c t r s e k (creatures w k))\<rparr>) k))
                 \<longrightarrow> x \<in> set (grappling (creatures w2 k)))
          \<and> (x \<in> set (start_turn_duration (creatures
              (w\<lparr>creatures := (\<lambda>k. grapple_removed d c t r s e k (creatures w k))\<rparr>) k))
                  \<longrightarrow> x \<in> set (start_turn_duration (creatures w2 k))))"
  show "durations w2 = durations w
     \<and> (\<not> is_grapple_of c (durations w x) \<longrightarrow>
          (x \<in> set (grappled (creatures w k)) \<longrightarrow> x \<in> set (grappled (creatures w2 k)))
          \<and> (x \<in> set (grappling (creatures w k)) \<longrightarrow> x \<in> set (grappling (creatures w2 k)))
          \<and> (x \<in> set (start_turn_duration (creatures w k))
                  \<longrightarrow> x \<in> set (start_turn_duration (creatures w2 k))))"
  proof (intro conjI impI)
    show "durations w2 = durations w" using h by simp
  next
    assume n: "\<not> is_grapple_of c (durations w x)"
    then have ne: "x \<noteq> d" using g by (auto simp add: is_grapple_of_def)
    { assume "x \<in> set (grappled (creatures w k))"
      then show "x \<in> set (grappled (creatures w2 k))"
        using h n in_remove1_other[OF ne] by (auto split: if_splits) }
    { assume "x \<in> set (grappling (creatures w k))"
      then show "x \<in> set (grappling (creatures w2 k))"
        using h n in_remove1_other[OF ne] by (auto split: if_splits) }
    { assume "x \<in> set (start_turn_duration (creatures w k))"
      then show "x \<in> set (start_turn_duration (creatures w2 k))"
        using h n in_remove1_other[OF ne] by (auto split: if_splits) }
  qed
qed simp

lemma grapple_okE:
  assumes "grapple_ok c w g"
  obtains t r s e where "durations w g = GrappleDuration c t r s e"
    "g \<in> set (grappled (creatures w t))"
    "e \<longrightarrow> g \<in> set (start_turn_duration (creatures w t))"
  using assms by (cases "durations w g") (auto simp add: grapple_ok_def)

lemma grapple_ok_is_grapple_of: "grapple_ok c w g \<Longrightarrow> is_grapple_of c (durations w g)"
  by (auto elim!: grapple_okE simp add: is_grapple_of_def)

lemma grapple_ok_after:
  assumes "grapple_ok c w g'" "g' \<noteq> g"
  shows "grapple_ok c (w\<lparr>creatures := (\<lambda>k. grapple_removed g c t r s e k (creatures w k))\<rparr>) g'"
  using assms(1)
proof (rule grapple_okE)
  fix t' r' s' e'
  assume "durations w g' = GrappleDuration c t' r' s' e'"
    "g' \<in> set (grappled (creatures w t'))"
    "e' \<longrightarrow> g' \<in> set (start_turn_duration (creatures w t'))"
  then show ?thesis
    using assms(2) by (auto simp add: grapple_ok_def)
qed

lemma end_each_own_grapples:
  assumes "grappling (creatures w c) = ds" "distinct ds" "\<forall>g\<in>set ds. grapple_ok c w g"
  shows "\<exists>w'. end_each ds w = Inr w' \<and> grappling (creatures w' c) = []"
  using assms
proof (induction ds arbitrary: w)
  case Nil
  then show ?case by simp
next
  case (Cons g rest)
  from Cons.prems(3) have "grapple_ok c w g" by simp
  then obtain t r s e where d: "durations w g = GrappleDuration c t r s e"
    and m: "g \<in> set (grappled (creatures w t))"
      "e \<longrightarrow> g \<in> set (start_turn_duration (creatures w t))"
    by (rule grapple_okE)
  define w1 where "w1 = w\<lparr>creatures := (\<lambda>k. grapple_removed g c t r s e k (creatures w k))\<rparr>"
  have own: "g \<in> set (grappling (creatures w c))" using Cons.prems(1) by simp
  have e1: "dur_end g w = Inr w1"
    unfolding w1_def by (rule dur_end_grapple[OF d own m])
  have a: "grappling (creatures w1 c) = rest"
    using Cons.prems(1) by (simp add: w1_def)
  have b: "distinct rest" using Cons.prems(2) by simp
  have c: "\<forall>g'\<in>set rest. grapple_ok c w1 g'"
  proof
    fix g' assume g': "g' \<in> set rest"
    then have "g' \<noteq> g" using Cons.prems(2) by auto
    moreover have "grapple_ok c w g'" using Cons.prems(3) g' by simp
    ultimately show "grapple_ok c w1 g'" unfolding w1_def by (rule grapple_ok_after[rotated])
  qed
  from Cons.IH[OF a b c] e1 show ?case by simp
qed

lemma end_each_grapples_removed:
  assumes "end_each ds w = Inr w'" "\<forall>g\<in>set ds. is_grapple_of c (durations w g)" "g \<in> set ds"
    and "distinct (grappled (creatures w (grapple_target (durations w g))))"
  shows "g \<notin> set (grappled (creatures w' (grapple_target (durations w g))))"
  using assms
proof (induction ds arbitrary: w)
  case Nil
  then show ?case by simp
next
  case (Cons d rest)
  from Cons.prems(1) obtain w1 where 1: "dur_end d w = Inr w1" and 2: "end_each rest w1 = Inr w'"
    by (auto simp add: then_do_Inr)
  from Cons.prems(2) obtain t r s e where dd: "durations w d = GrappleDuration c t r s e"
    by (auto elim: is_grapple_ofE)
  have w1: "w1 = w\<lparr>creatures := (\<lambda>k. grapple_removed d c t r s e k (creatures w k))\<rparr>"
    using dur_end_grapple_result[OF dd 1] .
  have all1: "\<forall>g\<in>set rest. is_grapple_of c (durations w1 g)"
    using Cons.prems(2) by (simp add: w1)
  have dur1: "durations w1 = durations w" by (simp add: w1)
  have dist1: "distinct (grappled (creatures w1 (grapple_target (durations w g))))"
    using Cons.prems(4) by (auto simp add: w1)
  show ?case
  proof (cases "g = d")
    case True
    then have "g \<notin> set (grappled (creatures w1 (grapple_target (durations w g))))"
      using Cons.prems(4) dd by (simp add: w1)
    then show ?thesis
      using end_each_grapples_shrink[OF 2 all1] by blast
  next
    case False
    with Cons.prems(3) have "g \<in> set rest" by simp
    from Cons.IH[OF 2 all1 this] dist1 dur1 show ?thesis by simp
  qed
qed

lemma end_each_grapples_counters:
  assumes "end_each ds w = Inr w'" "\<forall>g\<in>set ds. is_grapple_of c (durations w g)"
    and "\<forall>g\<in>set ds. grapple_target (durations w g) \<noteq> k"
  shows "restrained (creatures w' k) = restrained (creatures w k)
         \<and> stunned (creatures w' k) = stunned (creatures w k)"
  using assms
proof (induction ds arbitrary: w)
  case Nil
  then show ?case by simp
next
  case (Cons d rest)
  from Cons.prems(1) obtain w1 where 1: "dur_end d w = Inr w1" and 2: "end_each rest w1 = Inr w'"
    by (auto simp add: then_do_Inr)
  from Cons.prems(2) obtain t r s e where dd: "durations w d = GrappleDuration c t r s e"
    by (auto elim: is_grapple_ofE)
  have w1: "w1 = w\<lparr>creatures := (\<lambda>k. grapple_removed d c t r s e k (creatures w k))\<rparr>"
    using dur_end_grapple_result[OF dd 1] .
  have all1: "\<forall>g\<in>set rest. is_grapple_of c (durations w1 g)"
    using Cons.prems(2) by (simp add: w1)
  have t1: "\<forall>g\<in>set rest. grapple_target (durations w1 g) \<noteq> k"
    using Cons.prems(3) by (simp add: w1)
  have "t \<noteq> k" using Cons.prems(3) dd by auto
  then show ?case
    using Cons.IH[OF 2 all1 t1] by (simp add: w1)
qed

section \<open>Releasing swallowed creatures\<close>

lemma swallow_removed_fields [simp]:
  "species (swallow_removed d sw t k x) = species x"
  "grappling (swallow_removed d sw t k x) = grappling x"
  "grappled (swallow_removed d sw t k x) = grappled x"
  "concentration (swallow_removed d sw t k x) = concentration x"
  "spirit_guardians (swallow_removed d sw t k x) = spirit_guardians x"
  "damage_taken_this_turn (swallow_removed d sw t k x) = damage_taken_this_turn x"
  "swallowed_creatures (swallow_removed d sw t k x) =
     (if k = sw then remove1 t (swallowed_creatures x) else swallowed_creatures x)"
  "swallowed (swallow_removed d sw t k x) = (if k = t then None else swallowed x)"
  "start_turn_duration (swallow_removed d sw t k x) =
     (if k = t then remove1 d (start_turn_duration x) else start_turn_duration x)"
  "end_turn_duration (swallow_removed d sw t k x) =
     (if k = t then remove1 d (end_turn_duration x) else end_turn_duration x)"
  "blinded (swallow_removed d sw t k x) = (if k = t then blinded x - 1 else blinded x)"
  "restrained (swallow_removed d sw t k x) = (if k = t then restrained x - 1 else restrained x)"
  "prone (swallow_removed d sw t k x) = (if k = t then True else prone x)"
  by (simp_all add: swallow_removed_def)

lemma swallow_okE:
  assumes "swallow_ok c w t"
  obtains d th dc where "swallowed (creatures w t) = Some d"
    "durations w d = SwallowedDuration c t th dc"
    "d \<in> set (start_turn_duration (creatures w t))"
    "d \<in> set (end_turn_duration (creatures w t))"
  using assms
  by (cases "swallowed (creatures w t)"; cases "durations w (the (swallowed (creatures w t)))")
     (auto simp add: swallow_ok_def)

lemma swallow_ok_after:
  assumes "swallow_ok c w t'" "t' \<noteq> t"
  shows "swallow_ok c (w\<lparr>creatures := (\<lambda>k. swallow_removed d c t k (creatures w k))\<rparr>) t'"
  using assms(1)
proof (rule swallow_okE)
  fix d' th dc
  assume "swallowed (creatures w t') = Some d'"
    "durations w d' = SwallowedDuration c t' th dc"
    "d' \<in> set (start_turn_duration (creatures w t'))"
    "d' \<in> set (end_turn_duration (creatures w t'))"
  then show ?thesis
    using assms(2) by (auto simp add: swallow_ok_def)
qed

lemma release_own_swallowed:
  assumes "species (creatures w c) = Behir" "swallowed_creatures (creatures w c) = ts"
    "distinct ts" "\<forall>t\<in>set ts. swallow_ok c w t"
  shows "\<exists>w'. release_swallowed ts w = Inr w'
     \<and> swallowed_creatures (creatures w' c) = []
     \<and> (\<forall>t\<in>set ts. swallowed (creatures w' t) = None
           \<and> blinded (creatures w' t) = blinded (creatures w t) - 1
           \<and> restrained (creatures w' t) = restrained (creatures w t) - 1
           \<and> prone (creatures w' t))
     \<and> (\<forall>k. k \<notin> set ts \<longrightarrow> swallowed (creatures w' k) = swallowed (creatures w k)
           \<and> blinded (creatures w' k) = blinded (creatures w k)
           \<and> restrained (creatures w' k) = restrained (creatures w k)
           \<and> prone (creatures w' k) = prone (creatures w k))
     \<and> (\<forall>k. grappling (creatures w' k) = grappling (creatures w k)
           \<and> grappled (creatures w' k) = grappled (creatures w k)
           \<and> concentration (creatures w' k) = concentration (creatures w k))"
  using assms
proof (induction ts arbitrary: w)
  case Nil
  then show ?case by simp
next
  case (Cons t rest)
  from Cons.prems(4) have "swallow_ok c w t" by simp
  then obtain d th dc where sd: "swallowed (creatures w t) = Some d"
    and dd: "durations w d = SwallowedDuration c t th dc"
    and m: "d \<in> set (start_turn_duration (creatures w t))"
      "d \<in> set (end_turn_duration (creatures w t))"
    by (rule swallow_okE)
  define w1 where "w1 = w\<lparr>creatures := (\<lambda>k. swallow_removed d c t k (creatures w k))\<rparr>"
  have own: "t \<in> set (swallowed_creatures (creatures w c))" using Cons.prems(2) by simp
  have e1: "dur_end d w = Inr w1"
    unfolding w1_def by (rule dur_end_swallowed[OF dd Cons.prems(1) own m])
  have a: "species (creatures w1 c) = Behir" using Cons.prems(1) by (simp add: w1_def)
  have b: "swallowed_creatures (creatures w1 c) = rest"
    using Cons.prems(2) by (simp add: w1_def)
  have c: "distinct rest" and tn: "t \<notin> set rest" using Cons.prems(3) by simp_all
  have ok: "\<forall>t'\<in>set rest. swallow_ok c w1 t'"
  proof
    fix t' assume t': "t' \<in> set rest"
    then have "t' \<noteq> t" using tn by auto
    moreover have "swallow_ok c w t'" using Cons.prems(4) t' by simp
    ultimately show "swallow_ok c w1 t'" unfolding w1_def by (rule swallow_ok_after[rotated])
  qed
  from Cons.IH[OF a b c ok] obtain w' where
    r: "release_swallowed rest w1 = Inr w'" and
    q1: "swallowed_creatures (creatures w' c) = []" and
    q2: "\<forall>t\<in>set rest. swallowed (creatures w' t) = None
           \<and> blinded (creatures w' t) = blinded (creatures w1 t) - 1
           \<and> restrained (creatures w' t) = restrained (creatures w1 t) - 1
           \<and> prone (creatures w' t)" and
    q3: "\<forall>k. k \<notin> set rest \<longrightarrow> swallowed (creatures w' k) = swallowed (creatures w1 k)
           \<and> blinded (creatures w' k) = blinded (creatures w1 k)
           \<and> restrained (creatures w' k) = restrained (creatures w1 k)
           \<and> prone (creatures w' k) = prone (creatures w1 k)" and
    q4: "\<forall>k. grappling (creatures w' k) = grappling (creatures w1 k)
           \<and> grappled (creatures w' k) = grappled (creatures w1 k)
           \<and> concentration (creatures w' k) = concentration (creatures w1 k)"
    by blast
  have run: "release_swallowed (t # rest) w = Inr w'"
    using sd e1 r by simp
  have p2: "\<forall>x\<in>set (t # rest). swallowed (creatures w' x) = None
           \<and> blinded (creatures w' x) = blinded (creatures w x) - 1
           \<and> restrained (creatures w' x) = restrained (creatures w x) - 1
           \<and> prone (creatures w' x)"
  proof
    fix x assume x: "x \<in> set (t # rest)"
    show "swallowed (creatures w' x) = None
           \<and> blinded (creatures w' x) = blinded (creatures w x) - 1
           \<and> restrained (creatures w' x) = restrained (creatures w x) - 1
           \<and> prone (creatures w' x)"
    proof (cases "x = t")
      case True
      then show ?thesis using q3[rule_format, of t] tn by (simp add: w1_def)
    next
      case False
      with x have "x \<in> set rest" by simp
      then show ?thesis using q2[rule_format, of x] False by (simp add: w1_def)
    qed
  qed
  have p3: "\<forall>k. k \<notin> set (t # rest) \<longrightarrow> swallowed (creatures w' k) = swallowed (creatures w k)
           \<and> blinded (creatures w' k) = blinded (creatures w k)
           \<and> restrained (creatures w' k) = restrained (creatures w k)
           \<and> prone (creatures w' k) = prone (creatures w k)"
  proof (intro allI impI)
    fix k assume "k \<notin> set (t # rest)"
    then have "k \<noteq> t" "k \<notin> set rest" by simp_all
    then show "swallowed (creatures w' k) = swallowed (creatures w k)
           \<and> blinded (creatures w' k) = blinded (creatures w k)
           \<and> restrained (creatures w' k) = restrained (creatures w k)
           \<and> prone (creatures w' k) = prone (creatures w k)"
      using q3[rule_format, of k] by (simp add: w1_def)
  qed
  have p4: "\<forall>k. grappling (creatures w' k) = grappling (creatures w k)
           \<and> grappled (creatures w' k) = grappled (creatures w k)
           \<and> concentration (creatures w' k) = concentration (creatures w k)"
    using q4 by (simp add: w1_def)
  show ?case
    using run q1 p2 p3 p4 by blast
qed

section \<open>Ending a concentration spell\<close>

lemma same_outside_spells_refl [simp]: "same_outside_spells w w"
  by (simp add: same_outside_spells_def)

lemma same_outside_spells_modify:
  "same_outside_spells w w1 \<Longrightarrow> (\<And>y. outside_spells (f y) = outside_spells y) \<Longrightarrow>
   same_outside_spells w (modify c f w1)"
  by (simp add: same_outside_spells_def)

lemma outside_spells_updates [simp]:
  "outside_spells (concentration_update go y) = outside_spells y"
  "outside_spells (baned_update gi y) = outside_spells y"
  "outside_spells (blessed_update gi y) = outside_spells y"
  "outside_spells (invisible_update gi y) = outside_spells y"
  "outside_spells (base_armor_class_update gi y) = outside_spells y"
  "outside_spells (spirit_guardians_update gl y) = outside_spells y"
  by (simp_all add: outside_spells_def)

lemma for_targets_outside_spells:
  "(\<And>y. outside_spells (f y) = outside_spells y) \<Longrightarrow> same_outside_spells w w1 \<Longrightarrow>
   same_outside_spells w (for_targets f ts w1)"
  by (induction ts arbitrary: w1) (simp_all add: same_outside_spells_modify)

lemma remove_guardians_outside_spells:
  "remove_guardians sp ts w1 = Inr w' \<Longrightarrow> same_outside_spells w w1 \<Longrightarrow>
   same_outside_spells w w'"
proof (induction ts arbitrary: w1)
  case Nil
  then show ?case by simp
next
  case (Cons t ts)
  then obtain w2 where 1: "remove_from spirit_guardians spirit_guardians_update t sp w1 = Inr w2"
    and 2: "remove_guardians sp ts w2 = Inr w'"
    by (auto simp add: then_do_Inr)
  from 1 Cons.prems(2) have "same_outside_spells w w2"
    by (auto simp add: remove_from_def list_remove_def same_outside_spells_def split: if_splits)
  then show ?case using Cons.IH[OF 2] by simp
qed

lemma spell_end_outside_spells:
  assumes "spell_end sp w = Inr w'"
  shows "same_outside_spells w w'"
proof (cases "spells w sp")
  case (SpiritGuardians caster targets)
  with assms have "remove_guardians sp targets
      (modify caster (\<lambda>c. c\<lparr>concentration := None\<rparr>) w) = Inr w'"
    by (simp add: spell_end_def)
  then show ?thesis
    by (rule remove_guardians_outside_spells) (simp add: same_outside_spells_modify)
qed (insert assms, auto simp add: spell_end_def
      intro!: for_targets_outside_spells same_outside_spells_modify)

lemma outside_spells_fields:
  "species (outside_spells x) = species x"
  "prone (outside_spells x) = prone x"
  "grappling (outside_spells x) = grappling x"
  "grappled (outside_spells x) = grappled x"
  "swallowed (outside_spells x) = swallowed x"
  "swallowed_creatures (outside_spells x) = swallowed_creatures x"
  "blinded (outside_spells x) = blinded x"
  "restrained (outside_spells x) = restrained x"
  "start_turn_duration (outside_spells x) = start_turn_duration x"
  "end_turn_duration (outside_spells x) = end_turn_duration x"
  "engulfed_creatures (outside_spells x) = engulfed_creatures x"
  by (simp_all add: outside_spells_def)

lemma same_outside_spells_fields:
  assumes "same_outside_spells w w'"
  shows "species (creatures w' k) = species (creatures w k)"
  "prone (creatures w' k) = prone (creatures w k)"
  "grappling (creatures w' k) = grappling (creatures w k)"
  "grappled (creatures w' k) = grappled (creatures w k)"
  "swallowed (creatures w' k) = swallowed (creatures w k)"
  "swallowed_creatures (creatures w' k) = swallowed_creatures (creatures w k)"
  "blinded (creatures w' k) = blinded (creatures w k)"
  "restrained (creatures w' k) = restrained (creatures w k)"
  "start_turn_duration (creatures w' k) = start_turn_duration (creatures w k)"
  "end_turn_duration (creatures w' k) = end_turn_duration (creatures w k)"
  "engulfed_creatures (creatures w' k) = engulfed_creatures (creatures w k)"
  "durations w' = durations w"
proof -
  have e: "outside_spells (creatures w' k) = outside_spells (creatures w k)"
    using assms by (simp add: same_outside_spells_def)
  show "species (creatures w' k) = species (creatures w k)"
    using arg_cong[OF e, of species] by (simp add: outside_spells_fields)
  show "prone (creatures w' k) = prone (creatures w k)"
    using arg_cong[OF e, of prone] by (simp add: outside_spells_fields)
  show "grappling (creatures w' k) = grappling (creatures w k)"
    using arg_cong[OF e, of grappling] by (simp add: outside_spells_fields)
  show "grappled (creatures w' k) = grappled (creatures w k)"
    using arg_cong[OF e, of grappled] by (simp add: outside_spells_fields)
  show "swallowed (creatures w' k) = swallowed (creatures w k)"
    using arg_cong[OF e, of swallowed] by (simp add: outside_spells_fields)
  show "swallowed_creatures (creatures w' k) = swallowed_creatures (creatures w k)"
    using arg_cong[OF e, of swallowed_creatures] by (simp add: outside_spells_fields)
  show "blinded (creatures w' k) = blinded (creatures w k)"
    using arg_cong[OF e, of blinded] by (simp add: outside_spells_fields)
  show "restrained (creatures w' k) = restrained (creatures w k)"
    using arg_cong[OF e, of restrained] by (simp add: outside_spells_fields)
  show "start_turn_duration (creatures w' k) = start_turn_duration (creatures w k)"
    using arg_cong[OF e, of start_turn_duration] by (simp add: outside_spells_fields)
  show "end_turn_duration (creatures w' k) = end_turn_duration (creatures w k)"
    using arg_cong[OF e, of end_turn_duration] by (simp add: outside_spells_fields)
  show "engulfed_creatures (creatures w' k) = engulfed_creatures (creatures w k)"
    using arg_cong[OF e, of engulfed_creatures] by (simp add: outside_spells_fields)
  show "durations w' = durations w" using assms by (simp add: same_outside_spells_def)
qed

lemma remove_guardians_returns:
  assumes "distinct ts" "\<forall>t\<in>set ts. sp \<in> set (spirit_guardians (creatures w t))"
  shows "\<exists>w'. remove_guardians sp ts w = Inr w'"
  using assms
proof (induction ts arbitrary: w)
  case Nil
  then show ?case by simp
next
  case (Cons t ts)
  define w1 where "w1 = modify t (spirit_guardians_update
      (\<lambda>_. remove1 sp (spirit_guardians (creatures w t)))) w"
  have 1: "remove_from spirit_guardians spirit_guardians_update t sp w = Inr w1"
    using Cons.prems(2) by (simp add: remove_from_def list_remove_def w1_def)
  have "\<forall>t'\<in>set ts. sp \<in> set (spirit_guardians (creatures w1 t'))"
    using Cons.prems by (auto simp add: w1_def)
  with Cons.IH[of w1] Cons.prems(1) obtain w' where "remove_guardians sp ts w1 = Inr w'"
    by auto
  with 1 show ?case by simp
qed

lemma spell_end_returns:
  assumes "spell_ok c w sp"
  shows "\<exists>w'. spell_end sp w = Inr w'"
proof (cases "spells w sp")
  case (SpiritGuardians caster targets)
  with assms have "distinct targets"
    "\<forall>t\<in>set targets. sp \<in> set (spirit_guardians
        (creatures (modify caster (\<lambda>c. c\<lparr>concentration := None\<rparr>) w) t))"
    by (simp_all add: spell_ok_def)
  from remove_guardians_returns[OF this] SpiritGuardians show ?thesis
    by (simp add: spell_end_def)
qed (simp_all add: spell_end_def)

section \<open>Falling unconscious\<close>

text \<open>The sample state is what the constructors build.\<close>

lemma behir_world_constructed:
  "then_do (create_grapple 0 1 True False False
              (modify 0 (\<lambda>c. c\<lparr>species := Behir, concentration := Some 0\<rparr>) default_world))
     (\<lambda>w. then_do (create_swallowed 0 2 30 14 w) (create_grapple 3 0 False False False))
   = Inr behir_world"
  by (simp add: create_grapple_def create_swallowed_def new_duration_def append_to_def
      list_attribute_def set_list_attribute_def Let_def modify_def behir_world_def
      default_world_def default_creature_def fun_eq_iff)

lemma grapple_ok_prone [simp]:
  "grapple_ok c (modify k (\<lambda>x. x\<lparr>prone := True\<rparr>) w) g = grapple_ok c w g"
  by (simp add: grapple_ok_def split: duration.splits)

lemma end_each_grapples_engulfed:
  assumes "end_each ds w = Inr w'" "\<forall>g\<in>set ds. is_grapple_of c (durations w g)"
  shows "\<forall>k. engulfed_creatures (creatures w' k) = engulfed_creatures (creatures w k)"
  by (rule end_each_grapples_induct[OF assms]) (simp_all add: grapple_removed_def)

lemma fall_unconscious_ends_grapples:
  assumes "\<not> (death_ward (creatures w c) \<and> 0 < total_hp (creatures w c))"
    and "well_linked c w"
  shows "\<exists>w1. fall_unconscious c w = Inr w1
     \<and> durations w1 = durations w
     \<and> prone (creatures w1 c)
     \<and> grappling (creatures w1 c) = []
     \<and> (\<forall>g\<in>set (grappling (creatures w c)).
           g \<notin> set (grappled (creatures w1 (grapple_target (durations w g)))))
     \<and> (\<forall>x k. \<not> is_grapple_of c (durations w x) \<longrightarrow>
           (x \<in> set (grappled (creatures w k)) \<longrightarrow> x \<in> set (grappled (creatures w1 k)))
           \<and> (x \<in> set (grappling (creatures w k)) \<longrightarrow> x \<in> set (grappling (creatures w1 k)))
           \<and> (x \<in> set (start_turn_duration (creatures w k))
                 \<longrightarrow> x \<in> set (start_turn_duration (creatures w1 k))))
     \<and> concentration (creatures w1 c) = None
     \<and> (\<forall>k. species (creatures w1 k) = species (creatures w k)
           \<and> swallowed (creatures w1 k) = swallowed (creatures w k)
           \<and> swallowed_creatures (creatures w1 k) = swallowed_creatures (creatures w k)
           \<and> engulfed_creatures (creatures w1 k) = engulfed_creatures (creatures w k)
           \<and> end_turn_duration (creatures w1 k) = end_turn_duration (creatures w k)
           \<and> blinded (creatures w1 k) = blinded (creatures w k))"
proof -
  define ds where "ds = grappling (creatures w c)"
  define w0 where "w0 = modify c (\<lambda>x. x\<lparr>prone := True\<rparr>) w"
  have ds0: "grappling (creatures w0 c) = ds" by (simp add: w0_def ds_def)
  have dist: "distinct ds" using assms(2) by (simp add: well_linked_def ds_def)
  have ok: "\<forall>g\<in>set ds. grapple_ok c w0 g"
    using assms(2) by (simp add: well_linked_def ds_def w0_def)
  have dur0: "durations w0 = durations w" "spells w0 = spells w" by (simp_all add: w0_def)
  have f0: "\<And>k. grappled (creatures w0 k) = grappled (creatures w k)"
    "\<And>k. grappling (creatures w0 k) = grappling (creatures w k)"
    "\<And>k. start_turn_duration (creatures w0 k) = start_turn_duration (creatures w k)"
    "\<And>k. species (creatures w0 k) = species (creatures w k)"
    "\<And>k. swallowed (creatures w0 k) = swallowed (creatures w k)"
    "\<And>k. swallowed_creatures (creatures w0 k) = swallowed_creatures (creatures w k)"
    "\<And>k. engulfed_creatures (creatures w0 k) = engulfed_creatures (creatures w k)"
    "\<And>k. end_turn_duration (creatures w0 k) = end_turn_duration (creatures w k)"
    "\<And>k. blinded (creatures w0 k) = blinded (creatures w k)"
    "\<And>k. concentration (creatures w0 k) = concentration (creatures w k)"
    "\<And>k. spirit_guardians (creatures w0 k) = spirit_guardians (creatures w k)"
    "prone (creatures w0 c)"
    by (simp_all add: w0_def)
  from end_each_own_grapples[OF ds0 dist ok] obtain wa where
    ea: "end_each ds w0 = Inr wa" and ga: "grappling (creatures wa c) = []" by blast
  have isg: "\<forall>g\<in>set ds. is_grapple_of c (durations w0 g)"
    using ok by (auto intro: grapple_ok_is_grapple_of)
  note fr = end_each_grapples_frame[OF ea isg]
  note en = end_each_grapples_engulfed[OF ea isg]
  have dura: "durations wa = durations w" using fr dur0 by simp
  have rem: "\<forall>g\<in>set ds. g \<notin> set (grappled (creatures wa (grapple_target (durations w g))))"
  proof
    fix g assume g: "g \<in> set ds"
    have "distinct (grappled (creatures w (grapple_target (durations w g))))"
      using assms(2) g by (simp add: well_linked_def ds_def)
    then have "distinct (grappled (creatures w0 (grapple_target (durations w0 g))))"
      by (simp add: f0 dur0)
    from end_each_grapples_removed[OF ea isg g this]
    show "g \<notin> set (grappled (creatures wa (grapple_target (durations w g))))"
      by (simp add: dur0)
  qed
  have keep: "\<And>x k. \<not> is_grapple_of c (durations w x) \<Longrightarrow>
           (x \<in> set (grappled (creatures w k)) \<longrightarrow> x \<in> set (grappled (creatures wa k)))
           \<and> (x \<in> set (grappling (creatures w k)) \<longrightarrow> x \<in> set (grappling (creatures wa k)))
           \<and> (x \<in> set (start_turn_duration (creatures w k))
                 \<longrightarrow> x \<in> set (start_turn_duration (creatures wa k)))"
  proof -
    fix x k assume n: "\<not> is_grapple_of c (durations w x)"
    from end_each_grapples_keeps[OF ea isg, of x k] n
    show "(x \<in> set (grappled (creatures w k)) \<longrightarrow> x \<in> set (grappled (creatures wa k)))
           \<and> (x \<in> set (grappling (creatures w k)) \<longrightarrow> x \<in> set (grappling (creatures wa k)))
           \<and> (x \<in> set (start_turn_duration (creatures w k))
                 \<longrightarrow> x \<in> set (start_turn_duration (creatures wa k)))"
      by (simp add: f0 dur0)
  qed
  have fra: "\<And>k. species (creatures wa k) = species (creatures w k)
           \<and> swallowed (creatures wa k) = swallowed (creatures w k)
           \<and> swallowed_creatures (creatures wa k) = swallowed_creatures (creatures w k)
           \<and> engulfed_creatures (creatures wa k) = engulfed_creatures (creatures w k)
           \<and> end_turn_duration (creatures wa k) = end_turn_duration (creatures w k)
           \<and> blinded (creatures wa k) = blinded (creatures w k)
           \<and> concentration (creatures wa k) = concentration (creatures w k)
           \<and> spirit_guardians (creatures wa k) = spirit_guardians (creatures w k)"
  proof -
    fix k
    from fr en[rule_format, of k] show "species (creatures wa k) = species (creatures w k)
           \<and> swallowed (creatures wa k) = swallowed (creatures w k)
           \<and> swallowed_creatures (creatures wa k) = swallowed_creatures (creatures w k)
           \<and> engulfed_creatures (creatures wa k) = engulfed_creatures (creatures w k)
           \<and> end_turn_duration (creatures wa k) = end_turn_duration (creatures w k)
           \<and> blinded (creatures wa k) = blinded (creatures w k)
           \<and> concentration (creatures wa k) = concentration (creatures w k)
           \<and> spirit_guardians (creatures wa k) = spirit_guardians (creatures w k)"
      by (simp add: f0)
  qed
  have pa: "prone (creatures wa c)" using fr by (simp add: f0)
  have spa: "spells wa = spells w" using fr by (simp add: dur0)
  have run: "fall_unconscious c w =
      (case concentration (creatures w c) of None \<Rightarrow> Inr wa | Some sp \<Rightarrow> spell_end sp wa)"
  proof -
    have "fall_unconscious c w =
        then_do (end_each (grappling (creatures w0 c)) w0)
           (\<lambda>w2. case concentration (creatures w2 c) of
                    None \<Rightarrow> Inr w2
                  | Some sp \<Rightarrow> spell_end sp w2)"
      using assms(1) by (auto simp add: fall_unconscious_def Let_def w0_def)
    then show ?thesis using ea ds0 fra[of c] by simp
  qed
  show ?thesis
  proof (cases "concentration (creatures w c)")
    case None
    with run have "fall_unconscious c w = Inr wa" by simp
    moreover have "concentration (creatures wa c) = None" using fra[of c] None by simp
    ultimately show ?thesis using dura pa ga rem keep fra by (simp add: ds_def)
  next
    case (Some sp)
    with assms(2) have so: "spell_ok c w sp" by (simp add: well_linked_def)
    have "spell_ok c wa sp"
      using so fra spa by (simp add: spell_ok_def split: spell.splits)
    from spell_end_returns[OF this] obtain w1 where se: "spell_end sp wa = Inr w1" by blast
    from run Some se have r1: "fall_unconscious c w = Inr w1" by simp
    note os = same_outside_spells_fields[OF spell_end_outside_spells[OF se]]
    have "spell_caster (spells wa sp) = c" using so spa by (simp add: spell_ok_def)
    with spell_end_concentration[OF se, of c] have c1: "concentration (creatures w1 c) = None"
      by simp
    show ?thesis
      using r1 c1 dura pa ga rem keep fra by (simp add: ds_def os)
  qed
qed

lemma swallow_ok_transfer:
  assumes "swallow_ok c w t"
    and "durations w1 = durations w"
    and "swallowed (creatures w1 t) = swallowed (creatures w t)"
    and "end_turn_duration (creatures w1 t) = end_turn_duration (creatures w t)"
    and "\<And>x. \<not> is_grapple_of c (durations w x) \<Longrightarrow>
           x \<in> set (start_turn_duration (creatures w t)) \<Longrightarrow>
           x \<in> set (start_turn_duration (creatures w1 t))"
  shows "swallow_ok c w1 t"
  using assms(1)
proof (rule swallow_okE)
  fix d th dc
  assume h: "swallowed (creatures w t) = Some d" "durations w d = SwallowedDuration c t th dc"
    "d \<in> set (start_turn_duration (creatures w t))"
    "d \<in> set (end_turn_duration (creatures w t))"
  have "\<not> is_grapple_of c (durations w d)" using h(2) by (simp add: is_grapple_of_def)
  from assms(5)[OF this h(3)] h assms(2,3,4) show ?thesis
    by (simp add: swallow_ok_def)
qed


lemma behir_world_facts:
  "\<not> (death_ward (creatures behir_world 0) \<and> 0 < total_hp (creatures behir_world 0))"
  "well_linked 0 behir_world"
  "grappling (creatures behir_world 0) = [0]"
  "grappled (creatures behir_world 0) = [2]"
  "swallowed_creatures (creatures behir_world 0) = [2]"
  "species (creatures behir_world 0) = Behir"
  "durations behir_world 0 = GrappleDuration 0 1 True False False"
  "durations behir_world 2 = GrappleDuration 3 0 False False False"
  "blinded (creatures behir_world 2) = 1"
  by (simp_all add: behir_world_def default_world_def default_creature_def well_linked_def
      grapple_ok_def spell_ok_def swallow_ok_def)



section \<open>The swallower's tally of damage\<close>

lemma same_tally_refl [simp]: "same_tally w w"
  by (simp add: same_tally_def)

lemma same_tally_trans: "same_tally w w1 \<Longrightarrow> same_tally w1 w2 \<Longrightarrow> same_tally w w2"
  by (simp add: same_tally_def)

lemma same_tally_modify:
  "(\<And>y. damage_taken_this_turn (f y) = damage_taken_this_turn y) \<Longrightarrow>
   same_tally w (modify c f w)"
  by (simp add: same_tally_def)

lemma tally_untouched: "damage_taken_this_turn (untouched x) = damage_taken_this_turn x"
  by (simp add: untouched_def)

lemma untouched_tally:
  assumes "same_untouched w w'" "durations w' = durations w"
  shows "same_tally w w'"
proof -
  have "damage_taken_this_turn (creatures w' k) = damage_taken_this_turn (creatures w k)" for k
    using assms(1) unfolding same_untouched_def by (metis tally_untouched)
  with assms(2) show ?thesis by (simp add: same_tally_def)
qed

lemma dur_end_tally: "dur_end d w = Inr w' \<Longrightarrow> same_tally w w'"
  using dur_end_untouched dur_end_outside untouched_tally same_outside_def by metis

lemma end_each_tally: "end_each ds w = Inr w' \<Longrightarrow> same_tally w w'"
  using end_each_untouched end_each_outside untouched_tally same_outside_def by metis

lemma release_swallowed_tally: "release_swallowed ts w = Inr w' \<Longrightarrow> same_tally w w'"
  using release_swallowed_untouched release_swallowed_outside untouched_tally same_outside_def
  by metis

lemma release_engulfed_tally: "release_engulfed ts w = Inr w' \<Longrightarrow> same_tally w w'"
  using release_engulfed_untouched release_engulfed_outside untouched_tally same_outside_def
  by metis

lemma spell_end_tally: "spell_end sp w = Inr w' \<Longrightarrow> same_tally w w'"
  using spell_end_untouched spell_end_concentration untouched_tally by metis

lemma fall_unconscious_tally:
  assumes "fall_unconscious c w = Inr w'"
  shows "same_tally w w'"
proof (cases "death_ward (creatures w c) \<and> total_hp (creatures w c) > 0")
  case True
  with assms have "w' = modify c (\<lambda>x. x\<lparr>death_ward := False, hp := 1\<rparr>) w"
    by (simp add: fall_unconscious_def)
  then show ?thesis by (simp add: same_tally_modify)
next
  case False
  with assms obtain w2 where
    1: "end_each (grappling (creatures (modify c (\<lambda>x. x\<lparr>prone := True\<rparr>) w) c))
          (modify c (\<lambda>x. x\<lparr>prone := True\<rparr>) w) = Inr w2" and
    2: "(case concentration (creatures w2 c) of None \<Rightarrow> Inr w2 | Some sp \<Rightarrow> spell_end sp w2) = Inr w'"
    by (auto simp add: fall_unconscious_def Let_def then_do_Inr)
  have a: "same_tally w (modify c (\<lambda>x. x\<lparr>prone := True\<rparr>) w)" by (simp add: same_tally_modify)
  have b: "same_tally w2 w'"
    using 2 spell_end_tally by (auto split: option.splits)
  show ?thesis
    using a end_each_tally[OF 1] b same_tally_trans by blast
qed

lemma fall_unconscious_of_tally:
  assumes "fall_unconscious_of c w = Inr w'"
  shows "same_tally w w'"
  using assms
  by (cases "species (creatures w c)")
     (auto simp add: fall_unconscious_of_def then_do_Inr
        dest!: release_swallowed_tally release_engulfed_tally fall_unconscious_tally
        intro: same_tally_trans)

lemma take_damage_type_tally: "same_tally w (snd (take_damage_type c d t w))"
  by (simp add: take_damage_type_snd same_tally_modify)

lemma durations_roll_save [simp]: "durations (snd (roll_save c ab adv disadv w)) = durations w"
  by (simp add: roll_save_def Let_def split: prod.splits)

lemma durations_saving_throw [simp]:
  "durations (snd (saving_throw c ab dc adv disadv st w)) = durations w"
proof -
  have "\<And>a d. durations (snd (case roll_save c ab a d w of (result, w1) \<Rightarrow> (dc \<le> result, w1)))
      = durations w"
    by (simp add: case_prod_beta)
  then show ?thesis
    unfolding saving_throw_def Let_def by (simp split: if_splits)
qed

lemma saving_throw_tally: "same_tally w (snd (saving_throw c ab dc adv disadv st w))"
  by (simp add: same_tally_def)

lemma take_damage_tally:
  assumes "take_damage c pd pt dealer ranged sd st w = Inr (taken, w')"
  shows "same_tally w w'"
proof -
  define P where "P = fst (take_damage_type c pd pt w)"
  define w1 where "w1 = snd (take_damage_type c pd pt w)"
  define S where "S = (case st of Some t \<Rightarrow> fst (take_damage_type c sd t w1) | None \<Rightarrow> 0)"
  define w2 where "w2 = (case st of Some t \<Rightarrow> snd (take_damage_type c sd t w1) | None \<Rightarrow> w1)"
  have r1: "same_tally w w1" unfolding w1_def by (rule take_damage_type_tally)
  have r2: "same_tally w w2"
    unfolding w2_def using r1 take_damage_type_tally same_tally_trans
    by (cases st) auto
  have "then_do (if hp (creatures w2 c) = 0 then fall_unconscious_of c w2 else Inr w2)
           (\<lambda>w3. then_do
                    (case concentration (creatures w3 c) of
                       None \<Rightarrow> Inr w3
                     | Some sp \<Rightarrow>
                         if P + S > 0 then
                           (case saving_throw c a_con (max 10 (int_half (P + S)))
                                   (war_caster (creatures w3 c)) False None w3 of
                              (ok, w4) \<Rightarrow> if \<not> ok then spell_end sp w4 else Inr w4)
                         else Inr w3)
           (\<lambda>w5. then_do
                    (case turned (creatures w5 c) of
                       None \<Rightarrow> Inr w5
                     | Some t \<Rightarrow> dur_end t w5)
           (\<lambda>w6. Inr ((P, S), w6)))) = Inr (taken, w')"
    using assms(1) unfolding take_damage_phases Let_def P_def S_def w2_def w1_def .
  then obtain w3 w5 where
    3: "(if hp (creatures w2 c) = 0 then fall_unconscious_of c w2 else Inr w2) = Inr w3" and
    5: "(case concentration (creatures w3 c) of
           None \<Rightarrow> Inr w3
         | Some sp \<Rightarrow>
             if P + S > 0 then
               (case saving_throw c a_con (max 10 (int_half (P + S)))
                       (war_caster (creatures w3 c)) False None w3 of
                  (ok, w4) \<Rightarrow> if \<not> ok then spell_end sp w4 else Inr w4)
             else Inr w3) = Inr w5" and
    6: "(case turned (creatures w5 c) of None \<Rightarrow> Inr w5 | Some t \<Rightarrow> dur_end t w5) = Inr w'"
    unfolding then_do_Inr by auto
  have r3: "same_tally w w3"
    using 3 r2 fall_unconscious_of_tally same_tally_trans by (auto split: if_splits)
  have r5: "same_tally w w5"
  proof (cases "concentration (creatures w3 c)")
    case None
    with 5 r3 show ?thesis by simp
  next
    case (Some sp)
    show ?thesis
    proof (cases "P + S > 0")
      case False
      with 5 Some r3 show ?thesis by simp
    next
      case True
      obtain ok w4 where s: "saving_throw c a_con (max 10 (int_half (P + S)))
                       (war_caster (creatures w3 c)) False None w3 = (ok, w4)"
        by (cases "saving_throw c a_con (max 10 (int_half (P + S)))
                       (war_caster (creatures w3 c)) False None w3")
      have r4: "same_tally w w4"
        using saving_throw_tally[of w3 c a_con "max 10 (int_half (P + S))"
            "war_caster (creatures w3 c)" False None] s r3 same_tally_trans by fastforce
      from 5 Some True s have e: "(if \<not> ok then spell_end sp w4 else Inr w4) = Inr w5" by simp
      show ?thesis
      proof (cases ok)
        case True
        with e r4 show ?thesis by simp
      next
        case False
        with e have "spell_end sp w4 = Inr w5" by simp
        then show ?thesis
          using r4 spell_end_tally same_tally_trans by blast
      qed
    qed
  qed
  show ?thesis
  proof (cases "turned (creatures w5 c)")
    case None
    with 6 r5 show ?thesis by simp
  next
    case (Some t)
    with 6 have "dur_end t w5 = Inr w'" by simp
    then show ?thesis
      using r5 dur_end_tally same_tally_trans by blast
  qed
qed

lemma take_damage_of_no_dealer_tally:
  assumes "take_damage_of c pd pt None ranged sd st w = Inr (taken, w')"
  shows "same_tally w w'"
proof (cases "species (creatures w c) = Behir")
  case False
  with assms show ?thesis
    using take_damage_tally
    by (cases "species (creatures w c)") (auto simp add: take_damage_of_def)
next
  case True
  with assms obtain r where "take_damage c pd pt None ranged sd st w = Inr (r, w')"
    by (auto simp add: take_damage_of_def behir_take_damage_def then_do_Inr case_prod_beta)
  then show ?thesis by (rule take_damage_tally)
qed

lemma same_reset_tally: "same_tally w w' \<Longrightarrow> reset_tally w w'"
  by (simp add: same_tally_def reset_tally_def)

lemma reset_tally_refl [simp]: "reset_tally w w"
  by (simp add: reset_tally_def)

lemma reset_tally_trans: "reset_tally w w1 \<Longrightarrow> reset_tally w1 w2 \<Longrightarrow> reset_tally w w2"
  unfolding reset_tally_def by metis

lemma get_set_duration:
  "get_duration x = Some n \<Longrightarrow> get_duration (set_duration v x) = Some v"
  by (cases x) simp_all

lemma tick_tally:
  assumes "tick d w = Inr w'"
  shows "same_tally w w'"
proof (cases "is_grapple (durations w d)")
  case True
  with assms show ?thesis by (simp add: tick_def)
next
  case False
  with assms obtain n where n: "get_duration (durations w d) = Some n"
    by (cases "get_duration (durations w d)") (auto simp add: tick_def)
  define w1 where "w1 = w\<lparr>durations := (durations w)(d := set_duration (n - 1) (durations w d))\<rparr>"
  have a: "same_tally w w1" using n by (simp add: same_tally_def w1_def)
  from assms False n have "(if n - 1 = 0 then dur_end d w1 else Inr w1) = Inr w'"
    unfolding tick_def Let_def w1_def by (simp only: if_False option.case)
  then have "same_tally w1 w'" using dur_end_tally by (auto split: if_splits)
  with a show ?thesis by (rule same_tally_trans)
qed

lemma roll_skill_static [simp]:
  "creatures (snd (roll_skill c sk adv disadv w)) = creatures w"
  "durations (snd (roll_skill c sk adv disadv w)) = durations w"
  by (simp_all add: roll_skill_def Let_def split: prod.splits)

lemma skill_check_static [simp]:
  "creatures (snd (skill_check c sk dc adv disadv w)) = creatures w"
  "durations (snd (skill_check c sk dc adv disadv w)) = durations w"
  by (simp_all add: skill_check_def case_prod_beta)

lemma escape_grapple_static [simp]:
  "creatures (snd (escape_grapple c adv w)) = creatures w"
  "durations (snd (escape_grapple c adv w)) = durations w"
  by (simp_all add: escape_grapple_def Let_def)

lemma escape_each_tally: "escape_each chk gs w = Inr w' \<Longrightarrow> same_tally w w'"
proof (induction gs arbitrary: w)
  case Nil
  then show ?case by simp
next
  case (Cons g gs)
  from Cons.prems obtain gr t r s e where g: "durations w g = GrappleDuration gr t r s e"
    by (cases "durations w g") simp_all
  with Cons.prems obtain w1 where
    1: "(if chk \<ge> 8 + proficiency (creatures w gr) + abilities (creatures w gr) a_str
         then dur_end g w else Inr w) = Inr w1" and
    2: "escape_each chk gs w1 = Inr w'"
    by (auto simp add: Let_def then_do_Inr)
  have "same_tally w w1" using 1 dur_end_tally by (auto split: if_splits)
  with Cons.IH[OF 2] show ?case using same_tally_trans by blast
qed

lemma start_turn_effect_tally:
  assumes "start_turn_effect x w = Inr w'"
  shows "reset_tally w w'"
proof (cases "durations w x")
  case (BleedingDuration target wound_damage dtype N_wounds dur)
  obtain damage g1 where r: "wound_rolls wound_damage (nat N_wounds) 0 (gen w) = (damage, g1)"
    by (cases "wound_rolls wound_damage (nat N_wounds) 0 (gen w)")
  from assms BleedingDuration r obtain taken w1 where
    1: "take_damage_of target damage dtype None False 0 None (w\<lparr>gen := g1\<rparr>) = Inr (taken, w1)"
    and 2: "tick x w1 = Inr w'"
    by (auto simp add: start_turn_effect_def then_do_Inr)
  have "same_tally w (w\<lparr>gen := g1\<rparr>)" by (simp add: same_tally_def)
  with take_damage_of_no_dealer_tally[OF 1] tick_tally[OF 2] have "same_tally w w'"
    using same_tally_trans by blast
  then show ?thesis by (rule same_reset_tally)
next
  case (GrappleDuration grappler target restr stun escape_priority)
  show ?thesis
  proof (cases "action (creatures w target)")
    case False
    with assms GrappleDuration show ?thesis by (simp add: start_turn_effect_def)
  next
    case True
    define w0 where "w0 = modify target (\<lambda>c. c\<lparr>action := False\<rparr>) w"
    obtain chk w1 where e: "escape_grapple target False w0 = (chk, w1)"
      by (cases "escape_grapple target False w0")
    from assms GrappleDuration True e have
      2: "escape_each chk (grappled (creatures w1 target)) w1 = Inr w'"
      by (simp add: start_turn_effect_def w0_def)
    have a: "same_tally w w0" by (simp add: w0_def same_tally_modify)
    have "creatures w1 = creatures w0" "durations w1 = durations w0"
      using escape_grapple_static[of target False w0] e by simp_all
    then have b: "same_tally w0 w1" by (simp add: same_tally_def)
    from a b escape_each_tally[OF 2] have "same_tally w w'"
      using same_tally_trans by blast
    then show ?thesis by (rule same_reset_tally)
  qed
next
  case (RestrainedDuration target check_dc)
  show ?thesis
  proof (cases "action (creatures w target)")
    case False
    with assms RestrainedDuration show ?thesis by (simp add: start_turn_effect_def)
  next
    case True
    define w0 where "w0 = modify target (\<lambda>c. c\<lparr>action := False\<rparr>) w"
    obtain ok w1 where e: "skill_check target (ability_check a_str) check_dc False False w0 = (ok, w1)"
      by (cases "skill_check target (ability_check a_str) check_dc False False w0")
    from assms RestrainedDuration True e have
      2: "(if ok then dur_end x w1 else Inr w1) = Inr w'"
      by (simp add: start_turn_effect_def w0_def)
    have a: "same_tally w w0" by (simp add: w0_def same_tally_modify)
    have "creatures w1 = creatures w0" "durations w1 = durations w0"
      using skill_check_static[of target "ability_check a_str" check_dc False False w0] e
      by simp_all
    then have b: "same_tally w0 w1" by (simp add: same_tally_def)
    have "same_tally w1 w'" using 2 dur_end_tally by (auto split: if_splits)
    with a b have "same_tally w w'"
      using same_tally_trans by blast
    then show ?thesis by (rule same_reset_tally)
  qed
next
  case (SwallowedDuration swallower target threshold save_dc)
  with assms have "w' = modify swallower (\<lambda>c. c\<lparr>damage_taken_this_turn := 0\<rparr>) w"
    by (simp add: start_turn_effect_def)
  then show ?thesis by (simp add: reset_tally_def)
qed (insert assms, auto simp add: start_turn_effect_def dest!: tick_tally intro: same_reset_tally)

lemma start_turn_effects_tally: "start_turn_effects ds w = Inr w' \<Longrightarrow> reset_tally w w'"
proof (induction ds arbitrary: w)
  case Nil
  then show ?case by simp
next
  case (Cons x ds)
  then obtain w1 where "start_turn_effect x w = Inr w1" "start_turn_effects ds w1 = Inr w'"
    by (auto simp add: then_do_Inr)
  then show ?case
    using Cons.IH start_turn_effect_tally reset_tally_trans by blast
qed

lemma start_turn_effects_reset:
  assumes "start_turn_effects ds w = Inr w'" "d \<in> set ds"
    and "durations w d = SwallowedDuration sw t th dc"
  shows "damage_taken_this_turn (creatures w' sw) = 0"
  using assms
proof (induction ds arbitrary: w)
  case Nil
  then show ?case by simp
next
  case (Cons x ds)
  from Cons.prems(1) obtain w1 where
    1: "start_turn_effect x w = Inr w1" and 2: "start_turn_effects ds w1 = Inr w'"
    by (auto simp add: then_do_Inr)
  show ?case
  proof (cases "x = d")
    case True
    with 1 Cons.prems(3) have "w1 = modify sw (\<lambda>c. c\<lparr>damage_taken_this_turn := 0\<rparr>) w"
      by (simp add: start_turn_effect_def)
    then have "damage_taken_this_turn (creatures w1 sw) = 0" by simp
    with start_turn_effects_tally[OF 2] show ?thesis
      unfolding reset_tally_def by metis
  next
    case False
    with Cons.prems(2) have m: "d \<in> set ds" by simp
    have "durations w1 d = SwallowedDuration sw t th dc"
      using start_turn_effect_tally[OF 1] Cons.prems(3) by (simp add: reset_tally_def)
    from Cons.IH[OF 2 m this] show ?thesis .
  qed
qed

lemma start_turn_triggers_reset:
  assumes "start_turn_triggers t w = Inr w'"
    and "durations w d = SwallowedDuration sw t th dc"
    and "d \<in> set (start_turn_duration (creatures w t))"
  shows "damage_taken_this_turn (creatures w' sw) = 0"
proof -
  define w1 where "w1 = modify t (\<lambda>x. x\<lparr>surprised := False, bonus := True\<rparr>) w"
  define w2 where "w2 = (if turned (creatures w1 t) = None then
                  (let w3 = modify t (\<lambda>x. x\<lparr>action := True\<rparr>) w1
                   in if slowed (creatures w3 t) = 0
                      then modify t (\<lambda>x. x\<lparr>reaction := True\<rparr>) w3 else w3)
                else w1)"
  have run: "start_turn_effects (start_turn_duration (creatures w2 t)) w2 = Inr w'"
    using assms(1) unfolding start_turn_triggers_def Let_def w2_def w1_def .
  have s: "start_turn_duration (creatures w2 t) = start_turn_duration (creatures w t)"
    and du: "durations w2 = durations w"
    by (simp_all add: w2_def w1_def Let_def)
  show ?thesis
    by (rule start_turn_effects_reset[OF run, of d]) (simp_all add: s du assms)
qed

lemma behir_take_damage_tally:
  assumes "species (creatures w c) = Behir"
    and "take_damage_of c pd pt dealer ranged sd st w = Inr ((p, s), w')"
  shows "damage_taken_this_turn (creatures w' c) =
           damage_taken_this_turn (creatures w c)
           + (case dealer of
                None \<Rightarrow> 0
              | Some dl \<Rightarrow> if dl \<in> set (swallowed_creatures (creatures w' c)) then p + s else 0)
         \<and> p = spec_mitigated (creatures w c) pd pt
         \<and> s = (case st of None \<Rightarrow> 0 | Some t \<Rightarrow> spec_mitigated (creatures w c) sd t)"
proof -
  from assms obtain w1 where
    1: "take_damage c pd pt dealer ranged sd st w = Inr ((p, s), w1)" and
    2: "w' = (case dealer of
                  None \<Rightarrow> w1
                | Some dl \<Rightarrow>
                    if dl \<in> set (swallowed_creatures (creatures w1 c)) then
                      modify c (\<lambda>x. x\<lparr>damage_taken_this_turn :=
                                   damage_taken_this_turn x + (p + s)\<rparr>) w1
                    else w1)"
    by (auto simp add: take_damage_of_def behir_take_damage_def then_do_Inr)
  have t: "damage_taken_this_turn (creatures w1 c) = damage_taken_this_turn (creatures w c)"
    using take_damage_tally[OF 1] by (simp add: same_tally_def)
  have "damage_taken_this_turn (creatures w' c) =
           damage_taken_this_turn (creatures w c)
           + (case dealer of
                None \<Rightarrow> 0
              | Some dl \<Rightarrow> if dl \<in> set (swallowed_creatures (creatures w' c)) then p + s else 0)"
    using 2 t by (cases dealer) simp_all
  with take_damage_returns[OF 1] show ?thesis by simp
qed

lemma swallow_ok_same:
  assumes "creatures w1 = creatures w" "durations w1 = durations w"
  shows "swallow_ok c w1 t = swallow_ok c w t"
  unfolding swallow_ok_def assms ..

lemma end_turn_effect_swallowed:
  assumes "durations w d = SwallowedDuration sw t th dc"
    and "species (creatures w sw) = Behir"
    and "th \<le> damage_taken_this_turn (creatures w sw)"
    and "roll_save sw a_con False False w = (r, w1)"
  shows "end_turn_effect d w =
           (if dc \<le> r then Inr w1
            else release_swallowed (swallowed_creatures (creatures w1 sw)) w1)"
    and "creatures w1 = creatures w" and "durations w1 = durations w"
proof -
  show c: "creatures w1 = creatures w"
    using creatures_roll_save[of sw a_con False False w] assms(4) by simp
  show "durations w1 = durations w"
    using durations_roll_save[of sw a_con False False w] assms(4) by simp
  have "list_attribute ''swallowed_creatures'' (creatures w1 sw)
      = Inr (swallowed_creatures (creatures w1 sw))"
    using assms(2) c by (simp add: list_attribute_def)
  then show "end_turn_effect d w =
           (if dc \<le> r then Inr w1
            else release_swallowed (swallowed_creatures (creatures w1 sw)) w1)"
    using assms(1,3,4) by (simp add: end_turn_effect_def saving_throw_con)
qed

text \<open>
  C6 (as amended). For a swallow \<open>d\<close> of target \<open>t\<close> by the Behir \<open>sw\<close>: a
  \<open>take_damage\<close> of the swallower adds the damage taken (after mitigation) to its tally
  exactly when the dealer is one of its swallowed creatures once the call is over; the
  tally is 0 after the start-of-turn triggers of the swallowed target \<open>t\<close>, in whose list
  the swallow is registered; and at the end-of-turn trigger of the swallow, a tally below
  the threshold changes nothing, whereas a tally at or above it makes the swallower roll
  a Constitution save against the regurgitation DC, on whose failure every swallowed
  creature is released.
\<close>

theorem swallowed_damage_tally:
  assumes "durations w d = SwallowedDuration sw t th dc"
    and "species (creatures w sw) = Behir"
  shows "(take_damage_of sw pd pt dealer ranged sd st w = Inr ((p, s), wa) \<longrightarrow>
            damage_taken_this_turn (creatures wa sw) =
              damage_taken_this_turn (creatures w sw)
              + (case dealer of
                   None \<Rightarrow> 0
                 | Some dl \<Rightarrow>
                     if dl \<in> set (swallowed_creatures (creatures wa sw)) then p + s else 0)
            \<and> p = spec_mitigated (creatures w sw) pd pt
            \<and> s = (case st of None \<Rightarrow> 0 | Some x \<Rightarrow> spec_mitigated (creatures w sw) sd x))
     \<and> (d \<in> set (start_turn_duration (creatures w t)) \<longrightarrow>
          start_turn_triggers t w = Inr wb \<longrightarrow>
          damage_taken_this_turn (creatures wb sw) = 0)
     \<and> (damage_taken_this_turn (creatures w sw) < th \<longrightarrow> end_turn_effect d w = Inr w)
     \<and> (th \<le> damage_taken_this_turn (creatures w sw) \<longrightarrow>
          distinct (swallowed_creatures (creatures w sw)) \<longrightarrow>
          (\<forall>x\<in>set (swallowed_creatures (creatures w sw)). swallow_ok sw w x) \<longrightarrow>
          (case roll_save sw a_con False False w of
             (r, w1) \<Rightarrow>
               if dc \<le> r then end_turn_effect d w = Inr w1
               else (\<exists>w'. end_turn_effect d w = Inr w'
                      \<and> swallowed_creatures (creatures w' sw) = []
                      \<and> (\<forall>x\<in>set (swallowed_creatures (creatures w sw)).
                            swallowed (creatures w' x) = None))))"
proof (intro conjI impI)
  assume "take_damage_of sw pd pt dealer ranged sd st w = Inr ((p, s), wa)"
  from behir_take_damage_tally[OF assms(2) this]
  show "damage_taken_this_turn (creatures wa sw) =
              damage_taken_this_turn (creatures w sw)
              + (case dealer of
                   None \<Rightarrow> 0
                 | Some dl \<Rightarrow>
                     if dl \<in> set (swallowed_creatures (creatures wa sw)) then p + s else 0)"
    and "p = spec_mitigated (creatures w sw) pd pt"
    and "s = (case st of None \<Rightarrow> 0 | Some x \<Rightarrow> spec_mitigated (creatures w sw) sd x)"
    by simp_all
next
  assume "d \<in> set (start_turn_duration (creatures w t))" "start_turn_triggers t w = Inr wb"
  then show "damage_taken_this_turn (creatures wb sw) = 0"
    using start_turn_triggers_reset[OF _ assms(1)] by simp
next
  assume "damage_taken_this_turn (creatures w sw) < th"
  then show "end_turn_effect d w = Inr w"
    using assms(1) by (simp add: end_turn_effect_def)
next
  assume h: "th \<le> damage_taken_this_turn (creatures w sw)"
    "distinct (swallowed_creatures (creatures w sw))"
    "\<forall>x\<in>set (swallowed_creatures (creatures w sw)). swallow_ok sw w x"
  obtain r w1 where rs: "roll_save sw a_con False False w = (r, w1)"
    by (cases "roll_save sw a_con False False w")
  note e = end_turn_effect_swallowed[OF assms h(1) rs]
  have "if dc \<le> r then end_turn_effect d w = Inr w1
               else (\<exists>w'. end_turn_effect d w = Inr w'
                      \<and> swallowed_creatures (creatures w' sw) = []
                      \<and> (\<forall>x\<in>set (swallowed_creatures (creatures w sw)).
                            swallowed (creatures w' x) = None))"
  proof (cases "dc \<le> r")
    case True
    with e(1) show ?thesis by simp
  next
    case False
    have a: "species (creatures w1 sw) = Behir" using assms(2) e(2) by simp
    have b: "swallowed_creatures (creatures w1 sw) = swallowed_creatures (creatures w sw)"
      using e(2) by simp
    have c: "\<forall>x\<in>set (swallowed_creatures (creatures w sw)). swallow_ok sw w1 x"
      using h(3) by (simp add: swallow_ok_same[OF e(2,3)])
    from release_own_swallowed[OF a b h(2) c] e(1) False b show ?thesis by auto
  qed
  then show "case roll_save sw a_con False False w of
             (r, w1) \<Rightarrow>
               if dc \<le> r then end_turn_effect d w = Inr w1
               else (\<exists>w'. end_turn_effect d w = Inr w'
                      \<and> swallowed_creatures (creatures w' sw) = []
                      \<and> (\<forall>x\<in>set (swallowed_creatures (creatures w sw)).
                            swallowed (creatures w' x) = None))"
    by (simp add: rs)
qed

lemma tally_world_facts:
  "durations (tally_world n) 1 = SwallowedDuration 0 2 30 14"
  "species (creatures (tally_world n) 0) = Behir"
  "damage_taken_this_turn (creatures (tally_world n) 0) = n"
  "swallowed_creatures (creatures (tally_world n) 0) = [2]"
  "start_turn_duration (creatures (tally_world n) 2) = [1]"
  "start_turn_duration (creatures (tally_world n) 0) = []"
  "swallow_ok 0 (tally_world n) 2"
  by (simp_all add: tally_world_def behir_world_def default_world_def default_creature_def
      swallow_ok_def)

lemma tally_world_runs:
  "take_damage_of 0 5 fire (Some 2) False 0 None (tally_world 7) =
     Inr ((5, 0), modify 0 (\<lambda>x. x\<lparr>hp := 5, concentration := None, base_armor_class := 8,
                                  damage_taken_this_turn := 12\<rparr>) (tally_world 7))"
  "start_turn_triggers 2 (tally_world 7) =
     Inr (modify 0 (\<lambda>x. x\<lparr>damage_taken_this_turn := 0\<rparr>)
           (modify 2 (\<lambda>x. x\<lparr>surprised := False, bonus := True, action := True,
                            reaction := True\<rparr>) (tally_world 7)))"
  "start_turn_triggers 0 (tally_world 7) =
     Inr (modify 0 (\<lambda>x. x\<lparr>surprised := False, bonus := True, action := True,
                          reaction := True\<rparr>) (tally_world 7))"
  "fst (roll_save 0 a_con False False (tally_world 30)) = 1"
  by (simp_all add: take_damage_of_def behir_take_damage_def take_damage_def
      take_damage_type_def saving_throw_def roll_save_def roll_d20_def die_call_def roll1_def
      integers_def spell_end_def int_half_def is_incapacitated_def
      start_turn_triggers_def start_turn_effect_def
      tally_world_def behir_world_def default_world_def default_creature_def
      physical_types_def Let_def modify_def)

theorem swallowed_damage_tally_witness:
  "durations (tally_world 7) 1 = SwallowedDuration 0 2 30 14
   \<and> species (creatures (tally_world 7) 0) = Behir
   \<and> damage_taken_this_turn
        (creatures (modify 0 (\<lambda>x. x\<lparr>hp := 5, concentration := None, base_armor_class := 8,
                                  damage_taken_this_turn := 12\<rparr>) (tally_world 7)) 0) = 7 + 5
   \<and> damage_taken_this_turn
        (creatures (modify 0 (\<lambda>x. x\<lparr>damage_taken_this_turn := 0\<rparr>)
           (modify 2 (\<lambda>x. x\<lparr>surprised := False, bonus := True, action := True,
                            reaction := True\<rparr>) (tally_world 7))) 0) = 0
   \<and> end_turn_effect 1 (tally_world 7) = Inr (tally_world 7)
   \<and> (\<exists>w'. end_turn_effect 1 (tally_world 30) = Inr w'
         \<and> swallowed_creatures (creatures w' 0) = []
         \<and> swallowed (creatures w' 2) = None)"
proof -
  note a = swallowed_damage_tally[OF tally_world_facts(1,2)[of 7], where pd = 5
      and pt = fire and dealer = "Some 2" and ranged = False and sd = 0 and st = None
      and p = 5 and s = 0
      and wa = "modify 0 (\<lambda>x. x\<lparr>hp := 5, concentration := None, base_armor_class := 8,
                                  damage_taken_this_turn := 12\<rparr>) (tally_world 7)"
      and wb = "modify 0 (\<lambda>x. x\<lparr>damage_taken_this_turn := 0\<rparr>)
           (modify 2 (\<lambda>x. x\<lparr>surprised := False, bonus := True, action := True,
                            reaction := True\<rparr>) (tally_world 7))"]
  have 1: "damage_taken_this_turn
        (creatures (modify 0 (\<lambda>x. x\<lparr>hp := 5, concentration := None, base_armor_class := 8,
                                  damage_taken_this_turn := 12\<rparr>) (tally_world 7)) 0) = 7 + 5"
    using a[THEN conjunct1] tally_world_runs(1) by (simp add: tally_world_facts)
  have 2: "damage_taken_this_turn
        (creatures (modify 0 (\<lambda>x. x\<lparr>damage_taken_this_turn := 0\<rparr>)
           (modify 2 (\<lambda>x. x\<lparr>surprised := False, bonus := True, action := True,
                            reaction := True\<rparr>) (tally_world 7))) 0) = 0"
    using a[THEN conjunct2, THEN conjunct1] tally_world_runs(2) by (simp add: tally_world_facts)
  have 3: "end_turn_effect 1 (tally_world 7) = Inr (tally_world 7)"
    using a[THEN conjunct2, THEN conjunct2, THEN conjunct1] by (simp add: tally_world_facts)
  obtain r w1 where rs: "roll_save 0 a_con False False (tally_world 30) = (r, w1)"
    by (cases "roll_save 0 a_con False False (tally_world 30)")
  then have r: "r = 1" using tally_world_runs(4) by simp
  have 4: "\<exists>w'. end_turn_effect 1 (tally_world 30) = Inr w'
         \<and> swallowed_creatures (creatures w' 0) = []
         \<and> swallowed (creatures w' 2) = None"
    using swallowed_damage_tally[OF tally_world_facts(1,2)[of 30],
        THEN conjunct2, THEN conjunct2, THEN conjunct2] rs r
    by (simp add: tally_world_facts)
  show ?thesis using 1 2 3 4 tally_world_facts(1,2)[of 7] by simp
qed

theorem swallower_turn_start_counterexample:
  "durations (tally_world 7) 1 = SwallowedDuration 0 2 30 14
   \<and> swallowed_creatures (creatures (tally_world 7) 0) = [2]
   \<and> damage_taken_this_turn (creatures (tally_world 7) 0) = 7
   \<and> start_turn_triggers 0 (tally_world 7) =
       Inr (modify 0 (\<lambda>x. x\<lparr>surprised := False, bonus := True, action := True,
                            reaction := True\<rparr>) (tally_world 7))
   \<and> damage_taken_this_turn
        (creatures (modify 0 (\<lambda>x. x\<lparr>surprised := False, bonus := True, action := True,
                            reaction := True\<rparr>) (tally_world 7)) 0) = 7"
  using tally_world_runs(3) tally_world_facts(1,3,4)[of 7] by simp

section \<open>Grapples and the passage of time\<close>

lemma same_links_refl [simp]: "same_links w w"
  by (simp add: same_links_def)

lemma same_links_trans: "same_links w w1 \<Longrightarrow> same_links w1 w2 \<Longrightarrow> same_links w w2"
  unfolding same_links_def by (intro conjI allI) metis+

lemma same_links_slots_ok: "same_links w w' \<Longrightarrow> slots_ok w \<Longrightarrow> slots_ok w'"
  unfolding same_links_def slots_ok_def
proof (intro allI)
  fix k
  assume h: "(\<forall>k. grappling (creatures w' k) = grappling (creatures w k)
           \<and> grappled (creatures w' k) = grappled (creatures w k)
           \<and> (swallowed (creatures w' k) = swallowed (creatures w k)
                \<or> swallowed (creatures w' k) = None))
      \<and> (\<forall>d. if is_grapple (durations w d) then durations w' d = durations w d
              else \<not> is_grapple (durations w' d))"
    and s: "\<forall>k. case swallowed (creatures w k) of
                        None \<Rightarrow> True
                      | Some d \<Rightarrow> \<not> is_grapple (durations w d)"
  show "case swallowed (creatures w' k) of
                        None \<Rightarrow> True
                      | Some d \<Rightarrow> \<not> is_grapple (durations w' d)"
  proof (cases "swallowed (creatures w' k)")
    case None
    then show ?thesis by simp
  next
    case (Some d)
    with h have "swallowed (creatures w k) = Some d" by (metis option.distinct(1))
    with s[rule_format, of k] have "\<not> is_grapple (durations w d)" by simp
    with h have "\<not> is_grapple (durations w' d)" by metis
    with Some show ?thesis by simp
  qed
qed

lemma same_links_modify_after:
  "same_links w w1 \<Longrightarrow>
   (\<And>y. grappling (f y) = grappling y \<and> grappled (f y) = grappled y
         \<and> (swallowed (f y) = swallowed y \<or> swallowed (f y) = None)) \<Longrightarrow>
   same_links w (modify c f w1)"
  unfolding same_links_def by (simp, metis)

lemma remove_from_linksE:
  "remove_from field upd c x w1 = Inr w' \<Longrightarrow> same_links w w1 \<Longrightarrow>
   (\<And>g y. grappling (upd g y) = grappling y \<and> grappled (upd g y) = grappled y
         \<and> swallowed (upd g y) = swallowed y) \<Longrightarrow> same_links w w'"
  by (auto simp add: remove_from_def list_remove_def split: if_splits
      intro!: same_links_modify_after)

lemma links_set_list_attribute:
  "name \<noteq> ''grappling'' \<Longrightarrow> name \<noteq> ''grappled'' \<Longrightarrow>
   grappling (set_list_attribute name xs y) = grappling y
   \<and> grappled (set_list_attribute name xs y) = grappled y
   \<and> swallowed (set_list_attribute name xs y) = swallowed y"
  by (simp add: set_list_attribute_def)

lemma remove_named_linksE:
  "remove_named name c x w1 = Inr w' \<Longrightarrow> name \<noteq> ''grappling'' \<Longrightarrow> name \<noteq> ''grappled'' \<Longrightarrow>
   same_links w w1 \<Longrightarrow> same_links w w'"
  by (auto simp add: remove_named_def list_remove_def links_set_list_attribute
      split: if_splits sum.splits intro!: same_links_modify_after)

lemma dur_end_links:
  assumes "dur_end d w = Inr w'" "\<not> is_grapple (durations w d)"
  shows "same_links w w'"
  using assms
  by (cases "durations w d")
     (auto simp add: dur_end_def then_do_Inr is_grapple_def split: if_splits
        intro!: same_links_modify_after
        elim!: remove_from_linksE remove_named_linksE)

lemma is_grapple_set_duration [simp]: "is_grapple (set_duration v x) = is_grapple x"
  by (cases x) (simp_all add: is_grapple_def)

lemma set_duration_grapple: "is_grapple x \<Longrightarrow> set_duration v x = x"
  by (cases x) (simp_all add: is_grapple_def)

lemma tick_links:
  assumes "tick d w = Inr w'"
  shows "same_links w w'"
proof (cases "is_grapple (durations w d)")
  case True
  with assms show ?thesis by (simp add: tick_def)
next
  case False
  with assms obtain n where n: "get_duration (durations w d) = Some n"
    by (cases "get_duration (durations w d)") (auto simp add: tick_def)
  define w1 where "w1 = w\<lparr>durations := (durations w)(d := set_duration (n - 1) (durations w d))\<rparr>"
  have a: "same_links w w1" using False by (simp add: same_links_def w1_def)
  have ng: "\<not> is_grapple (durations w1 d)" using False by (simp add: w1_def)
  from assms False n have "(if n - 1 = 0 then dur_end d w1 else Inr w1) = Inr w'"
    unfolding tick_def Let_def w1_def by (simp only: if_False option.case)
  then have "same_links w1 w'" using dur_end_links ng by (auto split: if_splits)
  with a show ?thesis by (rule same_links_trans)
qed

lemma release_swallowed_links:
  "release_swallowed ts w = Inr w' \<Longrightarrow> slots_ok w \<Longrightarrow> same_links w w'"
proof (induction ts arbitrary: w)
  case Nil
  then show ?case by simp
next
  case (Cons t ts)
  then obtain d w1 where sd: "swallowed (creatures w t) = Some d"
    and 1: "dur_end d w = Inr w1" and 2: "release_swallowed ts w1 = Inr w'"
    by (auto simp add: then_do_Inr split: option.splits)
  have "\<not> is_grapple (durations w d)"
    using Cons.prems(2) sd unfolding slots_ok_def by (metis option.simps(5))
  from dur_end_links[OF 1 this] have a: "same_links w w1" .
  then have "slots_ok w1" using Cons.prems(2) by (rule same_links_slots_ok)
  from Cons.IH[OF 2 this] a show ?case using same_links_trans by blast
qed

lemma saving_throw_links: "same_links w (snd (saving_throw c ab dc adv disadv st w))"
  by (simp add: same_links_def)

lemma save_to_end_links:
  assumes "save_to_end d target ab save_dc disadv w = Inr w'" "\<not> is_grapple (durations w d)"
  shows "same_links w w'"
proof -
  obtain ok w1 where s: "saving_throw target ab save_dc False disadv None w = (ok, w1)"
    by (cases "saving_throw target ab save_dc False disadv None w")
  have a: "same_links w w1"
    using saving_throw_links[of w target ab save_dc False disadv None] s by simp
  have "durations w1 = durations w"
    using durations_saving_throw[of target ab save_dc False disadv None w] s by simp
  with assms(2) have ng: "\<not> is_grapple (durations w1 d)" by simp
  from assms(1) s have "(if ok then dur_end d w1 else Inr w1) = Inr w'"
    by (simp add: save_to_end_def)
  then have "same_links w1 w'" using dur_end_links ng by (auto split: if_splits)
  with a show ?thesis by (rule same_links_trans)
qed

lemma end_turn_effect_links:
  assumes "end_turn_effect d w = Inr w'" "slots_ok w"
  shows "same_links w w'"
proof (cases "durations w d")
  case (SwallowedDuration swallower target threshold save_dc)
  show ?thesis
  proof (cases "damage_taken_this_turn (creatures w swallower) \<ge> threshold")
    case False
    with assms SwallowedDuration show ?thesis by (simp add: end_turn_effect_def)
  next
    case True
    obtain ok w1 where s: "saving_throw swallower a_con save_dc False False None w = (ok, w1)"
      by (cases "saving_throw swallower a_con save_dc False False None w")
    have a: "same_links w w1"
      using saving_throw_links[of w swallower a_con save_dc False False None] s by simp
    then have ok1: "slots_ok w1" using assms(2) by (rule same_links_slots_ok)
    from assms(1) SwallowedDuration True s have
      "(if \<not> ok then
          then_do (list_attribute ''swallowed_creatures'' (creatures w1 swallower))
            (\<lambda>ts. release_swallowed ts w1)
        else Inr w1) = Inr w'"
      by (simp add: end_turn_effect_def)
    then have "same_links w1 w'"
      using release_swallowed_links ok1 by (auto simp add: then_do_Inr split: if_splits)
    with a show ?thesis by (rule same_links_trans)
  qed
qed (insert assms, auto simp add: end_turn_effect_def is_grapple_def
       intro: save_to_end_links dur_end_links)

lemma end_turn_effects_links:
  "end_turn_effects ds w = Inr w' \<Longrightarrow> slots_ok w \<Longrightarrow> same_links w w'"
proof (induction ds arbitrary: w)
  case Nil
  then show ?case by simp
next
  case (Cons d ds)
  then obtain w1 where 1: "end_turn_effect d w = Inr w1" and 2: "end_turn_effects ds w1 = Inr w'"
    by (auto simp add: then_do_Inr)
  from end_turn_effect_links[OF 1 Cons.prems(2)] have a: "same_links w w1" .
  then have "slots_ok w1" using Cons.prems(2) by (rule same_links_slots_ok)
  from Cons.IH[OF 2 this] a show ?case using same_links_trans by blast
qed

lemma pass_links: "pass es w = Inr w' \<Longrightarrow> slots_ok w \<Longrightarrow> same_links w w'"
proof (induction es arbitrary: w)
  case Nil
  then show ?case by simp
next
  case (Cons ev es)
  have "\<exists>w1. same_links w w1 \<and> pass es w1 = Inr w'"
  proof (cases ev)
    case (Tick d)
    with Cons.prems(1) obtain w1 where 1: "tick d w = Inr w1" and 2: "pass es w1 = Inr w'"
      by (auto simp add: then_do_Inr)
    from tick_links[OF 1] 2 show ?thesis by blast
  next
    case (EndTurn c)
    with Cons.prems(1) obtain w1 where 1: "end_turn c w = Inr w1" and 2: "pass es w1 = Inr w'"
      by (auto simp add: then_do_Inr)
    from 1 have "same_links w w1"
      unfolding end_turn_def using Cons.prems(2) by (rule end_turn_effects_links)
    with 2 show ?thesis by blast
  qed
  then obtain w1 where a: "same_links w w1" and 2: "pass es w1 = Inr w'" by blast
  from a Cons.prems(2) have "slots_ok w1" by (rule same_links_slots_ok)
  from Cons.IH[OF 2 this] a show ?case using same_links_trans by blast
qed

section \<open>Escaping a grapple\<close>

lemma grapple_world_constructed:
  "create_grapple 0 1 True False True default_world = Inr grapple_world"
  by (simp add: create_grapple_def new_duration_def Let_def modify_def grapple_world_def
      default_world_def default_creature_def fun_eq_iff)

lemma grapple_removed_stats [simp]:
  "proficiency (grapple_removed d gr t r s e k x) = proficiency x"
  "abilities (grapple_removed d gr t r s e k x) = abilities x"
  by (simp_all add: grapple_removed_def)

lemma escape_each_keeps:
  assumes "escape_each chk gs w = Inr w'" "durations w g = GrappleDuration gr t r s e"
    and "chk < 8 + proficiency (creatures w gr) + abilities (creatures w gr) a_str"
  shows "(g \<in> set (grappled (creatures w k)) \<longrightarrow> g \<in> set (grappled (creatures w' k)))
       \<and> (g \<in> set (grappling (creatures w k)) \<longrightarrow> g \<in> set (grappling (creatures w' k)))"
  using assms
proof (induction gs arbitrary: w)
  case Nil
  then show ?case by simp
next
  case (Cons x gs)
  from Cons.prems(1) obtain gr' t' r' s' e' where
    x: "durations w x = GrappleDuration gr' t' r' s' e'"
    by (cases "durations w x") simp_all
  with Cons.prems(1) obtain w1 where
    1: "(if chk \<ge> 8 + proficiency (creatures w gr') + abilities (creatures w gr') a_str
         then dur_end x w else Inr w) = Inr w1" and
    2: "escape_each chk gs w1 = Inr w'"
    by (auto simp add: Let_def then_do_Inr)
  have step: "durations w1 = durations w
     \<and> proficiency (creatures w1 gr) = proficiency (creatures w gr)
     \<and> abilities (creatures w1 gr) = abilities (creatures w gr)
     \<and> (g \<in> set (grappled (creatures w k)) \<longrightarrow> g \<in> set (grappled (creatures w1 k)))
     \<and> (g \<in> set (grappling (creatures w k)) \<longrightarrow> g \<in> set (grappling (creatures w1 k)))"
  proof (cases "chk \<ge> 8 + proficiency (creatures w gr') + abilities (creatures w gr') a_str")
    case False
    with 1 show ?thesis by simp
  next
    case True
    with 1 have e1: "dur_end x w = Inr w1" by simp
    have ne: "g \<noteq> x"
    proof
      assume "g = x"
      with x Cons.prems(2) have "gr' = gr" by simp
      with True Cons.prems(3) show False by simp
    qed
    have w1: "w1 = w\<lparr>creatures := (\<lambda>k. grapple_removed x gr' t' r' s' e' k (creatures w k))\<rparr>"
      using dur_end_grapple_result[OF x e1] .
    show ?thesis
      using in_remove1_other[OF ne] by (simp add: w1)
  qed
  then have d1: "durations w1 g = GrappleDuration gr t r s e"
    and c1: "chk < 8 + proficiency (creatures w1 gr) + abilities (creatures w1 gr) a_str"
    using Cons.prems(2,3) by simp_all
  from Cons.IH[OF 2 d1 c1] step show ?case by blast
qed

lemma start_turn_effect_grapple:
  assumes "durations w g = GrappleDuration gr t r s e" "action (creatures w t)"
    and "escape_grapple t False (modify t (\<lambda>c. c\<lparr>action := False\<rparr>) w) = (chk, w1)"
  shows "start_turn_effect g w = escape_each chk (grappled (creatures w t)) w1"
    and "creatures w1 = creatures (modify t (\<lambda>c. c\<lparr>action := False\<rparr>) w)"
    and "durations w1 = durations w"
proof -
  show c: "creatures w1 = creatures (modify t (\<lambda>c. c\<lparr>action := False\<rparr>) w)"
    using escape_grapple_static(1)[of t False "modify t (\<lambda>c. c\<lparr>action := False\<rparr>) w"] assms(3)
    by simp
  show "durations w1 = durations w"
    using escape_grapple_static(2)[of t False "modify t (\<lambda>c. c\<lparr>action := False\<rparr>) w"] assms(3)
    by simp
  have "grappled (creatures w1 t) = grappled (creatures w t)" by (simp add: c)
  then show "start_turn_effect g w = escape_each chk (grappled (creatures w t)) w1"
    using assms by (simp add: start_turn_effect_def)
qed

text \<open>
  C10. A grapple \<open>g\<close> has no duration counter and its \<open>tick\<close> and end-of-turn trigger
  change nothing. No sequence of ticks of any effects and of turn ends of any combatants
  that completes changes any \<open>grappling\<close> or \<open>grappled\<close> list, or the grapple itself
  (the \<open>swallowed\<close> slots holding no grapple, as in every state the constructors build).
  Its start-of-turn trigger does nothing when the target has no action; otherwise the
  target rolls one escape check, and when that check is below 8 + the grappler's
  proficiency + the grappler's Strength, the grapple stays in both lists.
\<close>

theorem grapple_never_times_out:
  assumes "durations w g = GrappleDuration gr t r s e"
  shows "get_duration (durations w g) = None
     \<and> tick g w = Inr w
     \<and> end_turn_effect g w = Inr w
     \<and> (slots_ok w \<longrightarrow> pass es w = Inr w' \<longrightarrow>
          durations w' g = GrappleDuration gr t r s e
          \<and> (\<forall>k. grappling (creatures w' k) = grappling (creatures w k)
                \<and> grappled (creatures w' k) = grappled (creatures w k)))
     \<and> (\<not> action (creatures w t) \<longrightarrow> start_turn_effect g w = Inr w)
     \<and> (action (creatures w t) \<longrightarrow> start_turn_effect g w = Inr w2 \<longrightarrow>
          fst (escape_grapple t False (modify t (\<lambda>c. c\<lparr>action := False\<rparr>) w))
            < 8 + proficiency (creatures w gr) + abilities (creatures w gr) a_str \<longrightarrow>
          (g \<in> set (grappled (creatures w t)) \<longrightarrow> g \<in> set (grappled (creatures w2 t)))
          \<and> (g \<in> set (grappling (creatures w gr)) \<longrightarrow> g \<in> set (grappling (creatures w2 gr))))"
proof (intro conjI impI)
  show "get_duration (durations w g) = None" using assms by simp
  show "tick g w = Inr w" using assms by (simp add: tick_def is_grapple_def)
  show "end_turn_effect g w = Inr w" using assms by (simp add: end_turn_effect_def)
next
  assume "slots_ok w" "pass es w = Inr w'"
  then have l: "same_links w w'" using pass_links by blast
  have "is_grapple (durations w g)" using assms by (simp add: is_grapple_def)
  with l assms show "durations w' g = GrappleDuration gr t r s e"
    unfolding same_links_def by metis
  from l show "\<forall>k. grappling (creatures w' k) = grappling (creatures w k)
                \<and> grappled (creatures w' k) = grappled (creatures w k)"
    by (simp add: same_links_def)
next
  assume "\<not> action (creatures w t)"
  then show "start_turn_effect g w = Inr w" using assms by (simp add: start_turn_effect_def)
next
  assume a: "action (creatures w t)" and run: "start_turn_effect g w = Inr w2"
    and low: "fst (escape_grapple t False (modify t (\<lambda>c. c\<lparr>action := False\<rparr>) w))
            < 8 + proficiency (creatures w gr) + abilities (creatures w gr) a_str"
  obtain chk w1 where e: "escape_grapple t False (modify t (\<lambda>c. c\<lparr>action := False\<rparr>) w) = (chk, w1)"
    by (cases "escape_grapple t False (modify t (\<lambda>c. c\<lparr>action := False\<rparr>) w)")
  note s = start_turn_effect_grapple[OF assms a e]
  have 1: "escape_each chk (grappled (creatures w t)) w1 = Inr w2" using run s(1) by simp
  have d1: "durations w1 g = GrappleDuration gr t r s e" using assms s(3) by simp
  have st: "proficiency (creatures w1 gr) = proficiency (creatures w gr)"
    "abilities (creatures w1 gr) = abilities (creatures w gr)"
    "grappled (creatures w1 t) = grappled (creatures w t)"
    "grappling (creatures w1 gr) = grappling (creatures w gr)"
    by (simp_all add: s(2))
  have c1: "chk < 8 + proficiency (creatures w1 gr) + abilities (creatures w1 gr) a_str"
    using low e st by simp
  from escape_each_keeps[OF 1 d1 c1, of t] st
  show "g \<in> set (grappled (creatures w t)) \<Longrightarrow> g \<in> set (grappled (creatures w2 t))"
    by simp
  from escape_each_keeps[OF 1 d1 c1, of gr] st
  show "g \<in> set (grappling (creatures w gr)) \<Longrightarrow> g \<in> set (grappling (creatures w2 gr))"
    by simp
qed

lemma grapple_world_facts:
  "durations grapple_world 0 = GrappleDuration 0 1 True False True"
  "durations ready_world 0 = GrappleDuration 0 1 True False True"
  "slots_ok grapple_world"
  "action (creatures ready_world 1)"
  "grappled (creatures ready_world 1) = [0]"
  "grappling (creatures ready_world 0) = [0]"
  "grappled (creatures grapple_world 1) = [0]"
  "grappling (creatures grapple_world 0) = [0]"
  by (simp_all add: ready_world_def grapple_world_def default_world_def default_creature_def
      slots_ok_def)

lemma grapple_world_runs:
  "pass [Tick 0, EndTurn 1, EndTurn 0, Tick 0] grapple_world = Inr grapple_world"
  "start_turn_triggers 1 grapple_world = start_turn_effect 0 ready_world"
  "start_turn_effect 0 ready_world = Inr (modify 1 (\<lambda>x. x\<lparr>action := False\<rparr>) ready_world)"
  "fst (escape_grapple 1 False (modify 1 (\<lambda>c. c\<lparr>action := False\<rparr>) ready_world)) = 1"
  "proficiency (creatures ready_world 0) = 0"
  "abilities (creatures ready_world 0) a_str = 0"
  by (simp_all add: tick_def end_turn_def is_grapple_def start_turn_triggers_def
      start_turn_effect_def escape_grapple_def roll_skill_def roll_d20_def die_call_def
      roll1_def integers_def
      ready_world_def grapple_world_def default_world_def default_creature_def
      Let_def modify_def)

theorem grapple_never_times_out_witness:
  "durations grapple_world 0 = GrappleDuration 0 1 True False True
   \<and> slots_ok grapple_world
   \<and> tick 0 grapple_world = Inr grapple_world
   \<and> pass [Tick 0, EndTurn 1, EndTurn 0, Tick 0] grapple_world = Inr grapple_world
   \<and> action (creatures ready_world 1)
   \<and> start_turn_triggers 1 grapple_world
        = Inr (modify 1 (\<lambda>x. x\<lparr>action := False\<rparr>) ready_world)
   \<and> 0 \<in> set (grappled (creatures (modify 1 (\<lambda>x. x\<lparr>action := False\<rparr>) ready_world) 1))
   \<and> 0 \<in> set (grappling (creatures (modify 1 (\<lambda>x. x\<lparr>action := False\<rparr>) ready_world) 0))"
proof -
  note a = grapple_never_times_out[OF grapple_world_facts(1),
      where es = "[Tick 0, EndTurn 1, EndTurn 0, Tick 0]" and w' = grapple_world]
  note b = grapple_never_times_out[OF grapple_world_facts(2),
      where ?w2.0 = "modify 1 (\<lambda>x. x\<lparr>action := False\<rparr>) ready_world"]
  have 1: "tick 0 grapple_world = Inr grapple_world" using a by simp
  have 2: "0 \<in> set (grappled (creatures (modify 1 (\<lambda>x. x\<lparr>action := False\<rparr>) ready_world) 1))
     \<and> 0 \<in> set (grappling (creatures (modify 1 (\<lambda>x. x\<lparr>action := False\<rparr>) ready_world) 0))"
    using b grapple_world_facts(4,5,6) grapple_world_runs(3,4,5,6) by simp
  show ?thesis
    using 1 2 grapple_world_facts(1,3,4) grapple_world_runs(1,2,3) by simp
qed

end
